(* ===== verification/Prelude.thy ===== *)
theory Prelude
  imports Main "HOL-Library.Word"
begin

text \<open>
  Shared vocabulary of the development: machine-integer types, the characters of the
  C locale (\<open>std::isspace\<close>, \<open>std::isdigit\<close>, \<open>std::isalnum\<close>, \<open>std::tolower\<close>),
  decimal and hexadecimal text, and the automation collections every component uses.
  Byte strings are HOL \<open>string\<close>s: a \<open>char\<close> is one byte, as in \<open>std::string\<close>.
\<close>

unbundle bit_operations_syntax

section \<open>Automation collections\<close>

named_theorems op_defs \<open>unfolding equations of the modelled operations\<close>
named_theorems frame_simps \<open>what an operation leaves unchanged\<close>
named_theorems len_rules \<open>a reader never grows its input\<close>

section \<open>Machine integers\<close>

type_synonym u8 = "8 word"
type_synonym u32 = "32 word"
type_synonym u64 = "64 word"
type_synonym i64 = "64 word"  \<comment> \<open>read by \<open>sint\<close>\<close>

lemma unat_lt_2p64 [simp]: "unat (x :: 64 word) < 18446744073709551616"
  using unsigned_less [of x] by simp

lemma unat_of_nat_u64: "n < 2 ^ 64 \<Longrightarrow> unat (of_nat n :: 64 word) = n"
  by (simp add: unsigned_of_nat take_bit_nat_eq_self)

lemma u64_no_wrap_iff:
  "\<not> (a + n < a) \<longleftrightarrow> unat a + unat n < 2 ^ 64" for a n :: u64
  using no_olen_add_nat [of a n] by (simp add: not_less)

lemma u64_past_end_iff: "a > (-1) - n \<longleftrightarrow> 2 ^ 64 \<le> unat a + unat n" for a n :: u64
proof -
  have "unat ((-1) - n) = unat (-1 :: u64) - unat n"
    by (rule unat_sub) (rule word_order.extremum)
  moreover have "unat (-1 :: u64) = 18446744073709551615"
    by (simp add: unsigned_minus_1_eq_mask mask_eq_exp_minus_1)
  moreover have "(2 :: nat) ^ 64 = 18446744073709551616" by simp
  ultimately show ?thesis
    using unat_lt_2p64 [of n] unfolding word_less_nat_alt by (intro iffI) linarith+
qed

section \<open>Characters\<close>

abbreviation code_of :: "char \<Rightarrow> nat" where
  "code_of c \<equiv> of_char c"

definition is_space :: "char \<Rightarrow> bool" where
  "is_space c \<longleftrightarrow> code_of c = 32 \<or> (9 \<le> code_of c \<and> code_of c \<le> 13)"

definition is_digit :: "char \<Rightarrow> bool" where
  "is_digit c \<longleftrightarrow> 48 \<le> code_of c \<and> code_of c \<le> 57"

definition is_alnum :: "char \<Rightarrow> bool" where
  "is_alnum c \<longleftrightarrow> is_digit c \<or> (65 \<le> code_of c \<and> code_of c \<le> 90)
     \<or> (97 \<le> code_of c \<and> code_of c \<le> 122)"

definition to_lower :: "char \<Rightarrow> char" where
  "to_lower c = (if 65 \<le> code_of c \<and> code_of c \<le> 90
                 then char_of (code_of c + 32) else c)"

definition digit_char :: "nat \<Rightarrow> char" where
  "digit_char n = char_of (48 + n)"

definition digit_val :: "char \<Rightarrow> nat" where
  "digit_val c = code_of c - 48"

lemma code_of_digit_char [simp]: "n < 10 \<Longrightarrow> code_of (digit_char n) = 48 + n"
  by (simp add: digit_char_def)

lemma is_digit_digit_char [simp]: "n < 10 \<Longrightarrow> is_digit (digit_char n)"
  by (simp add: is_digit_def)

lemma digit_val_digit_char [simp]: "n < 10 \<Longrightarrow> digit_val (digit_char n) = n"
  by (simp add: digit_val_def)

section \<open>Decimal text: \<open>std::to_string\<close> and stream output of integers\<close>

fun show_nat :: "nat \<Rightarrow> string" where
  "show_nat n = (if n < 10 then [digit_char n]
                 else show_nat (n div 10) @ [digit_char (n mod 10)])"

declare show_nat.simps [simp del]

definition show_int :: "int \<Rightarrow> string" where
  "show_int z = (if z < 0 then ''-'' @ show_nat (nat (- z)) else show_nat (nat z))"

fun digits_value :: "nat \<Rightarrow> string \<Rightarrow> nat" where
  "digits_value acc [] = acc"
| "digits_value acc (c # cs) = digits_value (10 * acc + digit_val c) cs"

lemma digits_value_append:
  "digits_value acc (xs @ ys) = digits_value (digits_value acc xs) ys"
  by (induction xs arbitrary: acc) auto

lemma show_nat_nonempty [simp]: "show_nat n \<noteq> []"
  by (subst show_nat.simps) simp

lemma show_nat_digits: "\<forall>c \<in> set (show_nat n). is_digit c"
proof (induction n rule: show_nat.induct)
  case (1 n)
  then show ?case by (subst show_nat.simps) auto
qed

lemma digits_value_show_nat: "digits_value 0 (show_nat n) = n"
proof (induction n rule: show_nat.induct)
  case (1 n)
  then show ?case
    by (subst show_nat.simps) (auto simp: digits_value_append)
qed

lemma show_nat_inject: "show_nat m = show_nat n \<longleftrightarrow> m = n"
  by (metis digits_value_show_nat)

section \<open>Searching: \<open>std::string::find\<close> finds the needle\<close>

fun contains :: "string \<Rightarrow> string \<Rightarrow> bool" where
  "contains needle [] \<longleftrightarrow> needle = []"
| "contains needle (c # s) \<longleftrightarrow> take (length needle) (c # s) = needle \<or> contains needle s"

end
