(* ===== verification/Core_Types.thy ===== *)
theory Core_Types
  imports Prelude
begin

text \<open>
  The vocabulary every component shares: \<open>include/gtlibcpp/result.hpp\<close> (\<open>ErrorCode\<close>,
  \<open>Error\<close>, \<open>Result\<close>), \<open>include/gtlibcpp/types.hpp\<close> (\<open>Architecture\<close>,
  \<open>TargetIdentity\<close>, \<open>ExpectedValue\<close>) and \<open>include/gtlibcpp/log.hpp\<close> (\<open>Logger\<close>).
  A \<open>Result<T>\<close> is the sum \<open>error + 'a\<close>; \<open>std::abort\<close> in an accessor is \<open>None\<close>.
\<close>

section \<open>Error codes\<close>

datatype error_code =
    EC_ok | EC_not_connected | EC_target_not_found | EC_target_arch_mismatch
  | EC_target_identity_mismatch | EC_target_dead
  | EC_invalid_address | EC_invalid_size | EC_invalid_offsets | EC_invalid_hotkey
  | EC_invalid_entry_id | EC_invalid_type | EC_invalid_string
  | EC_read_failed | EC_partial_read | EC_write_failed | EC_partial_write
  | EC_verification_mismatch | EC_snapshot_missing | EC_rollback_failed
  | EC_parse_failed | EC_parse_unsupported | EC_parse_diagnostic
  | EC_policy_denied | EC_approval_required | EC_capability_missing | EC_rate_limited
  | EC_timeout | EC_cancelled | EC_internal

fun error_code_num :: "error_code \<Rightarrow> int" where
  "error_code_num EC_ok = 0"
| "error_code_num EC_not_connected = 1001"
| "error_code_num EC_target_not_found = 1002"
| "error_code_num EC_target_arch_mismatch = 1003"
| "error_code_num EC_target_identity_mismatch = 1004"
| "error_code_num EC_target_dead = 1005"
| "error_code_num EC_invalid_address = 2001"
| "error_code_num EC_invalid_size = 2002"
| "error_code_num EC_invalid_offsets = 2003"
| "error_code_num EC_invalid_hotkey = 2004"
| "error_code_num EC_invalid_entry_id = 2005"
| "error_code_num EC_invalid_type = 2006"
| "error_code_num EC_invalid_string = 2007"
| "error_code_num EC_read_failed = 3001"
| "error_code_num EC_partial_read = 3002"
| "error_code_num EC_write_failed = 3003"
| "error_code_num EC_partial_write = 3004"
| "error_code_num EC_verification_mismatch = 3005"
| "error_code_num EC_snapshot_missing = 3006"
| "error_code_num EC_rollback_failed = 3007"
| "error_code_num EC_parse_failed = 4001"
| "error_code_num EC_parse_unsupported = 4002"
| "error_code_num EC_parse_diagnostic = 4003"
| "error_code_num EC_policy_denied = 5001"
| "error_code_num EC_approval_required = 5002"
| "error_code_num EC_capability_missing = 5003"
| "error_code_num EC_rate_limited = 5004"
| "error_code_num EC_timeout = 6001"
| "error_code_num EC_cancelled = 6002"
| "error_code_num EC_internal = 9001"

fun error_code_to_string :: "error_code \<Rightarrow> string" where
  "error_code_to_string EC_ok = ''ok''"
| "error_code_to_string EC_not_connected = ''not_connected''"
| "error_code_to_string EC_target_not_found = ''target_not_found''"
| "error_code_to_string EC_target_arch_mismatch = ''target_arch_mismatch''"
| "error_code_to_string EC_target_identity_mismatch = ''target_identity_mismatch''"
| "error_code_to_string EC_target_dead = ''target_dead''"
| "error_code_to_string EC_invalid_address = ''invalid_address''"
| "error_code_to_string EC_invalid_size = ''invalid_size''"
| "error_code_to_string EC_invalid_offsets = ''invalid_offsets''"
| "error_code_to_string EC_invalid_hotkey = ''invalid_hotkey''"
| "error_code_to_string EC_invalid_entry_id = ''invalid_entry_id''"
| "error_code_to_string EC_invalid_type = ''invalid_type''"
| "error_code_to_string EC_invalid_string = ''invalid_string''"
| "error_code_to_string EC_read_failed = ''read_failed''"
| "error_code_to_string EC_partial_read = ''partial_read''"
| "error_code_to_string EC_write_failed = ''write_failed''"
| "error_code_to_string EC_partial_write = ''partial_write''"
| "error_code_to_string EC_verification_mismatch = ''verification_mismatch''"
| "error_code_to_string EC_snapshot_missing = ''snapshot_missing''"
| "error_code_to_string EC_rollback_failed = ''rollback_failed''"
| "error_code_to_string EC_parse_failed = ''parse_failed''"
| "error_code_to_string EC_parse_unsupported = ''parse_unsupported''"
| "error_code_to_string EC_parse_diagnostic = ''parse_diagnostic''"
| "error_code_to_string EC_policy_denied = ''policy_denied''"
| "error_code_to_string EC_approval_required = ''approval_required''"
| "error_code_to_string EC_capability_missing = ''capability_missing''"
| "error_code_to_string EC_rate_limited = ''rate_limited''"
| "error_code_to_string EC_timeout = ''timeout''"
| "error_code_to_string EC_cancelled = ''cancelled''"
| "error_code_to_string EC_internal = ''internal''"

text \<open>
  The enumerators are declared in the order of their numbers; the \<open>linorder\<close> and
  \<open>size\<close> instances let the library compare and sort codes.
\<close>

lemma error_code_num_inject [simp]:
  "error_code_num a = error_code_num b \<longleftrightarrow> a = b"
  by (cases a; cases b) simp_all

instantiation error_code :: linorder
begin

definition less_eq_error_code :: "error_code \<Rightarrow> error_code \<Rightarrow> bool" where
  "less_eq_error_code a b \<longleftrightarrow> error_code_num a \<le> error_code_num b"

definition less_error_code :: "error_code \<Rightarrow> error_code \<Rightarrow> bool" where
  "less_error_code a b \<longleftrightarrow> error_code_num a < error_code_num b"

instance
  by standard (auto simp: less_eq_error_code_def less_error_code_def)

end

section \<open>Errors and results\<close>

type_synonym address = u64
type_synonym size_t = u64

definition invalid_address :: address where
  "invalid_address = 0"

record error =
  err_code :: error_code
  err_message :: string
  err_operation :: string
  err_address :: u64
  err_bytes :: size_t
  err_system_error :: u32
  err_request_id :: string

definition default_error :: error where
  "default_error = \<lparr>err_code = EC_ok, err_message = [], err_operation = [], err_address = 0,
     err_bytes = 0, err_system_error = 0, err_request_id = []\<rparr>"

definition error_ok :: "error \<Rightarrow> bool" where
  "error_ok e \<longleftrightarrow> err_code e = EC_ok"

text \<open>\<open>make_error\<close> with its default arguments spelled out at each use.\<close>

definition make_error_full ::
  "error_code \<Rightarrow> string \<Rightarrow> string \<Rightarrow> u64 \<Rightarrow> size_t \<Rightarrow> u32 \<Rightarrow> string \<Rightarrow> error" where
  "make_error_full c m op a n sys rid =
     \<lparr>err_code = c, err_message = m, err_operation = op, err_address = a, err_bytes = n,
      err_system_error = sys, err_request_id = rid\<rparr>"

abbreviation make_error :: "error_code \<Rightarrow> string \<Rightarrow> string \<Rightarrow> u64 \<Rightarrow> size_t \<Rightarrow> error" where
  "make_error c m op a n \<equiv> make_error_full c m op a n 0 []"

lemma make_error_full_sel [simp]:
  "err_code (make_error_full c m op a n sys rid) = c"
  "err_message (make_error_full c m op a n sys rid) = m"
  "err_operation (make_error_full c m op a n sys rid) = op"
  "err_address (make_error_full c m op a n sys rid) = a"
  "err_bytes (make_error_full c m op a n sys rid) = n"
  "err_system_error (make_error_full c m op a n sys rid) = sys"
  "err_request_id (make_error_full c m op a n sys rid) = rid"
  by (simp_all add: make_error_full_def)

type_synonym 'a result = "error + 'a"

abbreviation success :: "'a \<Rightarrow> 'a result" where "success \<equiv> Inr"
abbreviation failure :: "error \<Rightarrow> 'a result" where "failure \<equiv> Inl"

definition result_ok :: "'a result \<Rightarrow> bool" where
  "result_ok r = (case r of Inl _ \<Rightarrow> False | Inr _ \<Rightarrow> True)"

definition result_value :: "'a result \<Rightarrow> 'a option" where
  "result_value r = (case r of Inl _ \<Rightarrow> None | Inr v \<Rightarrow> Some v)"

definition result_value_or :: "'a result \<Rightarrow> 'a \<Rightarrow> 'a" where
  "result_value_or r fallback = (case r of Inl _ \<Rightarrow> fallback | Inr v \<Rightarrow> v)"

definition result_error :: "'a result \<Rightarrow> error" where
  "result_error r = (case r of Inl e \<Rightarrow> e | Inr _ \<Rightarrow> default_error)"

lemma result_value_None_iff: "result_value r = None \<longleftrightarrow> \<not> result_ok r"
  by (cases r) (simp_all add: result_value_def result_ok_def)

lemma result_error_of_success: "result_ok r \<Longrightarrow> error_ok (result_error r)"
  by (cases r) (simp_all add: result_ok_def result_error_def error_ok_def default_error_def)

section \<open>Target identity\<close>

datatype architecture = Arch_unknown | Arch_x86 | Arch_x64

fun architecture_to_string :: "architecture \<Rightarrow> string" where
  "architecture_to_string Arch_x86 = ''x86''"
| "architecture_to_string Arch_x64 = ''x64''"
| "architecture_to_string Arch_unknown = ''unknown''"

record target_identity =
  ti_pid :: u32
  ti_start_time :: u64
  ti_image_path :: string
  ti_image_sha256 :: string
  ti_architecture :: architecture

definition default_identity :: target_identity where
  "default_identity = \<lparr>ti_pid = 0, ti_start_time = 0, ti_image_path = [],
     ti_image_sha256 = [], ti_architecture = Arch_unknown\<rparr>"

definition identity_empty :: "target_identity \<Rightarrow> bool" where
  "identity_empty i \<longleftrightarrow> ti_pid i = 0"

definition identity_equal :: "target_identity \<Rightarrow> target_identity \<Rightarrow> bool" where
  "identity_equal i j \<longleftrightarrow> ti_pid i = ti_pid j \<and> ti_start_time i = ti_start_time j
     \<and> ti_image_path i = ti_image_path j \<and> ti_image_sha256 i = ti_image_sha256 j
     \<and> ti_architecture i = ti_architecture j"

lemma identity_equal_iff: "identity_equal i j \<longleftrightarrow> i = j"
  by (cases i; cases j) (simp add: identity_equal_def)

section \<open>Structured logging\<close>

datatype log_level = LL_debug | LL_info | LL_warn | LL_error

fun log_level_num :: "log_level \<Rightarrow> nat" where
  "log_level_num LL_debug = 0"
| "log_level_num LL_info = 1"
| "log_level_num LL_warn = 2"
| "log_level_num LL_error = 3"

text \<open>A call of \<open>Logger::log\<close>; the methods below hand these to the logger in order.\<close>

record log_call =
  lc_level :: log_level
  lc_operation :: string
  lc_code :: error_code
  lc_message :: string
  lc_address :: u64
  lc_bytes :: size_t

definition log_debug :: "string \<Rightarrow> string \<Rightarrow> u64 \<Rightarrow> size_t \<Rightarrow> log_call" where
  "log_debug op m a n = \<lparr>lc_level = LL_debug, lc_operation = op, lc_code = EC_ok,
     lc_message = m, lc_address = a, lc_bytes = n\<rparr>"

definition log_info :: "string \<Rightarrow> string \<Rightarrow> u64 \<Rightarrow> size_t \<Rightarrow> log_call" where
  "log_info op m a n = \<lparr>lc_level = LL_info, lc_operation = op, lc_code = EC_ok,
     lc_message = m, lc_address = a, lc_bytes = n\<rparr>"

definition log_warn :: "string \<Rightarrow> string \<Rightarrow> error_code \<Rightarrow> u64 \<Rightarrow> size_t \<Rightarrow> log_call" where
  "log_warn op m c a n = \<lparr>lc_level = LL_warn, lc_operation = op, lc_code = c,
     lc_message = m, lc_address = a, lc_bytes = n\<rparr>"

definition log_error :: "string \<Rightarrow> string \<Rightarrow> error_code \<Rightarrow> u64 \<Rightarrow> size_t \<Rightarrow> log_call" where
  "log_error op m c a n = \<lparr>lc_level = LL_error, lc_operation = op, lc_code = c,
     lc_message = m, lc_address = a, lc_bytes = n\<rparr>"

text \<open>
  The singleton \<open>Logger\<close>: \<open>lg_sink = None\<close> stands for the null sink pointer, which
  selects the default sink on standard error. The sink type \<open>'k\<close> and its user data
  \<open>'u\<close> are opaque: the logger only passes them on.
\<close>

record ('k, 'u) logger =
  lg_sink :: "'k option"
  lg_user :: "'u option"
  lg_min_level :: log_level

record log_event = log_call +
  le_timestamp_ms :: int

definition initial_logger :: "('k, 'u) logger" where
  "initial_logger = \<lparr>lg_sink = None, lg_user = None, lg_min_level = LL_info\<rparr>"

definition set_sink :: "('k, 'u) logger \<Rightarrow> 'k option \<Rightarrow> 'u option \<Rightarrow> ('k, 'u) logger" where
  "set_sink l k u = l\<lparr>lg_sink := k, lg_user := u\<rparr>"

definition reset_sink :: "('k, 'u) logger \<Rightarrow> ('k, 'u) logger" where
  "reset_sink l = l\<lparr>lg_sink := None, lg_user := None\<rparr>"

definition set_min_level :: "('k, 'u) logger \<Rightarrow> log_level \<Rightarrow> ('k, 'u) logger" where
  "set_min_level l v = l\<lparr>lg_min_level := v\<rparr>"

datatype 'k sink_choice = User_sink 'k | Default_sink

text \<open>
  \<open>Logger::log\<close>: the event, the sink that receives it and the user data it is handed, or
  \<open>None\<close> when the level is below the threshold. \<open>now\<close> is the reading of the system clock.
\<close>

definition logger_log ::
  "('k, 'u) logger \<Rightarrow> int \<Rightarrow> log_call \<Rightarrow> ('k sink_choice \<times> 'u option \<times> log_event) option" where
  "logger_log l now c =
     (if log_level_num (lc_level c) < log_level_num (lg_min_level l) then None
      else Some (case lg_sink l of Some k \<Rightarrow> User_sink k | None \<Rightarrow> Default_sink,
                 lg_user l, log_call.extend c (log_event.fields now)))"

definition deliveries ::
  "('k, 'u) logger \<Rightarrow> int \<Rightarrow> log_call list \<Rightarrow> ('k sink_choice \<times> 'u option \<times> log_event) list" where
  "deliveries l now cs = List.map_filter (logger_log l now) cs"

lemma logger_log_None_iff:
  "logger_log l now c = None \<longleftrightarrow> log_level_num (lc_level c) < log_level_num (lg_min_level l)"
  by (simp add: logger_log_def)

lemma length_deliveries:
  "length (deliveries l now cs)
     = length [c \<leftarrow> cs. log_level_num (lg_min_level l) \<le> log_level_num (lc_level c)]"
  by (induction cs) (auto simp: deliveries_def map_filter_simps logger_log_def)

section \<open>Readers with fuel\<close>

text \<open>
  What the recursive readers of XML and JSON guarantee when their fuel suffices: they return,
  and a success has consumed input.
\<close>

definition settles :: "('a \<times> string) result option \<Rightarrow> string \<Rightarrow> bool" where
  "settles r s \<longleftrightarrow> (case r of None \<Rightarrow> False | Some (Inl e) \<Rightarrow> True
     | Some (Inr (node, rest)) \<Rightarrow> length rest < length s)"

lemma settles_simps [simp]:
  "settles (Some (Inl e)) s" "\<not> settles None s"
  "settles (Some (Inr (node, rest))) s \<longleftrightarrow> length rest < length s"
  by (simp_all add: settles_def)

lemma settles_shorter: "settles r s \<Longrightarrow> length s \<le> length t \<Longrightarrow> settles r t"
  by (auto simp: settles_def split: option.splits sum.splits)

lemma settles_cases:
  assumes "settles r s"
  obtains e where "r = Some (Inl e)" | node rest where "r = Some (Inr (node, rest))" "length rest < length s"
  using assms by (auto simp: settles_def split: option.splits sum.splits prod.splits)

end
