(* ===== verification/Byte_Memory.thy ===== *)
theory Byte_Memory
  imports Core_Types
begin

text \<open>
  What \<open>std::memcpy\<close> does between an integer and its object representation on the
  little-endian targets the library supports, and the byte-addressed memory that the
  contract of a memory backend is stated over (a partial map from addresses to bytes).
\<close>

section \<open>Object representation of integers\<close>

definition bytes_of_word :: "'a::len word \<Rightarrow> u8 list" where
  "bytes_of_word w = map (\<lambda>i. ucast (drop_bit (8 * i) w)) [0..<LENGTH('a) div 8]"

fun word_of_bytes :: "u8 list \<Rightarrow> 'a::len word" where
  "word_of_bytes [] = 0"
| "word_of_bytes (b # bs) = ucast b OR push_bit 8 (word_of_bytes bs)"

lemma length_bytes_of_word [simp]:
  "length (bytes_of_word (w :: 'a::len word)) = LENGTH('a) div 8"
  by (simp add: bytes_of_word_def)

lemma bit_word_of_bytes:
  "bit (word_of_bytes bs :: 'a::len word) n \<longleftrightarrow>
     n < LENGTH('a) \<and> n div 8 < length bs \<and> bit (bs ! (n div 8)) (n mod 8)"
proof (induction bs arbitrary: n)
  case Nil
  then show ?case by simp
next
  case (Cons b bs)
  show ?case
  proof (cases "n < 8")
    case True
    then show ?thesis by (auto simp: bit_simps)
  next
    case False
    then have eq: "n div 8 = Suc ((n - 8) div 8)" "n mod 8 = (n - 8) mod 8"
      by (simp_all add: le_div_geq le_mod_geq)
    have nb: "\<not> bit b n"
      using False bit_imp_le_length [of b n] by auto
    show ?thesis
      using False nb Cons.IH [of "n - 8"] by (auto simp: bit_simps eq)
  qed
qed

lemma word_of_bytes_of_word:
  assumes "8 dvd LENGTH('a)"
  shows "word_of_bytes (bytes_of_word w) = (w :: 'a::len word)"
proof (rule bit_word_eqI)
  fix n assume n: "n < LENGTH('a)"
  with assms have "n div 8 < LENGTH('a) div 8"
    by (metis div_less_iff_less_mult dvd_div_mult_self zero_less_numeral)
  then show "bit (word_of_bytes (bytes_of_word w) :: 'a word) n = bit w n"
    using n by (simp add: bit_word_of_bytes bytes_of_word_def bit_simps)
qed

lemma bytes_of_word_of_bytes:
  assumes "length bs = LENGTH('a) div 8"
  shows "bytes_of_word (word_of_bytes bs :: 'a::len word) = bs"
proof (rule nth_equalityI)
  show "length (bytes_of_word (word_of_bytes bs :: 'a word)) = length bs"
    using assms by simp
next
  fix i assume "i < length (bytes_of_word (word_of_bytes bs :: 'a word))"
  then have i: "i < LENGTH('a) div 8" by simp
  have "ucast (drop_bit (8 * i) (word_of_bytes bs :: 'a word)) = bs ! i"
  proof (rule bit_word_eqI)
    fix n assume n: "n < LENGTH(8)"
    have "8 * i + n < LENGTH('a)" using i n by auto
    then show "bit (ucast (drop_bit (8 * i) (word_of_bytes bs :: 'a word)) :: u8) n = bit (bs ! i) n"
      using i n assms by (simp add: bit_simps bit_word_of_bytes)
  qed
  then show "bytes_of_word (word_of_bytes bs :: 'a word) ! i = bs ! i"
    using i by (simp add: bytes_of_word_def)
qed

lemma bytes_of_word_inject:
  "8 dvd LENGTH('a) \<Longrightarrow> bytes_of_word (v :: 'a::len word) = bytes_of_word w \<longleftrightarrow> v = w"
  by (metis word_of_bytes_of_word)

section \<open>Byte-addressed memory\<close>

type_synonym mem = "address \<Rightarrow> u8 option"

fun mem_slice :: "mem \<Rightarrow> address \<Rightarrow> nat \<Rightarrow> u8 list option" where
  "mem_slice m a 0 = Some []"
| "mem_slice m a (Suc n) =
     (case m a of None \<Rightarrow> None
      | Some b \<Rightarrow> map_option (\<lambda>bs. b # bs) (mem_slice m (a + 1) n))"

lemma mem_slice_numeral:
  "mem_slice m a (numeral n) =
     (case m a of None \<Rightarrow> None
      | Some b \<Rightarrow> map_option (\<lambda>bs. b # bs) (mem_slice m (a + 1) (pred_numeral n)))"
  by (simp add: numeral_eq_Suc)

fun mem_store :: "mem \<Rightarrow> address \<Rightarrow> u8 list \<Rightarrow> mem" where
  "mem_store m a [] = m"
| "mem_store m a (b # bs) = mem_store (m(a \<mapsto> b)) (a + 1) bs"

text \<open>The addresses of a range of \<open>n\<close> bytes, with the wrap-around of 64-bit addresses.\<close>

definition addr_range :: "address \<Rightarrow> nat \<Rightarrow> address set" where
  "addr_range a n = {a + of_nat i |i. i < n}"

lemma addr_range_0 [simp]: "addr_range a 0 = {}"
  by (simp add: addr_range_def)

lemma addr_range_image: "addr_range a n = (\<lambda>i. a + of_nat i) ` {..<n}"
  by (auto simp: addr_range_def)

lemma addr_range_Suc: "addr_range a (Suc n) = insert a (addr_range (a + 1) n)"
  unfolding addr_range_image lessThan_Suc_eq_insert_0 image_insert image_image
  by (simp add: add.assoc)

lemma mem_slice_Some_iff:
  "mem_slice m a n = Some bs \<longleftrightarrow>
     length bs = n \<and> (\<forall>i < n. m (a + of_nat i) = Some (bs ! i))"
proof (induction n arbitrary: a bs)
  case 0
  then show ?case by auto
next
  case (Suc n)
  show ?case
  proof
    assume "mem_slice m a (Suc n) = Some bs"
    then obtain b bs' where mb: "m a = Some b" and bs: "bs = b # bs'"
      and sl: "mem_slice m (a + 1) n = Some bs'"
      by (auto split: option.splits)
    have "length bs' = n" and "\<forall>i < n. m (a + 1 + of_nat i) = Some (bs' ! i)"
      using sl Suc.IH by auto
    then show "length bs = Suc n \<and> (\<forall>i < Suc n. m (a + of_nat i) = Some (bs ! i))"
      using mb bs by (auto simp: less_Suc_eq_0_disj algebra_simps)
  next
    assume R: "length bs = Suc n \<and> (\<forall>i < Suc n. m (a + of_nat i) = Some (bs ! i))"
    then obtain b bs' where bs: "bs = b # bs'" by (cases bs) auto
    have mb: "m a = Some b" using R bs by force
    have "m (a + 1 + of_nat i) = Some (bs' ! i)" if "i < n" for i
      using R bs that spec [of "\<lambda>i. i < Suc n \<longrightarrow> m (a + of_nat i) = Some (bs ! i)" "Suc i"]
      by (auto simp: algebra_simps)
    then have "mem_slice m (a + 1) n = Some bs'" using R bs Suc.IH by auto
    then show "mem_slice m a (Suc n) = Some bs" using mb bs by simp
  qed
qed

lemma mem_slice_length: "mem_slice m a n = Some bs \<Longrightarrow> length bs = n"
  by (simp add: mem_slice_Some_iff)

lemma mem_slice_defined_iff:
  "(\<exists>bs. mem_slice m a n = Some bs) \<longleftrightarrow> (\<forall>x \<in> addr_range a n. m x \<noteq> None)"
proof
  assume "\<forall>x \<in> addr_range a n. m x \<noteq> None"
  then have "mem_slice m a n = Some (map (\<lambda>i. the (m (a + of_nat i))) [0..<n])"
    by (auto simp: mem_slice_Some_iff addr_range_def)
  then show "\<exists>bs. mem_slice m a n = Some bs" ..
qed (auto simp: mem_slice_Some_iff addr_range_def)

lemma mem_slice_cong:
  "(\<And>x. x \<in> addr_range a n \<Longrightarrow> m x = m' x) \<Longrightarrow> mem_slice m a n = mem_slice m' a n"
  by (induction n arbitrary: a) (auto simp: addr_range_Suc split: option.splits)

lemma mem_slice_sub:
  assumes "mem_slice m a n = Some bs" and "i + k \<le> n"
  shows "mem_slice m (a + of_nat i) k = Some (take k (drop i bs))"
proof -
  have "m (a + of_nat i + of_nat j) = Some (bs ! (i + j))" if "j < k" for j
    using assms that by (auto simp: mem_slice_Some_iff add.assoc of_nat_add [symmetric]
        simp del: of_nat_add)
  then show ?thesis using assms by (auto simp: mem_slice_Some_iff)
qed

lemma mem_store_other: "x \<notin> addr_range a (length bs) \<Longrightarrow> mem_store m a bs x = m x"
  by (induction bs arbitrary: m a) (auto simp: addr_range_Suc)

lemma mem_store_dom: "dom (mem_store m a bs) = dom m \<union> addr_range a (length bs)"
  by (induction bs arbitrary: m a) (auto simp: addr_range_Suc)

lemma of_nat_inj_u64:
  "i < 2 ^ 64 \<Longrightarrow> j < 2 ^ 64 \<Longrightarrow> (of_nat i :: u64) = of_nat j \<longleftrightarrow> i = j"
  by (metis unat_of_nat_u64)

text \<open>A write of at most \<open>2^64\<close> bytes is read back, even across the wrap-around.\<close>

lemma mem_slice_store:
  assumes "length bs \<le> 2 ^ 64"
  shows "mem_slice (mem_store m a bs) a (length bs) = Some bs"
  using assms
proof (induction bs arbitrary: m a)
  case Nil
  then show ?case by simp
next
  case (Cons b bs)
  have "a \<notin> addr_range (a + 1) (length bs)"
  proof
    assume "a \<in> addr_range (a + 1) (length bs)"
    then obtain i where i: "i < length bs" and "a = a + 1 + of_nat i"
      by (auto simp: addr_range_def)
    then have "(of_nat (Suc i) :: u64) = 0"
      by (metis add.assoc add_cancel_right_right of_nat_Suc)
    moreover have "Suc i < 2 ^ 64" using i Cons.prems by simp
    ultimately show False
      by (metis Zero_not_Suc unat_of_nat_u64 unat_0)
  qed
  then show ?case using Cons by (simp add: mem_store_other)
qed

lemma mem_slice_store_disjoint:
  "addr_range a n \<inter> addr_range b (length bs) = {} \<Longrightarrow>
     mem_slice (mem_store m b bs) a n = mem_slice m a n"
  by (rule mem_slice_cong) (rule mem_store_other, blast)

lemma mem_store_slice_id:
  assumes "mem_slice m a n = Some bs"
  shows "mem_store m a bs = m"
proof -
  have "mem_slice m a (length bs) = Some bs"
    using assms by (simp add: mem_slice_Some_iff)
  then show ?thesis
  proof (induction bs arbitrary: m a)
    case (Cons b bs)
    then show ?case by (auto simp: fun_upd_idem split: option.splits)
  qed simp
qed

end
