(* ===== verification/Backend.thy ===== *)
theory Backend
  imports Byte_Memory
begin

text \<open>
  \<open>include/gtlibcpp/backend.hpp\<close>: the request validators and the interface
  \<open>IMemoryBackend\<close>. A backend is a record of its virtual methods over a backend state
  \<open>'b\<close>; a method that is not \<open>noexcept\<close> may return or throw. The locale
  \<open>memory_backend\<close> states what a client relies on: reads and writes agree with a
  byte-addressed memory \<open>mem_of\<close>. \<open>writable_backend\<close> adds that valid writes succeed.
\<close>

section \<open>Request validation\<close>

definition mib :: size_t where "mib = 1048576"

definition validate_read_request :: "address \<Rightarrow> size_t \<Rightarrow> size_t result" where
  "validate_read_request a n =
     (if n = 0 then failure (make_error EC_invalid_size ''read size must be non-zero''
        ''validate_read_request'' a 0)
      else if n > mib then failure (make_error EC_invalid_size
        ''read size exceeds 1 MiB safety cap'' ''validate_read_request'' a n)
      else if a + n < a then failure (make_error EC_invalid_address
        ''read range wraps the address space'' ''validate_read_request'' a n)
      else success n)"

definition validate_write_request :: "address \<Rightarrow> size_t \<Rightarrow> size_t result" where
  "validate_write_request a n =
     (if n = 0 then failure (make_error EC_invalid_size ''write size must be non-zero''
        ''validate_write_request'' a 0)
      else if n > mib then failure (make_error EC_invalid_size
        ''write size exceeds 1 MiB safety cap'' ''validate_write_request'' a n)
      else if a + n < a then failure (make_error EC_invalid_address
        ''write range wraps the address space'' ''validate_write_request'' a n)
      else success n)"

text \<open>The requests the validators accept, over the naturals.\<close>

definition valid_request :: "address \<Rightarrow> nat \<Rightarrow> bool" where
  "valid_request a n \<longleftrightarrow> 0 < n \<and> n \<le> 2 ^ 20 \<and> unat a + n < 2 ^ 64"

lemma mib_le_iff: "n \<le> mib \<longleftrightarrow> unat n \<le> 2 ^ 20"
  by (simp add: mib_def word_le_nat_alt)

lemma validate_read_iff: "validate_read_request a n = success k \<longleftrightarrow> k = n \<and> valid_request a (unat n)"
  using mib_le_iff [of n] u64_no_wrap_iff [of a n]
  by (auto simp: validate_read_request_def valid_request_def not_less unat_eq_0 neq0_conv [symmetric]
      simp del: neq0_conv)

lemma validate_write_iff: "validate_write_request a n = success k \<longleftrightarrow> k = n \<and> valid_request a (unat n)"
  using mib_le_iff [of n] u64_no_wrap_iff [of a n]
  by (auto simp: validate_write_request_def valid_request_def not_less unat_eq_0 neq0_conv [symmetric]
      simp del: neq0_conv)

lemma validate_read_cases:
  obtains (ok) "validate_read_request a n = success n" "valid_request a (unat n)"
  | (bad) e where "validate_read_request a n = failure e" "\<not> valid_request a (unat n)"
  using validate_read_iff [of a n n] by (cases "validate_read_request a n") (auto simp: validate_read_iff)

lemma validate_write_cases:
  obtains (ok) "validate_write_request a n = success n" "valid_request a (unat n)"
  | (bad) e where "validate_write_request a n = failure e" "\<not> valid_request a (unat n)"
  using validate_write_iff [of a n n] by (cases "validate_write_request a n") (auto simp: validate_write_iff)

lemma validate_read_error:
  "validate_read_request a n = failure e \<Longrightarrow>
     err_address e = a \<and> err_code e \<in> {EC_invalid_size, EC_invalid_address}"
  by (auto simp: validate_read_request_def split: if_splits)

section \<open>The backend interface\<close>

datatype 'r outcome = Returned 'r | Threw string | Threw_unknown

record 'b backend_ops =
  be_read :: "'b \<Rightarrow> address \<Rightarrow> size_t \<Rightarrow> u8 list result outcome \<times> 'b"
  be_write :: "'b \<Rightarrow> address \<Rightarrow> u8 list \<Rightarrow> size_t result outcome \<times> 'b"
  be_is_alive :: "'b \<Rightarrow> bool"
  be_target_id :: "'b \<Rightarrow> string"
  be_identity :: "'b \<Rightarrow> target_identity"

locale memory_backend =
  fixes ops :: "'b backend_ops"
    and mem_of :: "'b \<Rightarrow> mem"
  assumes read_keeps: "mem_of (snd (be_read ops b a n)) = mem_of b"
    and read_full: "fst (be_read ops b a n) = Returned (Inr bs) \<Longrightarrow> length bs = unat n \<Longrightarrow>
          mem_slice (mem_of b) a (unat n) = Some bs"
    and read_mapped: "valid_request a (unat n) \<Longrightarrow> mem_slice (mem_of b) a (unat n) = Some bs \<Longrightarrow>
          fst (be_read ops b a n) = Returned (Inr bs)"
    and write_stored: "length bs < 2 ^ 64 \<Longrightarrow> fst (be_write ops b a bs) = Returned (Inr n) \<Longrightarrow>
          mem_of (snd (be_write ops b a bs)) = mem_store (mem_of b) a (take (unat n) bs)"
    and write_refused: "\<forall>n. fst (be_write ops b a bs) \<noteq> Returned (Inr n) \<Longrightarrow>
          mem_of (snd (be_write ops b a bs)) = mem_of b"
begin

text \<open>A write changes nothing outside its range, whatever it returns.\<close>

lemma write_outside:
  assumes len: "length bs < 2 ^ 64" and "x \<notin> addr_range a (length bs)"
  shows "mem_of (snd (be_write ops b a bs)) x = mem_of b x"
proof (cases "\<exists>n. fst (be_write ops b a bs) = Returned (Inr n)")
  case True
  then obtain n where n: "fst (be_write ops b a bs) = Returned (Inr n)" by blast
  have "x \<notin> addr_range a (length (take (unat n) bs))"
    using assms by (auto simp: addr_range_def)
  from mem_store_other [OF this] show ?thesis by (simp only: write_stored [OF len n])
next
  case False
  then show ?thesis by (simp add: write_refused)
qed

end

locale writable_backend = memory_backend ops mem_of
  for ops :: "'b backend_ops" and mem_of :: "'b \<Rightarrow> mem" +
  assumes write_accepted: "valid_request a (length bs) \<Longrightarrow>
            fst (be_write ops b a bs) = Returned (Inr (of_nat (length bs)))"
begin

lemma write_effect:
  assumes "valid_request a (length bs)"
  shows "mem_of (snd (be_write ops b a bs)) = mem_store (mem_of b) a bs"
proof -
  have "unat (of_nat (length bs) :: u64) = length bs"
    using assms by (intro unat_of_nat_u64) (simp add: valid_request_def)
  then show ?thesis
    using write_stored [OF _ write_accepted [OF assms]] assms by (simp add: valid_request_def)
qed

end

end
