(* ===== verification/Memory_Session.thy ===== *)
theory Memory_Session
  imports Backend
begin

text \<open>
  \<open>include/gtlibcpp/memory_session.hpp\<close>: \<open>BatchResult\<close>, \<open>BoundedString\<close> and
  \<open>MemorySession\<close>. A session is its backend state, the identity cached by the
  constructor and the trace of its calls to \<open>Logger::log\<close>. The template operations
  \<open>read<T>\<close>, \<open>write<T>\<close> are polymorphic in the word type standing for \<open>T\<close>; a
  \<open>catch\<close> clause is the branch of an \<open>outcome\<close> that throws. The session's backend
  pointer is not null wherever the source dereferences it without a test; the two methods
  that test it take an optional backend.
\<close>

section \<open>State\<close>

record 'b session =
  ses_backend :: 'b
  ses_identity :: target_identity
  ses_log :: "log_call list"

definition MemorySession_new :: "'b backend_ops \<Rightarrow> 'b option \<Rightarrow> target_identity" where
  "MemorySession_new ops bo =
     (case bo of None \<Rightarrow> default_identity | Some b \<Rightarrow> be_identity ops b)"

definition open_session :: "'b backend_ops \<Rightarrow> 'b \<Rightarrow> 'b session" where
  "open_session ops b =
     \<lparr>ses_backend = b, ses_identity = MemorySession_new ops (Some b), ses_log = []\<rparr>"

definition add_log :: "'b session \<Rightarrow> log_call \<Rightarrow> 'b session" where
  "add_log s c = s\<lparr>ses_log := ses_log s @ [c]\<rparr>"

definition with_backend :: "'b session \<Rightarrow> 'b \<Rightarrow> 'b session" where
  "with_backend s b = s\<lparr>ses_backend := b\<rparr>"

lemma session_sel [simp]:
  "ses_backend (add_log s c) = ses_backend s"
  "ses_identity (add_log s c) = ses_identity s"
  "ses_log (add_log s c) = ses_log s @ [c]"
  "ses_backend (with_backend s b) = b"
  "ses_identity (with_backend s b) = ses_identity s"
  "ses_log (with_backend s b) = ses_log s"
  by (simp_all add: add_log_def with_backend_def)

section \<open>Untyped reads and writes\<close>

definition read_bytes ::
  "'b backend_ops \<Rightarrow> 'b session \<Rightarrow> address \<Rightarrow> size_t \<Rightarrow> u8 list result \<times> 'b session" where
  "read_bytes ops s a n =
     (let op = ''MemorySession::read_bytes'' in
      case validate_read_request a n of
        Inl e \<Rightarrow> (failure e, add_log s (log_warn op ''validation failed'' (err_code e) a n))
      | Inr _ \<Rightarrow>
          (case be_read ops (ses_backend s) a n of
             (Returned (Inl e), b) \<Rightarrow>
               (failure e,
                add_log (with_backend s b) (log_warn op ''backend failed'' (err_code e) a n))
           | (Returned (Inr bs), b) \<Rightarrow>
               (if length bs \<noteq> unat n
                then (failure (make_error EC_partial_read
                        ''read returned fewer bytes than requested'' op a (of_nat (length bs))),
                      with_backend s b)
                else (success bs, with_backend s b))
           | (Threw w, b) \<Rightarrow>
               (failure (make_error EC_internal w op a n),
                add_log (with_backend s b) (log_error op w EC_internal a n))
           | (Threw_unknown, b) \<Rightarrow>
               (failure (make_error EC_internal ''unknown exception'' op a n),
                add_log (with_backend s b) (log_error op ''unknown exception'' EC_internal a n))))"

definition write_bytes ::
  "'b backend_ops \<Rightarrow> 'b session \<Rightarrow> address \<Rightarrow> u8 list \<Rightarrow> size_t result \<times> 'b session" where
  "write_bytes ops s a bs =
     (let op = ''MemorySession::write_bytes''; n = of_nat (length bs) in
      case validate_write_request a n of
        Inl e \<Rightarrow> (failure e, add_log s (log_warn op ''validation failed'' (err_code e) a n))
      | Inr _ \<Rightarrow>
          (case be_write ops (ses_backend s) a bs of
             (Returned r, b) \<Rightarrow> (r, with_backend s b)
           | (Threw w, b) \<Rightarrow>
               (failure (make_error EC_internal w op a n),
                add_log (with_backend s b) (log_error op w EC_internal a n))
           | (Threw_unknown, b) \<Rightarrow>
               (failure (make_error EC_internal ''unknown exception'' op a n),
                add_log (with_backend s b) (log_error op ''unknown exception'' EC_internal a n))))"

section \<open>Typed reads and writes\<close>

definition session_read ::
  "'b backend_ops \<Rightarrow> 'b session \<Rightarrow> address \<Rightarrow> ('a::len word) result \<times> 'b session" where
  "session_read ops s a =
     (let op = ''MemorySession::read''; size = LENGTH('a) div 8; n = of_nat size in
      case validate_read_request a n of
        Inl e \<Rightarrow> (failure e, add_log s (log_warn op ''validation failed'' (err_code e) a n))
      | Inr _ \<Rightarrow>
          (case be_read ops (ses_backend s) a n of
             (Returned (Inl e), b) \<Rightarrow>
               (failure e, add_log (with_backend s b)
                  (log_warn op ''backend returned failure'' (err_code e) a n))
           | (Returned (Inr bs), b) \<Rightarrow>
               (if length bs \<noteq> size
                then (failure (make_error EC_partial_read
                        ''read returned fewer bytes than requested'' op a (of_nat (length bs))),
                      with_backend s b)
                else (success (word_of_bytes bs),
                      add_log (with_backend s b) (log_debug op ''ok'' a n)))
           | (Threw w, b) \<Rightarrow>
               (failure (make_error EC_internal w op a 0),
                add_log (with_backend s b) (log_error op w EC_internal a 0))
           | (Threw_unknown, b) \<Rightarrow>
               (failure (make_error EC_internal ''unknown exception'' op a 0),
                add_log (with_backend s b) (log_error op ''unknown exception'' EC_internal a 0))))"

definition session_write ::
  "'b backend_ops \<Rightarrow> 'b session \<Rightarrow> address \<Rightarrow> 'a::len word \<Rightarrow> size_t result \<times> 'b session" where
  "session_write ops s a v =
     (let op = ''MemorySession::write''; n = of_nat (LENGTH('a) div 8) in
      case validate_write_request a n of
        Inl e \<Rightarrow> (failure e, add_log s (log_warn op ''validation failed'' (err_code e) a n))
      | Inr _ \<Rightarrow>
          (case write_bytes ops s a (bytes_of_word v) of
             (Inl e, s') \<Rightarrow>
               (failure e, add_log s' (log_warn op ''write_bytes failed'' (err_code e) a n))
           | (Inr k, s') \<Rightarrow> (success k, s')))"

text \<open>
  The loop body of \<open>compare_write_verify\<close> returns on every path, so the loop runs at
  most once; the code after the loop is reached only with a budget of zero.
\<close>

definition compare_write_verify ::
  "'b backend_ops \<Rightarrow> 'b session \<Rightarrow> address \<Rightarrow> 'a::len word \<Rightarrow> u32
     \<Rightarrow> ('a word) result \<times> 'b session" where
  "compare_write_verify ops s a v max_attempts =
     (let op = ''compare_write_verify''; n = of_nat (LENGTH('a) div 8) in
      if 0 < max_attempts then
        (case session_write ops s a v of
           (Inl e, s1) \<Rightarrow> (failure e, s1)
         | (Inr _, s1) \<Rightarrow>
             (case session_read ops s1 a of
                (Inl e, s2) \<Rightarrow> (failure e, s2)
              | (Inr w, s2) \<Rightarrow>
                  (if w = v then (success v, s2)
                   else (failure (make_error EC_verification_mismatch
                     ''post-write verification did not match the intended value'' op a n), s2))))
      else (failure (make_error EC_verification_mismatch
              ''post-write verification exhausted retry budget'' op a n), s))"

section \<open>Pointer chains and batches\<close>

text \<open>
  \<open>std::uintptr_t\<close> is 8 bytes: the model is that of a 64-bit host. Addresses add with
  the wrap-around of \<open>std::uint64_t\<close>.
\<close>

fun resolve_steps ::
  "'b backend_ops \<Rightarrow> 'b session \<Rightarrow> nat \<Rightarrow> address \<Rightarrow> address list
     \<Rightarrow> address result \<times> 'b session" where
  "resolve_steps ops s step current [] = (success current, s)"
| "resolve_steps ops s step current (off # offs) =
     (let target = current + off in
      case session_read ops s target of
        (Inl e, s') \<Rightarrow>
          (failure (make_error_full (err_code e)
             (''pointer chain step '' @ show_nat step @ '' failed: '' @ err_message e)
             ''resolve_pointer_chain'' target 8 (err_system_error e) []), s')
      | (Inr (v :: u64), s') \<Rightarrow>
          (if v = 0
           then (failure (make_error EC_invalid_address
                   (''pointer chain step '' @ show_nat step @ '' produced NULL'')
                   ''resolve_pointer_chain'' target 8), s')
           else resolve_steps ops s' (Suc step) v offs))"

definition resolve_pointer_chain ::
  "'b backend_ops \<Rightarrow> 'b session \<Rightarrow> address \<Rightarrow> address list \<Rightarrow> address result \<times> 'b session" where
  "resolve_pointer_chain ops s base offsets =
     (if offsets = []
      then (failure (make_error EC_invalid_offsets
              ''pointer chain must have at least one offset'' ''resolve_pointer_chain'' base 0), s)
      else resolve_steps ops s 0 base offsets)"

record batch_result =
  br_complete :: bool
  br_completed_addresses :: "address list"
  br_attempted_addresses :: "address list"
  br_failure :: "error option"

definition BatchResult_ok_full :: "address list \<Rightarrow> batch_result" where
  "BatchResult_ok_full completed = \<lparr>br_complete = True, br_completed_addresses = completed,
     br_attempted_addresses = [], br_failure = None\<rparr>"

definition BatchResult_partial :: "address list \<Rightarrow> address list \<Rightarrow> error \<Rightarrow> batch_result" where
  "BatchResult_partial completed attempted e = \<lparr>br_complete = False,
     br_completed_addresses = completed, br_attempted_addresses = attempted,
     br_failure = Some e\<rparr>"

fun read_offsets_loop ::
  "'b backend_ops \<Rightarrow> 'b session \<Rightarrow> address \<Rightarrow> size_t \<Rightarrow> address list \<Rightarrow> address list
     \<Rightarrow> address list \<Rightarrow> batch_result \<times> 'b session" where
  "read_offsets_loop ops s base n completed attempted [] = (BatchResult_ok_full completed, s)"
| "read_offsets_loop ops s base n completed attempted (off # offs) =
     (let target = base + off in
      case read_bytes ops s target n of
        (Inl e, s') \<Rightarrow> (BatchResult_partial completed (attempted @ [target]) e, s')
      | (Inr _, s') \<Rightarrow>
          read_offsets_loop ops s' base n (completed @ [target]) (attempted @ [target]) offs)"

definition read_offsets ::
  "'b backend_ops \<Rightarrow> 'b session \<Rightarrow> address \<Rightarrow> address list \<Rightarrow> size_t
     \<Rightarrow> batch_result result \<times> 'b session" where
  "read_offsets ops s base offsets n =
     (case read_offsets_loop ops s base n [] offsets offsets of (r, s') \<Rightarrow> (success r, s'))"

fun write_offsets_loop ::
  "'b backend_ops \<Rightarrow> 'b session \<Rightarrow> address \<Rightarrow> 'a::len word \<Rightarrow> address list \<Rightarrow> address list
     \<Rightarrow> address list \<Rightarrow> batch_result \<times> 'b session" where
  "write_offsets_loop ops s base v completed attempted [] = (BatchResult_ok_full completed, s)"
| "write_offsets_loop ops s base v completed attempted (off # offs) =
     (case session_write ops s (base + off) v of
        (Inl e, s') \<Rightarrow> (BatchResult_partial completed (attempted @ [base + off]) e, s')
      | (Inr _, s') \<Rightarrow> write_offsets_loop ops s' base v (completed @ [base + off])
                         (attempted @ [base + off]) offs)"

definition write_offsets ::
  "'b backend_ops \<Rightarrow> 'b session \<Rightarrow> address \<Rightarrow> address list \<Rightarrow> 'a::len word
     \<Rightarrow> batch_result result \<times> 'b session" where
  "write_offsets ops s base offsets v =
     (case write_offsets_loop ops s base v [] offsets offsets of (r, s') \<Rightarrow> (success r, s'))"

section \<open>Bounded strings\<close>

record bounded_string =
  bs_storage :: "u8 list"
  bs_capacity :: size_t
  bs_truncated :: bool

fun copy_until_nul :: "u8 list \<Rightarrow> u8 list \<times> bool" where
  "copy_until_nul [] = ([], False)"
| "copy_until_nul (b # bs) =
     (if b = 0 then ([], True)
      else (case copy_until_nul bs of (out, nul_found) \<Rightarrow> (b # out, nul_found)))"

definition BoundedString_from_utf8 ::
  "u8 list \<Rightarrow> size_t \<Rightarrow> bool \<Rightarrow> bounded_string result" where
  "BoundedString_from_utf8 bytes capacity require_nul_terminator =
     (let op = ''BoundedString::from_utf8''; size = of_nat (length bytes) in
      if capacity = 0
      then failure (make_error EC_invalid_string ''BoundedString capacity must be non-zero''
             op 0 size)
      else
        (let usable = (if length bytes < unat capacity then length bytes else unat capacity)
         in case copy_until_nul (take usable bytes) of (out, nul_found) \<Rightarrow>
           if require_nul_terminator \<and> \<not> nul_found
           then failure (make_error EC_invalid_string
                  ''string is not NUL-terminated within declared capacity'' op 0 size)
           else success \<lparr>bs_storage = out, bs_capacity = capacity,
                  bs_truncated = (length bytes > unat capacity)\<rparr>))"

definition BoundedString_to_bytes :: "bounded_string \<Rightarrow> size_t \<Rightarrow> u8 list result" where
  "BoundedString_to_bytes t target_capacity =
     (if unat target_capacity < length (bs_storage t) + 1
      then failure (make_error EC_invalid_string
             ''target capacity cannot hold the string plus a NUL terminator''
             ''BoundedString::to_bytes'' 0 target_capacity)
      else success (bs_storage t @ [0]))"

definition read_string ::
  "'b backend_ops \<Rightarrow> 'b session \<Rightarrow> address \<Rightarrow> size_t \<Rightarrow> bool
     \<Rightarrow> bounded_string result \<times> 'b session" where
  "read_string ops s a capacity require_nul_terminator =
     (if capacity = 0
      then (failure (make_error EC_invalid_string ''string capacity must be non-zero''
              ''MemorySession::read_string'' a 0), s)
      else (case read_bytes ops s a capacity of
              (Inl e, s') \<Rightarrow> (failure e, s')
            | (Inr bytes, s') \<Rightarrow>
                (BoundedString_from_utf8 bytes capacity require_nul_terminator, s')))"

definition write_string ::
  "'b backend_ops \<Rightarrow> 'b session \<Rightarrow> address \<Rightarrow> bounded_string \<Rightarrow> size_t
     \<Rightarrow> size_t result \<times> 'b session" where
  "write_string ops s a t target_capacity =
     (case BoundedString_to_bytes t target_capacity of
        Inl e \<Rightarrow> (failure e, s)
      | Inr bytes \<Rightarrow> write_bytes ops s a bytes)"

section \<open>Liveness of the target\<close>

definition session_is_alive :: "'b backend_ops \<Rightarrow> 'b option \<Rightarrow> bool" where
  "session_is_alive ops bo = (case bo of None \<Rightarrow> False | Some b \<Rightarrow> be_is_alive ops b)"

definition session_target_id :: "'b backend_ops \<Rightarrow> 'b option \<Rightarrow> string" where
  "session_target_id ops bo = (case bo of None \<Rightarrow> [] | Some b \<Rightarrow> be_target_id ops b)"

section \<open>Lemmas: what the operations do to a lawful memory\<close>

text \<open>The integer types the library reads and writes: 1, 2, 4 or 8 bytes.\<close>

definition integer_width :: "'a::len itself \<Rightarrow> bool" where
  "integer_width t \<longleftrightarrow> LENGTH('a) \<in> {8, 16, 32, 64}"

lemma integer_width_simps [simp]:
  "integer_width TYPE(8)" "integer_width TYPE(16)" "integer_width TYPE(32)" "integer_width TYPE(64)"
  by (simp_all add: integer_width_def)

lemma integer_width_facts:
  assumes "integer_width TYPE('a::len)"
  shows "8 dvd LENGTH('a)" "0 < LENGTH('a) div 8" "LENGTH('a) div 8 \<le> 8"
    "unat (of_nat (LENGTH('a) div 8) :: u64) = LENGTH('a) div 8"
  using assms by (auto simp: integer_width_def)

text \<open>The integer stored at an address, if its bytes are mapped.\<close>

definition mem_word :: "mem \<Rightarrow> address \<Rightarrow> 'a::len word option" where
  "mem_word m a = map_option word_of_bytes (mem_slice m a (LENGTH('a) div 8))"

lemma mem_word_store:
  assumes "integer_width TYPE('a::len)"
  shows "mem_word (mem_store m a (bytes_of_word v)) a = Some (v :: 'a word)"
  using mem_slice_store [of "bytes_of_word v" m a] integer_width_facts [OF assms]
  by (simp add: mem_word_def word_of_bytes_of_word)

lemma mem_word_bytes:
  "mem_word m a = Some (v :: 'a::len word) \<longleftrightarrow>
     (\<exists>bs. mem_slice m a (LENGTH('a) div 8) = Some bs \<and> word_of_bytes bs = v)"
  by (auto simp: mem_word_def)

text \<open>The pointer chain as a walk over memory: the specification of \<open>resolve_pointer_chain\<close>.\<close>

fun chain_target :: "mem \<Rightarrow> address \<Rightarrow> address list \<Rightarrow> address option" where
  "chain_target m cur [] = Some cur"
| "chain_target m cur (off # offs) =
     (if valid_request (cur + off) 8 then
        (case mem_word m (cur + off) of
           None \<Rightarrow> None
         | Some v \<Rightarrow> if v = 0 then None else chain_target m v offs)
      else None)"

context memory_backend
begin

abbreviation smem :: "'b session \<Rightarrow> mem" where
  "smem s \<equiv> mem_of (ses_backend s)"

lemma be_read_mem:
  "be_read ops b a n = (r, b') \<Longrightarrow> mem_of b' = mem_of b"
  using read_keeps [of b a n] by simp

lemma read_bytes_mem [simp]: "smem (snd (read_bytes ops s a n)) = smem s"
  by (auto simp: read_bytes_def Let_def be_read_mem
      split: sum.splits outcome.splits prod.splits)

lemma read_bytes_identity [simp]:
  "ses_identity (snd (read_bytes ops s a n)) = ses_identity s"
  by (auto simp: read_bytes_def Let_def split: sum.splits outcome.splits prod.splits)

lemma read_bytes_ok_iff:
  "fst (read_bytes ops s a n) = Inr bs \<longleftrightarrow>
     valid_request a (unat n) \<and> mem_slice (smem s) a (unat n) = Some bs"
proof (cases a n rule: validate_read_cases)
  case ok
  obtain r b where rb: "be_read ops (ses_backend s) a n = (r, b)" by fastforce
  then have full: "\<And>bs. r = Returned (Inr bs) \<Longrightarrow> length bs = unat n \<Longrightarrow>
      mem_slice (smem s) a (unat n) = Some bs"
    using read_full [of "ses_backend s" a n] by simp
  have mapped: "\<And>bs. mem_slice (smem s) a (unat n) = Some bs \<Longrightarrow> r = Returned (Inr bs)"
    using read_mapped [OF ok(2)] rb by (metis fst_conv)
  have "fst (read_bytes ops s a n) = Inr bs \<longleftrightarrow> r = Returned (Inr bs) \<and> length bs = unat n"
    by (auto simp: read_bytes_def Let_def ok rb split: outcome.splits sum.splits)
  then show ?thesis
    using full mapped mem_slice_length ok(2) by blast
next
  case (bad e)
  then show ?thesis by (simp add: read_bytes_def Let_def)
qed

lemma session_read_mem [simp]:
  "smem (snd (session_read ops s a :: ('a::len word) result \<times> 'b session)) = smem s"
  by (auto simp: session_read_def Let_def be_read_mem
      split: sum.splits outcome.splits prod.splits)

lemma session_read_ok_iff:
  assumes w: "integer_width TYPE('a::len)"
  shows "fst (session_read ops s a) = Inr (v :: 'a word) \<longleftrightarrow>
     valid_request a (LENGTH('a) div 8) \<and> mem_word (smem s) a = Some v"
proof -
  let ?n = "of_nat (LENGTH('a) div 8) :: u64"
  have n: "unat ?n = LENGTH('a) div 8" by (rule integer_width_facts [OF w])
  show ?thesis
  proof (cases a ?n rule: validate_read_cases)
    case ok
    obtain r b where rb: "be_read ops (ses_backend s) a ?n = (r, b)" by fastforce
    then have full: "\<And>bs. r = Returned (Inr bs) \<Longrightarrow> length bs = LENGTH('a) div 8 \<Longrightarrow>
        mem_slice (smem s) a (LENGTH('a) div 8) = Some bs"
      using read_full [of "ses_backend s" a ?n] by (simp add: n)
    have mapped: "\<And>bs. mem_slice (smem s) a (LENGTH('a) div 8) = Some bs \<Longrightarrow> r = Returned (Inr bs)"
      using read_mapped [OF ok(2)] rb n by (metis fst_conv)
    have "fst (session_read ops s a) = Inr v \<longleftrightarrow>
        (\<exists>bs. r = Returned (Inr bs) \<and> length bs = LENGTH('a) div 8 \<and> word_of_bytes bs = v)"
      using ok(1) rb by (auto simp: session_read_def Let_def split: outcome.splits sum.splits)
    then show ?thesis
      using full mapped mem_slice_length ok(2) n unfolding mem_word_bytes by metis
  next
    case (bad e)
    then show ?thesis by (auto simp: session_read_def Let_def n)
  qed
qed

lemma session_read_cases:
  fixes s :: "'b session" and a :: address
  assumes "integer_width TYPE('a::len)"
  obtains (ok) v s' where "session_read ops s a = (Inr (v :: 'a word), s')"
      "valid_request a (LENGTH('a) div 8)" "mem_word (smem s) a = Some v" "smem s' = smem s"
  | (bad) e s' where "(session_read ops s a :: 'a word result \<times> 'b session) = (Inl e, s')"
      "\<not> valid_request a (LENGTH('a) div 8) \<or> mem_word (smem s) a = (None :: 'a word option)"
      "smem s' = smem s"
proof -
  obtain r s' where rs: "(session_read ops s a :: 'a word result \<times> 'b session) = (r, s')"
    by fastforce
  have m: "smem s' = smem s" using session_read_mem [of s a, where ?'a = 'a] rs by simp
  show ?thesis
  proof (cases r)
    case (Inr v)
    then show ?thesis using ok rs m session_read_ok_iff [OF assms, of s a v] by simp
  next
    case (Inl e)
    then have "\<And>v. \<not> (valid_request a (LENGTH('a) div 8) \<and> mem_word (smem s) a = Some (v :: 'a word))"
      using rs session_read_ok_iff [OF assms, of s a] by (metis Inl_Inr_False fst_conv)
    then show ?thesis using bad rs m Inl by fastforce
  qed
qed

lemma resolve_steps_spec:
  "smem (snd (resolve_steps ops s step cur offs)) = smem s"
  "fst (resolve_steps ops s step cur offs) = Inr p \<longleftrightarrow> chain_target (smem s) cur offs = Some p"
proof (induction offs arbitrary: s step cur)
  case Nil
  { case 1 show ?case by simp }
  { case 2 show ?case by simp }
next
  case (Cons off offs)
  have w: "integer_width TYPE(64)" by simp
  { case 1 show ?case
      by (rule session_read_cases [OF w, of s "cur + off"]) (simp_all add: Cons.IH Let_def) }
  { case 2 show ?case
      by (rule session_read_cases [OF w, of s "cur + off"]) (auto simp: Cons.IH Let_def) }
qed

lemma write_bytes_outside:
  assumes "length bs < 2 ^ 64" and "x \<notin> addr_range a (length bs)"
  shows "smem (snd (write_bytes ops s a bs)) x = smem s x"
proof -
  obtain r b where rb: "be_write ops (ses_backend s) a bs = (r, b)" by fastforce
  then have "mem_of b x = smem s x"
    using write_outside [OF assms, of "ses_backend s"] by simp
  then show ?thesis
    by (auto simp: write_bytes_def Let_def rb split: sum.splits outcome.splits)
qed

end

context writable_backend
begin

lemma write_bytes_ok:
  assumes v: "valid_request a (length bs)"
  shows "fst (write_bytes ops s a bs) = Inr (of_nat (length bs))"
    "smem (snd (write_bytes ops s a bs)) = mem_store (smem s) a bs"
    "ses_log (snd (write_bytes ops s a bs)) = ses_log s"
proof -
  have n: "unat (of_nat (length bs) :: u64) = length bs"
    using v by (intro unat_of_nat_u64) (simp add: valid_request_def)
  have val: "validate_write_request a (of_nat (length bs)) = Inr (of_nat (length bs))"
    using v n by (simp add: validate_write_iff)
  obtain r b where rb: "be_write ops (ses_backend s) a bs = (r, b)" by fastforce
  have r: "r = Returned (Inr (of_nat (length bs)))"
    using write_accepted [OF v, of "ses_backend s"] rb by simp
  have b: "mem_of b = mem_store (smem s) a bs"
    using write_effect [OF v, of "ses_backend s"] rb by simp
  show "fst (write_bytes ops s a bs) = Inr (of_nat (length bs))"
    "smem (snd (write_bytes ops s a bs)) = mem_store (smem s) a bs"
    "ses_log (snd (write_bytes ops s a bs)) = ses_log s"
    using b by (simp_all add: write_bytes_def Let_def val rb r)
qed

lemma write_bytes_rejected:
  assumes "\<not> valid_request a (length bs)" and "length bs < 2 ^ 64"
  shows "\<exists>e. fst (write_bytes ops s a bs) = Inl e"
    "ses_backend (snd (write_bytes ops s a bs)) = ses_backend s"
proof -
  have "unat (of_nat (length bs) :: u64) = length bs"
    using assms(2) by (rule unat_of_nat_u64)
  with assms(1) obtain e where "validate_write_request a (of_nat (length bs)) = Inl e"
    by (cases a "of_nat (length bs) :: u64" rule: validate_write_cases) auto
  then show "\<exists>e. fst (write_bytes ops s a bs) = Inl e"
    "ses_backend (snd (write_bytes ops s a bs)) = ses_backend s"
    by (simp_all add: write_bytes_def Let_def)
qed

lemma session_write_ok:
  assumes w: "integer_width TYPE('a::len)" and v: "valid_request a (LENGTH('a) div 8)"
  shows "fst (session_write ops s a (x :: 'a word)) = Inr (of_nat (LENGTH('a) div 8))"
    "smem (snd (session_write ops s a x)) = mem_store (smem s) a (bytes_of_word x)"
proof -
  have "validate_write_request a (of_nat (LENGTH('a) div 8)) = Inr (of_nat (LENGTH('a) div 8))"
    using v integer_width_facts(4) [OF w] by (simp add: validate_write_iff)
  then have eq: "session_write ops s a x =
      (case write_bytes ops s a (bytes_of_word x) of
         (Inl e, s') \<Rightarrow> (Inl e, add_log s' (log_warn ''MemorySession::write'' ''write_bytes failed''
            (err_code e) a (of_nat (LENGTH('a) div 8))))
       | (Inr k, s') \<Rightarrow> (Inr k, s'))"
    by (simp add: session_write_def Let_def)
  have len: "valid_request a (length (bytes_of_word x))" using v by simp
  obtain s' where s': "write_bytes ops s a (bytes_of_word x) = (Inr (of_nat (LENGTH('a) div 8)), s')"
    "smem s' = mem_store (smem s) a (bytes_of_word x)"
    using write_bytes_ok [OF len, of s] by (metis length_bytes_of_word prod.collapse)
  show "fst (session_write ops s a x) = Inr (of_nat (LENGTH('a) div 8))"
    "smem (snd (session_write ops s a x)) = mem_store (smem s) a (bytes_of_word x)"
    using s' by (simp_all add: eq)
qed

lemma session_write_rejected:
  assumes w: "integer_width TYPE('a::len)" and v: "\<not> valid_request a (LENGTH('a) div 8)"
  shows "\<exists>e. fst (session_write ops s a (x :: 'a word)) = Inl e"
    "ses_backend (snd (session_write ops s a x)) = ses_backend s"
proof -
  obtain e where "validate_write_request a (of_nat (LENGTH('a) div 8)) = Inl e"
    using v integer_width_facts(4) [OF w]
    by (cases a "of_nat (LENGTH('a) div 8) :: u64" rule: validate_write_cases) auto
  then show "\<exists>e. fst (session_write ops s a x) = Inl e"
    "ses_backend (snd (session_write ops s a x)) = ses_backend s"
    by (simp_all add: session_write_def Let_def)
qed

end

end
