(* ===== verification/Sim_Backend.thy ===== *)
theory Sim_Backend
  imports Memory_Session
begin

text \<open>
  \<open>SimulatedGameBackend\<close> of \<open>tools/gt_trainer_cli.cpp\<close>: the in-memory backend the
  trainer runs on when no game is attached. Its \<open>std::map\<close> of bytes is a partial map.
  It is the backend of this repository that is written without operating-system calls, so
  it is the model on which the backend contracts are discharged.
\<close>

record sim_backend =
  sim_is_64bit :: bool
  sim_memory :: mem

definition put_u32 :: "mem \<Rightarrow> address \<Rightarrow> u32 \<Rightarrow> mem" where
  "put_u32 m a v = mem_store m a (bytes_of_word v)"

definition put_u64 :: "mem \<Rightarrow> address \<Rightarrow> u64 \<Rightarrow> mem" where
  "put_u64 m a v = mem_store m a (bytes_of_word v)"

text \<open>A \<open>float\<close> is stored as its IEEE-754 single-precision bit pattern.\<close>

definition put_float :: "mem \<Rightarrow> address \<Rightarrow> u32 \<Rightarrow> mem" where
  "put_float m a bits = mem_store m a (bytes_of_word bits)"

definition float_4_5 :: u32 where "float_4_5 = 0x40900000"
definition float_10 :: u32 where "float_10 = 0x41200000"
definition float_20 :: u32 where "float_20 = 0x41A00000"
definition float_90 :: u32 where "float_90 = 0x42B40000"

text \<open>The constructor's two layouts, in the order of its statements.\<close>

definition sim_windows_layout :: "mem \<Rightarrow> mem" where
  "sim_windows_layout m0 =
     (let win_base = 0x400000; win_player_ptr = win_base + 0x17E0A8; win_player = 0x500000;
          m = put_u32 m0 win_player_ptr (ucast win_player);
          m = put_u32 m (win_player + 0xEC) 100;
          m = put_u32 m (win_player + 0xF0) 50;
          m = put_u32 m (win_player + 0xFC) 6;
          m = fold (\<lambda>i m. put_u32 m (win_player + 0x104 + of_nat i * 4) 60) [0..<9] m;
          m = fold (\<lambda>i m. put_u32 m (win_player + 0x128 + of_nat i * 4) 20) [0..<9] m;
          m = put_u32 m (win_player + 0x140) 20;
          m = put_float m (win_player + 0x2C) float_10;
          m = put_float m (win_player + 0x28) float_20;
          m = put_float m (win_player + 0x30) float_4_5;
          win_weapon = 0x600000; win_clip = 0x700000;
          m = put_u32 m (win_player + 0x368) (ucast (win_weapon :: u64));
          m = put_u32 m (win_weapon + 0x14) (ucast (win_clip :: u64));
          m = put_u32 m (win_clip + 0x0) 30
      in m)"

definition sim_mac_layout :: "mem \<Rightarrow> mem" where
  "sim_mac_layout m0 =
     (let mac_base = 0x100000000; mac_player_ptr = mac_base + 0x1CBD38;
          mac_player = 0x100500000;
          m = put_u64 m0 mac_player_ptr mac_player;
          m = put_u32 m (mac_player + 0x100) 100;
          m = put_u32 m (mac_player + 0x104) 50;
          m = put_u32 m (mac_player + 0x108) 6;
          m = fold (\<lambda>i m. put_u32 m (mac_player + 0x118 + of_nat i * 4) 60) [0..<9] m;
          m = put_u32 m (mac_player + 0x118 + 1 * 4) 50;
          m = put_u32 m (mac_player + 0x13c + 0 * 4) 1;
          m = put_u32 m (mac_player + 0x13c + 1 * 4) 10;
          m = put_u32 m (mac_player + 0x13c + 2 * 4) 30;
          m = put_u32 m (mac_player + 0x13c + 3 * 4) 8;
          m = put_u32 m (mac_player + 0x13c + 4 * 4) 30;
          m = put_u32 m (mac_player + 0x13c + 5 * 4) 5;
          m = put_u32 m (mac_player + 0x13c + 6 * 4) 20;
          m = put_u32 m (mac_player + 0x13c + 7 * 4) 1;
          m = put_u32 m (mac_player + 0x13c + 8 * 4) 20;
          m = put_float m (mac_player + 0x8) float_10;
          m = put_float m (mac_player + 0xC) float_20;
          m = put_float m (mac_player + 0x10) float_4_5;
          m = put_float m (mac_player + 0x38) float_90;
          m = put_float m (mac_player + 0x3C) 0
      in m)"

definition SimulatedGameBackend_new :: "bool \<Rightarrow> sim_backend" where
  "SimulatedGameBackend_new is_64bit =
     \<lparr>sim_is_64bit = is_64bit,
      sim_memory = sim_mac_layout (sim_windows_layout (\<lambda>_. None))\<rparr>"

text \<open>The read loop stops at the first unmapped address.\<close>

definition sim_read :: "sim_backend \<Rightarrow> address \<Rightarrow> size_t \<Rightarrow> u8 list result outcome \<times> sim_backend" where
  "sim_read b a n =
     (case validate_read_request a n of
        Inl e \<Rightarrow> (Returned (failure e), b)
      | Inr _ \<Rightarrow>
          (case mem_slice (sim_memory b) a (unat n) of
             None \<Rightarrow> (Returned (failure (make_error EC_read_failed
                        ''address unmapped in simulated space'' ''SimulatedGameBackend.read'' a n)), b)
           | Some bytes \<Rightarrow> (Returned (success bytes), b)))"

definition sim_write :: "sim_backend \<Rightarrow> address \<Rightarrow> u8 list \<Rightarrow> size_t result outcome \<times> sim_backend" where
  "sim_write b a bytes =
     (case validate_write_request a (of_nat (length bytes)) of
        Inl e \<Rightarrow> (Returned (failure e), b)
      | Inr _ \<Rightarrow> (Returned (success (of_nat (length bytes))),
                 b\<lparr>sim_memory := mem_store (sim_memory b) a bytes\<rparr>))"

definition sim_is_alive :: "sim_backend \<Rightarrow> bool" where
  "sim_is_alive b = True"

definition sim_target_id :: "sim_backend \<Rightarrow> string" where
  "sim_target_id b =
     (if sim_is_64bit b then ''simulated:assaultcube:1337'' else ''simulated:ac_client:1337'')"

definition sim_identity :: "sim_backend \<Rightarrow> target_identity" where
  "sim_identity b = default_identity
     \<lparr>ti_pid := 1337,
      ti_image_path := (if sim_is_64bit b then ''assaultcube'' else ''ac_client.exe''),
      ti_architecture := (if sim_is_64bit b then Arch_x64 else Arch_x86)\<rparr>"

definition sim_ops :: "sim_backend backend_ops" where
  "sim_ops = \<lparr>be_read = sim_read, be_write = sim_write, be_is_alive = sim_is_alive,
     be_target_id = sim_target_id, be_identity = sim_identity\<rparr>"

lemma sim_ops_sel [simp]:
  "be_read sim_ops = sim_read" "be_write sim_ops = sim_write"
  "be_is_alive sim_ops = sim_is_alive" "be_target_id sim_ops = sim_target_id"
  "be_identity sim_ops = sim_identity"
  by (simp_all add: sim_ops_def)

text \<open>
  The write law is stated for vectors shorter than \<open>2^64\<close> bytes, which every
  \<open>std::vector\<close> is; the length of a longer list would wrap in \<open>bytes.size()\<close>.
\<close>

lemma sim_read_keeps: "snd (sim_read b a n) = b"
  by (simp add: sim_read_def split: sum.splits option.splits)

lemma sim_read_result:
  "fst (sim_read b a n) = Returned (Inr bs) \<longleftrightarrow>
     valid_request a (unat n) \<and> mem_slice (sim_memory b) a (unat n) = Some bs"
  by (cases a n rule: validate_read_cases) (auto simp: sim_read_def split: option.splits)

lemma sim_write_valid:
  assumes "valid_request a (length bs)"
  shows "sim_write b a bs = (Returned (Inr (of_nat (length bs))),
           b\<lparr>sim_memory := mem_store (sim_memory b) a bs\<rparr>)"
proof -
  have "unat (of_nat (length bs) :: u64) = length bs"
    using assms by (intro unat_of_nat_u64) (simp add: valid_request_def)
  then have "validate_write_request a (of_nat (length bs)) = Inr (of_nat (length bs))"
    using assms by (simp add: validate_write_iff)
  then show ?thesis by (simp add: sim_write_def)
qed

lemma sim_write_cases:
  obtains (stored) "sim_write b a bs = (Returned (Inr (of_nat (length bs))),
             b\<lparr>sim_memory := mem_store (sim_memory b) a bs\<rparr>)"
  | (refused) e where "sim_write b a bs = (Returned (Inl e), b)"
  by (cases "validate_write_request a (of_nat (length bs))") (simp_all add: sim_write_def)

interpretation sim: writable_backend sim_ops sim_memory
proof unfold_locales
  fix b :: sim_backend and a :: address and n :: size_t and bs :: "u8 list"
  show "sim_memory (snd (be_read sim_ops b a n)) = sim_memory b"
    by (simp add: sim_read_keeps)
  show "fst (be_read sim_ops b a n) = Returned (Inr bs) \<Longrightarrow> length bs = unat n \<Longrightarrow>
      mem_slice (sim_memory b) a (unat n) = Some bs"
    by (simp add: sim_read_result)
  show "valid_request a (unat n) \<Longrightarrow> mem_slice (sim_memory b) a (unat n) = Some bs \<Longrightarrow>
      fst (be_read sim_ops b a n) = Returned (Inr bs)"
    by (simp add: sim_read_result)
  show "length bs < 2 ^ 64 \<Longrightarrow> fst (be_write sim_ops b a bs) = Returned (Inr n) \<Longrightarrow>
      sim_memory (snd (be_write sim_ops b a bs)) = mem_store (sim_memory b) a (take (unat n) bs)"
    by (rule sim_write_cases [of b a bs]) (auto simp: unat_of_nat_u64)
  show "\<forall>n. fst (be_write sim_ops b a bs) \<noteq> Returned (Inr n) \<Longrightarrow>
      sim_memory (snd (be_write sim_ops b a bs)) = sim_memory b"
    by (rule sim_write_cases [of b a bs]) auto
  show "valid_request a (length bs) \<Longrightarrow>
      fst (be_write sim_ops b a bs) = Returned (Inr (of_nat (length bs)))"
    by (simp add: sim_write_valid)
qed

end
