(* ===== verification/Session_Properties.thy ===== *)
theory Session_Properties
  imports Sim_Backend
begin

text \<open>
  The correctness properties of \<open>MemorySession\<close>. A property of the memory a session
  reads and writes holds for every backend that satisfies the contract
  \<open>memory_backend\<close> (or \<open>writable_backend\<close>); its witness is the simulated backend.
\<close>

section \<open>Batches\<close>

text \<open>
  What a batch reports after processing the offsets from the left: the targets up to the
  first failure, and, when it fails, every target tried appended to the list it started with.
\<close>

definition batch_report ::
  "address \<Rightarrow> address list \<Rightarrow> address list \<Rightarrow> address list \<Rightarrow> batch_result \<Rightarrow> bool" where
  "batch_report base completed attempted offs r \<longleftrightarrow>
     (\<exists>k \<le> length offs.
        br_completed_addresses r = completed @ map (\<lambda>o1. base + o1) (take k offs)
        \<and> (br_complete r \<longleftrightarrow> k = length offs)
        \<and> (br_complete r \<longrightarrow> br_attempted_addresses r = [] \<and> br_failure r = None)
        \<and> (\<not> br_complete r \<longrightarrow> br_failure r \<noteq> None \<and>
             br_attempted_addresses r = attempted @ map (\<lambda>o1. base + o1) (take (Suc k) offs)))"

lemma batch_report_full: "batch_report base completed attempted [] (BatchResult_ok_full completed)"
  by (simp add: batch_report_def BatchResult_ok_full_def)

lemma batch_report_partial:
  "batch_report base completed attempted (off # offs)
     (BatchResult_partial completed (attempted @ [base + off]) e)"
  unfolding batch_report_def BatchResult_partial_def by (rule exI [of _ 0]) simp

lemma batch_report_step:
  assumes "batch_report base (completed @ [base + off]) (attempted @ [base + off]) offs r"
  shows "batch_report base completed attempted (off # offs) r"
proof -
  from assms obtain k where "k \<le> length offs"
    "br_completed_addresses r = (completed @ [base + off]) @ map (\<lambda>o1. base + o1) (take k offs)"
    "br_complete r \<longleftrightarrow> k = length offs"
    "br_complete r \<longrightarrow> br_attempted_addresses r = [] \<and> br_failure r = None"
    "\<not> br_complete r \<longrightarrow> br_failure r \<noteq> None \<and> br_attempted_addresses r
       = (attempted @ [base + off]) @ map (\<lambda>o1. base + o1) (take (Suc k) offs)"
    unfolding batch_report_def by blast
  then show ?thesis unfolding batch_report_def by (intro exI [of _ "Suc k"]) simp
qed

lemma write_offsets_loop_report:
  "batch_report base completed attempted offs
     (fst (write_offsets_loop ops s base v completed attempted offs))"
  by (induction offs arbitrary: s completed attempted)
    (auto simp: batch_report_full batch_report_partial intro: batch_report_step
      split: prod.splits sum.splits)

lemma read_offsets_loop_report:
  "batch_report base completed attempted offs
     (fst (read_offsets_loop ops s base n completed attempted offs))"
  by (induction offs arbitrary: s completed attempted)
    (auto simp: Let_def batch_report_full batch_report_partial intro: batch_report_step
      split: prod.splits sum.splits)

context writable_backend
begin

lemma write_offsets_loop_valid:
  assumes w: "integer_width TYPE('a::len)"
    and v: "\<forall>o1 \<in> set offs. valid_request (base + o1) (LENGTH('a) div 8)"
  shows "fst (write_offsets_loop ops s base (x :: 'a word) completed attempted offs)
           = BatchResult_ok_full (completed @ map (\<lambda>o1. base + o1) offs)
       \<and> smem (snd (write_offsets_loop ops s base x completed attempted offs))
           = fold (\<lambda>o1 m. mem_store m (base + o1) (bytes_of_word x)) offs (smem s)"
  using v
proof (induction offs arbitrary: s completed attempted)
  case (Cons off offs)
  obtain s' where s': "session_write ops s (base + off) x = (Inr (of_nat (LENGTH('a) div 8)), s')"
    "smem s' = mem_store (smem s) (base + off) (bytes_of_word x)"
    using session_write_ok [OF w, of "base + off" s x] Cons.prems
    by (metis list.set_intros(1) prod.collapse)
  show ?case using Cons.IH [of s'] Cons.prems s' by simp
qed simp

end

section \<open>Strings\<close>

lemma copy_until_nul_append:
  "0 \<notin> set xs \<Longrightarrow> copy_until_nul (xs @ 0 # ys) = (xs, True)"
  by (induction xs) auto

lemma copy_until_nul_no_nul: "0 \<notin> set xs \<Longrightarrow> copy_until_nul xs = (xs, False)"
  by (induction xs) auto

lemma copy_until_nul_set: "copy_until_nul xs = (out, f) \<Longrightarrow> 0 \<notin> set out \<and> length out \<le> length xs"
  by (induction xs arbitrary: out f) (fastforce split: if_splits prod.splits)+

section \<open>Properties\<close>


definition demo_session :: "sim_backend session" where
  "demo_session = open_session sim_ops
     \<lparr>sim_is_64bit = True, sim_memory = mem_store (\<lambda>_. None) 0x1000 [1, 2, 3, 4, 0, 0, 0, 0]\<rparr>"

lemma demo_memory: "sim_memory (ses_backend demo_session)
    = mem_store (\<lambda>_. None) 0x1000 [1, 2, 3, 4, 0, 0, 0, 0]"
  by (simp add: demo_session_def open_session_def)


text \<open>
  a typed read succeeds exactly when the request is valid and every byte is mapped, and
  then its value is the little-endian integer in memory; it never changes memory. So a
  failed read is never mistaken for a value, a stored zero included.
\<close>

theorem read_is_exact:
  assumes "memory_backend ops mem_of" and "integer_width TYPE('a::len)"
  shows "(fst (session_read ops s a) = Inr (v :: 'a word) \<longleftrightarrow>
            valid_request a (LENGTH('a) div 8)
            \<and> mem_slice (mem_of (ses_backend s)) a (LENGTH('a) div 8) = Some (bytes_of_word v))
       \<and> mem_of (ses_backend (snd (session_read ops s a :: 'a word result \<times> 'b session)))
           = mem_of (ses_backend s)"
proof -
  have "mem_word m a = Some v \<longleftrightarrow> mem_slice m a (LENGTH('a) div 8) = Some (bytes_of_word v)" for m
    unfolding mem_word_bytes
    using integer_width_facts(1) [OF assms(2)]
    by (metis bytes_of_word_of_bytes mem_slice_length word_of_bytes_of_word)
  then show ?thesis
    using memory_backend.session_read_ok_iff [OF assms, of s a v]
      memory_backend.session_read_mem [OF assms(1), of s a, where ?'a = 'a] by simp
qed

lemma demo_slice: "mem_slice (sim_memory (ses_backend demo_session)) 0x1000 8
    = Some [1, 2, 3, 4, 0, 0, 0, 0]"
proof -
  have len: "length [1, 2, 3, 4, 0, 0, 0, 0 :: u8] = 8" by simp
  show ?thesis unfolding demo_memory
    by (subst len [symmetric], rule mem_slice_store) simp
qed

theorem read_is_exact_witness:
  "fst (session_read sim_ops demo_session 0x1000) = Inr (0x04030201 :: u64)"
proof -
  have "bytes_of_word (0x04030201 :: u64) = [1, 2, 3, 4, 0, 0, 0, 0]"
    by (simp add: bytes_of_word_def upt_rec)
  then show ?thesis
    using read_is_exact [OF sim.memory_backend_axioms, where ?'a = 64 and a = "0x1000"
        and s = demo_session and v = "0x04030201"] demo_slice
    by (simp add: valid_request_def)
qed

text \<open>
  C33: \<open>resolve_pointer_chain\<close> computes the pointer walk: it succeeds with \<open>p\<close> exactly
  when the offset list is not empty and following it through memory (add the offset, read
  the 8-byte pointer, stop at an unmapped, invalid or null step) ends at \<open>p\<close>; it never
  writes.
\<close>

theorem pointer_chain_walk:
  assumes "memory_backend ops mem_of"
  shows "(fst (resolve_pointer_chain ops s base offsets) = Inr p \<longleftrightarrow>
            offsets \<noteq> [] \<and> chain_target (mem_of (ses_backend s)) base offsets = Some p)
       \<and> mem_of (ses_backend (snd (resolve_pointer_chain ops s base offsets)))
           = mem_of (ses_backend s)"
  using memory_backend.resolve_steps_spec [OF assms, of s 0 base offsets]
  by (simp add: resolve_pointer_chain_def)

theorem pointer_chain_walk_witness:
  "fst (resolve_pointer_chain sim_ops demo_session 0xFF0 [0x10]) = Inr 0x04030201"
proof -
  have "mem_word (sim_memory (ses_backend demo_session)) 0x1000 = Some (0x04030201 :: u64)"
    by (simp add: mem_word_def demo_slice)
  then show ?thesis
    using pointer_chain_walk [OF sim.memory_backend_axioms, of demo_session "0xFF0" "[0x10]" "0x04030201"]
    by (simp add: valid_request_def)
qed



text \<open>
  a batch write reports exactly what happened. The completed addresses are the targets
  before the first failure; the batch is complete exactly when all succeeded. On failure
  the attempted addresses are the caller's raw offsets followed by the targets tried, so
  the list names addresses that were never attempted.
\<close>

theorem write_offsets_report:
  "\<exists>r s'. write_offsets ops s base offsets v = (Inr r, s') \<and> batch_report base [] offsets offsets r"
proof -
  obtain r s' where "write_offsets_loop ops s base v [] offsets offsets = (r, s')" by fastforce
  moreover from this have "batch_report base [] offsets offsets r"
    using write_offsets_loop_report [of base "[]" offsets offsets ops s v] by simp
  ultimately show ?thesis by (simp add: write_offsets_def)
qed

text \<open>
  over a backend that accepts valid writes, a batch whose targets are all valid
  completes, lists every target in order, and its effect on memory is the writes of the
  value at the targets from left to right.
\<close>

theorem write_offsets_effect:
  assumes "writable_backend ops mem_of" and "integer_width TYPE('a::len)"
    and "\<forall>o1 \<in> set offsets. valid_request (base + o1) (LENGTH('a) div 8)"
  shows "\<exists>s'. write_offsets ops s base offsets (v :: 'a word)
            = (Inr (BatchResult_ok_full (map (\<lambda>o1. base + o1) offsets)), s')
       \<and> mem_of (ses_backend s') = fold (\<lambda>o1 m. mem_store m (base + o1) (bytes_of_word v)) offsets
           (mem_of (ses_backend s))"
proof -
  obtain r s' where rs: "write_offsets_loop ops s base v [] offsets offsets = (r, s')" by fastforce
  then show ?thesis
    using writable_backend.write_offsets_loop_valid [OF assms, of s v "[]" offsets]
    by (simp add: write_offsets_def)
qed

theorem write_offsets_effect_witness:
  "\<exists>s'. write_offsets sim_ops demo_session 0x3000 [0, 4, 8] (99 :: u32)
     = (Inr (BatchResult_ok_full [0x3000, 0x3004, 0x3008]), s')"
  using write_offsets_effect [OF sim.writable_backend_axioms, where ?'a = 32 and base = "0x3000"
      and offsets = "[0, 4, 8]" and s = demo_session and v = 99]
  by (auto simp: valid_request_def)

text \<open>
  a bounded string written with room for its terminator is read back unchanged, with
  the terminator required, at any capacity that covers it.
\<close>

theorem string_roundtrip:
  assumes "writable_backend ops mem_of"
    and "0 \<notin> set (bs_storage t)" and "length (bs_storage t) < unat target"
    and "valid_request a (length (bs_storage t) + 1)"
    and "write_string ops s a t target = (r, s1)"
  shows "r = Inr (of_nat (length (bs_storage t) + 1))
    \<and> fst (read_string ops s1 a (of_nat (length (bs_storage t) + 1)) True)
        = Inr \<lparr>bs_storage = bs_storage t, bs_capacity = of_nat (length (bs_storage t) + 1),
               bs_truncated = False\<rparr>"
proof -
  let ?bs = "bs_storage t @ [0]" and ?n = "length (bs_storage t) + 1"
  have tb: "BoundedString_to_bytes t target = Inr ?bs"
    using assms(3) by (simp add: BoundedString_to_bytes_def)
  have v: "valid_request a (length ?bs)" using assms(4) by simp
  note W = writable_backend.write_bytes_ok [OF assms(1) v, of s]
  have len: "?n < 2 ^ 64" using assms(4) by (simp add: valid_request_def)
  then have un: "unat (of_nat ?n :: u64) = ?n" by (rule unat_of_nat_u64)
  then have nz: "(of_nat ?n :: u64) \<noteq> 0" by (metis add_is_0 one_neq_zero unat_0)
  have r: "write_bytes ops s a ?bs = (r, s1)" using assms(5) tb by (simp add: write_string_def)
  have "mem_slice (mem_of (ses_backend s1)) a ?n = Some ?bs"
    using W(2) r mem_slice_store [of ?bs "mem_of (ses_backend s)" a] len by simp
  then have "fst (read_bytes ops s1 a (of_nat ?n)) = Inr ?bs"
    using memory_backend.read_bytes_ok_iff [OF writable_backend.axioms(1) [OF assms(1)],
        of s1 a "of_nat ?n" ?bs] un assms(4) by simp
  then obtain s2 where "read_bytes ops s1 a (of_nat ?n) = (Inr ?bs, s2)"
    by (metis prod.collapse)
  then have "fst (read_string ops s1 a (of_nat ?n) True)
      = Inr \<lparr>bs_storage = bs_storage t, bs_capacity = of_nat ?n, bs_truncated = False\<rparr>"
    using un nz copy_until_nul_append [OF assms(2), of "[]"]
    by (simp add: read_string_def BoundedString_from_utf8_def Let_def del: of_nat_add)
  then show ?thesis using W(1) r by simp
qed

theorem string_roundtrip_witness:
  "fst (read_string sim_ops
     (snd (write_string sim_ops demo_session 0x5000
        \<lparr>bs_storage = [72, 105], bs_capacity = 8, bs_truncated = False\<rparr> 8)) 0x5000 3 True)
   = Inr \<lparr>bs_storage = [72, 105], bs_capacity = 3, bs_truncated = False\<rparr>"
  using string_roundtrip [OF sim.writable_backend_axioms,
      where t = "\<lparr>bs_storage = [72, 105], bs_capacity = 8, bs_truncated = False\<rparr>"
      and target = 8 and a = "0x5000" and s = demo_session, OF _ _ _ prod.collapse [symmetric]]
  by (simp add: valid_request_def)

text \<open>
  an accepted string fits its declared capacity, holds no NUL, and is accepted under
  \<open>require_nul_terminator\<close> only when a NUL occurs within the capacity.
\<close>

theorem bounded_string_bounds:
  assumes "BoundedString_from_utf8 bytes capacity req = Inr t"
  shows "length (bs_storage t) \<le> unat capacity \<and> 0 \<notin> set (bs_storage t)
    \<and> bs_capacity t = capacity \<and> (bs_truncated t \<longleftrightarrow> unat capacity < length bytes)
    \<and> (req \<longrightarrow> 0 \<in> set (take (unat capacity) bytes))"
proof -
  let ?u = "if length bytes < unat capacity then length bytes else unat capacity"
  have tk: "take ?u bytes = take (unat capacity) bytes" by simp
  obtain out f where c: "copy_until_nul (take (unat capacity) bytes) = (out, f)" by fastforce
  have t: "t = \<lparr>bs_storage = out, bs_capacity = capacity,
      bs_truncated = (length bytes > unat capacity)\<rparr>" and f: "req \<longrightarrow> f"
    using assms by (auto simp: BoundedString_from_utf8_def Let_def tk c split: if_splits)
  have "f \<longrightarrow> 0 \<in> set (take (unat capacity) bytes)"
    using c copy_until_nul_no_nul [of "take (unat capacity) bytes"] by auto
  then show ?thesis using copy_until_nul_set [OF c] t f by auto
qed

theorem bounded_string_bounds_witness:
  "bs_storage (the (result_value (BoundedString_from_utf8 [65, 66, 0, 67] 4 True))) = [65, 66]
   \<and> 0 \<in> set (take (unat (4 :: size_t)) [65, 66, 0, 67 :: u8])"
  using bounded_string_bounds [of "[65, 66, 0, 67]" 4 True
      "\<lparr>bs_storage = [65, 66], bs_capacity = 4, bs_truncated = False\<rparr>"]
  by (simp add: BoundedString_from_utf8_def Let_def result_value_def)

text \<open>
  no backend misbehaviour escapes a raw read. An invalid request is refused before the
  backend is called and logged as a warning; an exception of the backend becomes an
  \<open>internal\<close> error carrying its text, logged as an error; a short read becomes
  \<open>partial_read\<close> with the number of bytes that arrived.
\<close>

theorem read_bytes_errors:
  "(\<not> valid_request a (unat n) \<longrightarrow>
      (\<exists>e. read_bytes ops s a n = (Inl e, add_log s (log_warn ''MemorySession::read_bytes''
             ''validation failed'' (err_code e) a n)) \<and> err_address e = a))
   \<and> (valid_request a (unat n) \<and> be_read ops (ses_backend s) a n = (Threw w, b) \<longrightarrow>
      read_bytes ops s a n =
        (Inl (make_error EC_internal w ''MemorySession::read_bytes'' a n),
         add_log (with_backend s b) (log_error ''MemorySession::read_bytes'' w EC_internal a n)))
   \<and> (valid_request a (unat n) \<and> be_read ops (ses_backend s) a n = (Returned (Inr bs), b)
        \<and> length bs \<noteq> unat n \<longrightarrow>
      read_bytes ops s a n =
        (Inl (make_error EC_partial_read ''read returned fewer bytes than requested''
           ''MemorySession::read_bytes'' a (of_nat (length bs))), with_backend s b))"
  by (cases a n rule: validate_read_cases)
    (auto simp: read_bytes_def Let_def dest: validate_read_error)

theorem read_bytes_errors_witness:
  "\<exists>e. read_bytes sim_ops demo_session 0x1000 0 = (Inl e,
     add_log demo_session (log_warn ''MemorySession::read_bytes'' ''validation failed'' (err_code e) 0x1000 0))"
  using read_bytes_errors [of "0x1000" 0 sim_ops demo_session] by (auto simp: valid_request_def)

end
