(* ===== verification/Aob_Scan.thy ===== *)
theory Aob_Scan
  imports Sim_Backend
begin

text \<open>
  \<open>include/gtlibcpp/aob_scan.hpp\<close>: the byte-pattern parser and the chunked scanner. The
  parser's position in the text is the suffix still to read; a pattern element is a byte
  value or \<open>-1\<close> for a wildcard. Offsets and sizes inside the scanner are naturals: the
  guards bound them by 16 MiB, so no \<open>size_t\<close> arithmetic of the source can wrap.
\<close>

section \<open>Patterns\<close>

definition nibble :: "char \<Rightarrow> int" where
  "nibble c = (let n = code_of c in
     if 48 \<le> n \<and> n \<le> 57 then int n - 48
     else if 97 \<le> n \<and> n \<le> 102 then int n - 97 + 10
     else if 65 \<le> n \<and> n \<le> 70 then int n - 65 + 10
     else -1)"

definition is_blank :: "char \<Rightarrow> bool" where
  "is_blank c \<longleftrightarrow> c = CHR '' ''"

lemma is_blank_space: "is_blank CHR '' ''"
  by (simp add: is_blank_def)

definition ends_token :: "string \<Rightarrow> bool" where
  "ends_token t \<longleftrightarrow> (case t of [] \<Rightarrow> True | c # _ \<Rightarrow> is_blank c)"

text \<open>One token of the text: its value and the rest, or \<open>None\<close> for \<open>return false\<close>.\<close>

definition aob_token :: "string \<Rightarrow> (int \<times> string) option" where
  "aob_token t =
     (case t of
        [] \<Rightarrow> None
      | c # r \<Rightarrow>
          (if c = CHR ''?'' then
             (let r' = (case r of [] \<Rightarrow> r | d # r'' \<Rightarrow> if d = CHR ''?'' then r'' else r)
              in if ends_token r' then Some (-1, r') else None)
           else (case r of
                   [] \<Rightarrow> None
                 | d # r' \<Rightarrow>
                     (let a = nibble c; b = nibble d in
                      if a < 0 \<or> b < 0 then None
                      else if ends_token r' then Some (a * 16 + b, r') else None))))"

lemma aob_token_shorter: "aob_token t = Some (v, r) \<Longrightarrow> length r < length t"
  by (auto simp: aob_token_def Let_def split: list.splits if_splits)

function parse_aob_loop :: "string \<Rightarrow> int list \<Rightarrow> int list option" where
  "parse_aob_loop inp pattern =
     (let t = dropWhile is_blank inp in
      if t = [] then (if pattern = [] then None else Some pattern)
      else (case aob_token t of
              None \<Rightarrow> None
            | Some (v, r) \<Rightarrow>
                (let pattern' = pattern @ [v] in
                 if length pattern' > 4096 then None else parse_aob_loop r pattern')))"
  by pat_completeness auto
termination
proof (relation "measure (\<lambda>(inp, pattern). length inp)")
  fix inp t pattern p v r pattern'
  assume "t = dropWhile is_blank inp" and "aob_token t = Some p" and "(v, r) = p"
  then have "length r < length (dropWhile is_blank inp)" by (auto dest: aob_token_shorter)
  also have "\<dots> \<le> length inp" by (rule length_dropWhile_le)
  finally show "((r, pattern'), (inp, pattern)) \<in> measure (\<lambda>(inp, pattern). length inp)"
    by simp
qed simp

declare parse_aob_loop.simps [simp del]

definition parse_aob :: "string \<Rightarrow> int list option" where
  "parse_aob inp = parse_aob_loop inp []"

section \<open>Scanning\<close>

text \<open>The comparison of the innermost loop, at the front of a byte list.\<close>

fun pattern_matches :: "int list \<Rightarrow> u8 list \<Rightarrow> bool" where
  "pattern_matches [] bs = True"
| "pattern_matches (p # ps) [] = False"
| "pattern_matches (p # ps) (b # bs) =
     (if p \<ge> 0 \<and> b \<noteq> word_of_int p then False else pattern_matches ps bs)"

text \<open>The loop over the positions of a chunk; \<open>True\<close> means \<open>max_matches\<close> was reached.\<close>

function scan_positions ::
  "int list \<Rightarrow> u8 list \<Rightarrow> address \<Rightarrow> nat \<Rightarrow> nat \<Rightarrow> address list \<Rightarrow> bool \<times> address list" where
  "scan_positions pattern bytes base max_matches i matches =
     (if i + length pattern \<le> length bytes then
        (if pattern_matches pattern (drop i bytes) then
           (let matches' = matches @ [base + of_nat i] in
            if length matches' \<ge> max_matches then (True, matches')
            else scan_positions pattern bytes base max_matches (Suc i) matches')
         else scan_positions pattern bytes base max_matches (Suc i) matches)
      else (False, matches))"
  by pat_completeness auto
termination
  by (relation "measure (\<lambda>(p, bytes, _, _, i, _). Suc (length bytes) - i)") auto

declare scan_positions.simps [simp del]

definition aob_chunk_size :: nat where "aob_chunk_size = 65536"

function scan_chunks ::
  "'b backend_ops \<Rightarrow> 'b session \<Rightarrow> address \<Rightarrow> nat \<Rightarrow> int list \<Rightarrow> nat \<Rightarrow> nat \<Rightarrow> address list
     \<Rightarrow> address list result \<times> 'b session" where
  "scan_chunks ops s start len pattern max_matches offset matches =
     (if offset < len then
        (let size = min (len - offset) (aob_chunk_size + length pattern - 1) in
         case read_bytes ops s (start + of_nat offset) (of_nat size) of
           (Inl e, s') \<Rightarrow> (failure e, s')
         | (Inr bytes, s') \<Rightarrow>
             (case scan_positions pattern bytes (start + of_nat offset) max_matches 0 matches of
                (True, matches') \<Rightarrow> (success matches', s')
              | (False, matches') \<Rightarrow>
                  (if size = len - offset then (success matches', s')
                   else scan_chunks ops s' start len pattern max_matches
                          (offset + aob_chunk_size) matches')))
      else (success matches, s))"
  by pat_completeness auto
termination
  by (relation "measure (\<lambda>(_, _, _, len, _, _, offset, _). len - offset)")
    (auto simp: aob_chunk_size_def)

declare scan_chunks.simps [simp del]

definition scan_aob ::
  "'b backend_ops \<Rightarrow> 'b session \<Rightarrow> address \<Rightarrow> size_t \<Rightarrow> string \<Rightarrow> size_t
     \<Rightarrow> address list result \<times> 'b session" where
  "scan_aob ops s start len signature max_matches =
     (case parse_aob signature of
        None \<Rightarrow> (failure (make_error EC_invalid_type ''invalid AoB pattern'' ''scan_aob'' start 0), s)
      | Some pattern \<Rightarrow>
          (if len = 0 \<or> len > 0x1000000 \<or> max_matches = 0 \<or> start > (-1) - len
           then (failure (make_error EC_invalid_size ''invalid or oversized scan range''
                   ''scan_aob'' start len), s)
           else if length pattern > unat len then (success [], s)
           else scan_chunks ops s start (unat len) pattern (unat max_matches) 0 []))"

section \<open>The parser: bounds and round trip\<close>

lemma nibble_range: "-1 \<le> nibble c \<and> nibble c \<le> 15"
  by (simp add: nibble_def Let_def)

lemma aob_token_range:
  assumes "aob_token t = Some (v, r)"
  shows "-1 \<le> v \<and> v \<le> 255"
proof -
  consider "v = -1" | c d where "v = nibble c * 16 + nibble d" "0 \<le> nibble c" "0 \<le> nibble d"
    using assms by (auto simp: aob_token_def Let_def not_less split: list.splits if_splits)
  then show ?thesis
  proof cases
    case (2 c d)
    then show ?thesis using nibble_range [of c] nibble_range [of d] by linarith
  qed simp
qed

lemma parse_aob_loop_bounds:
  "parse_aob_loop inp pattern = Some p \<Longrightarrow> length pattern \<le> 4096 \<Longrightarrow>
     (\<forall>v \<in> set pattern. -1 \<le> v \<and> v \<le> 255) \<Longrightarrow>
     p \<noteq> [] \<and> length p \<le> 4096 \<and> (\<forall>v \<in> set p. -1 \<le> v \<and> v \<le> 255)"
proof (induction inp pattern rule: parse_aob_loop.induct)
  case (1 inp pattern)
  show ?case
  proof (cases "dropWhile is_blank inp = []")
    case True
    then show ?thesis using "1.prems"
      by (auto simp: parse_aob_loop.simps [of inp] split: if_splits)
  next
    case False
    then obtain v r where t: "aob_token (dropWhile is_blank inp) = Some (v, r)"
      and l: "length (pattern @ [v]) \<le> 4096" and p: "parse_aob_loop r (pattern @ [v]) = Some p"
      using "1.prems"(1)
      by (auto simp: parse_aob_loop.simps [of inp] Let_def split: option.splits if_splits)
    show ?thesis
      using "1.IH" [OF refl False t refl refl] l p aob_token_range [OF t] "1.prems"(3) by auto
  qed
qed

definition hex_char :: "nat \<Rightarrow> char" where
  "hex_char n = (if n < 10 then char_of (48 + n) else char_of (55 + n))"

definition show_aob_byte :: "int \<Rightarrow> string" where
  "show_aob_byte v = (if v < 0 then ''??''
     else [hex_char (nat v div 16), hex_char (nat v mod 16)])"

fun show_aob :: "int list \<Rightarrow> string" where
  "show_aob [] = []"
| "show_aob [v] = show_aob_byte v"
| "show_aob (v # vs) = show_aob_byte v @ CHR '' '' # show_aob vs"

lemma code_hex_char: "n < 16 \<Longrightarrow> code_of (hex_char n) = (if n < 10 then 48 + n else 55 + n)"
  by (simp add: hex_char_def)

lemma nibble_hex_char: "n < 16 \<Longrightarrow> nibble (hex_char n) = int n"
  by (simp add: nibble_def code_hex_char)

lemma hex_char_special:
  assumes "n < 16" shows "hex_char n \<noteq> CHR ''?''" "\<not> is_blank (hex_char n)"
proof -
  have "code_of (hex_char n) \<noteq> 63" "code_of (hex_char n) \<noteq> 32"
    using assms by (auto simp: code_hex_char split: if_splits)
  then show "hex_char n \<noteq> CHR ''?''" "\<not> is_blank (hex_char n)"
    by (auto simp: is_blank_def)
qed

lemma aob_token_show:
  assumes "-1 \<le> v" "v \<le> 255" "ends_token r"
  shows "aob_token (show_aob_byte v @ r) = Some (v, r)"
proof (cases "v < 0")
  case True
  then show ?thesis using assms by (simp add: aob_token_def show_aob_byte_def)
next
  case False
  have lt: "nat v div 16 < 16" "nat v mod 16 < 16" using assms(2) by (auto simp: nat_less_iff)
  have "int (nat v div 16 * 16 + nat v mod 16) = v" using False by (simp only: div_mult_mod_eq)
  then have "int (nat v div 16) * 16 + int (nat v mod 16) = v" by (simp only: of_nat_add of_nat_mult of_nat_numeral)
  then show ?thesis
    using False assms lt hex_char_special [OF lt(1)]
    by (simp add: aob_token_def show_aob_byte_def nibble_hex_char Let_def)
qed

lemma dropWhile_show_aob_byte:
  assumes "-1 \<le> v" "v \<le> 255"
  shows "dropWhile is_blank (show_aob_byte v @ r) = show_aob_byte v @ r"
proof (cases "v < 0")
  case False
  then have "nat v div 16 < 16" using assms(2) by (auto simp: nat_less_iff)
  then show ?thesis using False hex_char_special by (simp add: show_aob_byte_def)
qed (simp add: show_aob_byte_def is_blank_def)

lemma parse_aob_loop_show:
  assumes "length (pattern @ vs) \<le> 4096" "vs \<noteq> []" "\<forall>v \<in> set vs. -1 \<le> v \<and> v \<le> 255"
    "dropWhile is_blank t = show_aob vs"
  shows "parse_aob_loop t pattern = Some (pattern @ vs)"
  using assms
proof (induction vs arbitrary: t pattern rule: show_aob.induct)
  case 1
  then show ?case by simp
next
  case (2 v)
  have tok: "aob_token (show_aob_byte v) = Some (v, [])"
    using aob_token_show [of v "[]"] 2 by (simp add: ends_token_def)
  have "show_aob_byte v \<noteq> []" by (simp add: show_aob_byte_def)
  then show ?case using 2 tok
    by (simp add: parse_aob_loop.simps [of t] parse_aob_loop.simps [of "[]"])
next
  case (3 v w vs)
  let ?r = "CHR '' '' # show_aob (w # vs)"
  have tok: "aob_token (show_aob_byte v @ ?r) = Some (v, ?r)"
    using 3 by (intro aob_token_show) (auto simp: ends_token_def is_blank_def)
  have "dropWhile is_blank (show_aob (w # vs)) = show_aob (w # vs)"
    using 3 dropWhile_show_aob_byte [of w] dropWhile_show_aob_byte [of w "[]"] by (cases vs) auto
  then have "parse_aob_loop ?r (pattern @ [v]) = Some ((pattern @ [v]) @ w # vs)"
    using 3 by (intro "3.IH") (auto simp: is_blank_space)
  then show ?case using 3 tok by (simp add: parse_aob_loop.simps [of t] Let_def)
qed

section \<open>The scanner against an unchunked reference\<close>

text \<open>The positions of a byte list at which the pattern occurs, and their addresses.\<close>

definition hits :: "int list \<Rightarrow> u8 list \<Rightarrow> nat \<Rightarrow> nat \<Rightarrow> nat list" where
  "hits pattern bytes i j = [k \<leftarrow> [i..<j]. pattern_matches pattern (drop k bytes)]"

definition at_offsets :: "address \<Rightarrow> nat list \<Rightarrow> address list" where
  "at_offsets base ks = map (\<lambda>k. base + of_nat k) ks"

definition scan_reference :: "address \<Rightarrow> u8 list \<Rightarrow> int list \<Rightarrow> nat \<Rightarrow> address list" where
  "scan_reference start bytes pattern max_matches =
     take max_matches (at_offsets start (hits pattern bytes 0 (Suc (length bytes) - length pattern)))"

lemma at_offsets_append [simp]: "at_offsets a (xs @ ys) = at_offsets a xs @ at_offsets a ys"
  by (simp add: at_offsets_def)

lemma length_at_offsets [simp]: "length (at_offsets a xs) = length xs"
  by (simp add: at_offsets_def)

lemma hits_split: "i \<le> j \<Longrightarrow> j \<le> k \<Longrightarrow> hits p bs i k = hits p bs i j @ hits p bs j k"
  by (metis filter_append hits_def le_Suc_ex upt_add_eq_append)

lemma pattern_matches_take:
  "length p \<le> n \<Longrightarrow> pattern_matches p (take n bs) = pattern_matches p bs"
proof (induction p bs arbitrary: n rule: pattern_matches.induct)
  case (3 p ps b bs)
  then show ?case by (cases n) auto
qed auto

lemma scan_positions_eq:
  assumes "length matches < mx"
  shows "scan_positions p bytes base mx i matches =
    (let found = matches @ at_offsets base (hits p bytes i (Suc (length bytes) - length p))
     in if length found \<ge> mx then (True, take mx found) else (False, found))"
  using assms
proof (induction p bytes base mx i matches rule: scan_positions.induct)
  case (1 p bytes base mx i matches)
  show ?case
  proof (cases "i + length p \<le> length bytes")
    case False
    then have "hits p bytes i (Suc (length bytes) - length p) = []" by (simp add: hits_def)
    then show ?thesis using False 1 by (simp add: scan_positions.simps [of p bytes] at_offsets_def)
  next
    case True
    then have step: "[i..<Suc (length bytes) - length p] = i # [Suc i..<Suc (length bytes) - length p]"
      by (simp add: upt_conv_Cons)
    show ?thesis
    proof (cases "pattern_matches p (drop i bytes)")
      case False
      then show ?thesis using 1 True step
        by (simp add: scan_positions.simps [of p bytes base mx i] hits_def)
    next
      case hit: True
      then have h: "hits p bytes i (Suc (length bytes) - length p)
          = i # hits p bytes (Suc i) (Suc (length bytes) - length p)"
        using step by (simp add: hits_def)
      show ?thesis
      proof (cases "length (matches @ [base + of_nat i]) \<ge> mx")
        case full: True
        then have "Suc (length matches) = mx" using "1.prems" by simp
        then show ?thesis using True hit full h
          by (auto simp: scan_positions.simps [of p bytes base mx i] at_offsets_def Let_def)
      next
        case False
        then show ?thesis using 1 True hit h
          by (simp add: scan_positions.simps [of p bytes base mx i] at_offsets_def Let_def)
      qed
    qed
  qed
qed

lemma hits_chunk:
  assumes "offset + n \<le> length w" "length p \<le> n"
  shows "map (\<lambda>k. offset + k) (hits p (take n (drop offset w)) 0 (Suc n - length p))
       = hits p w offset (offset + (Suc n - length p))"
proof -
  have up: "[offset..<offset + (Suc n - length p)]
      = map (\<lambda>k. offset + k) [0..<Suc n - length p]"
    by (simp add: map_add_upt add.commute [of offset])
  have "pattern_matches p (drop k (take n (drop offset w)))
      = pattern_matches p (drop (offset + k) w)" if "k < Suc n - length p" for k
  proof -
    have "drop k (take n (drop offset w)) = take (n - k) (drop (offset + k) w)"
      by (simp add: drop_take add.commute)
    then show ?thesis using that assms(2) by (simp add: pattern_matches_take)
  qed
  then have "[k \<leftarrow> [0..<Suc n - length p]. pattern_matches p (drop k (take n (drop offset w)))]
      = [k \<leftarrow> [0..<Suc n - length p]. pattern_matches p (drop (offset + k) w)]"
    by (intro filter_cong) auto
  then show ?thesis by (simp add: hits_def up filter_map comp_def)
qed

lemma at_offsets_shift: "at_offsets (start + of_nat offset) ks = at_offsets start (map (\<lambda>k. offset + k) ks)"
  by (simp add: at_offsets_def add.assoc)

context memory_backend
begin

lemma scan_chunks_eq:
  assumes w: "mem_slice (smem s) start len = Some w"
    and nowrap: "unat start + len < 2 ^ 64" and p: "0 < length p" "length p \<le> 4096"
    and "offset + length p \<le> len"
    and "matches = at_offsets start (hits p w 0 offset)" "length matches < mx"
  shows "fst (scan_chunks ops s start len p mx offset matches) = Inr (scan_reference start w p mx)"
  using assms
proof (induction "len - offset" arbitrary: s offset matches rule: less_induct)
  case less
  define size where "size = min (len - offset) (aob_chunk_size + length p - 1)"
  have lt: "offset < len" using less.prems(5) p(1) by linarith
  have lw: "length w = len" using less.prems(1) by (rule mem_slice_length)
  have size: "offset + size \<le> len" "length p \<le> size" "0 < size" "size \<le> 2 ^ 20"
    using less.prems lt by (auto simp: size_def aob_chunk_size_def)
  have off: "unat (start + of_nat offset) = unat start + offset"
    using nowrap less.prems by (simp add: unat_word_ariths unat_of_nat_u64)
  have un: "unat (of_nat size :: u64) = size" using size by (simp add: unat_of_nat_u64)
  have "valid_request (start + of_nat offset) (unat (of_nat size :: u64))"
    using size nowrap by (simp add: valid_request_def off un)
  moreover have "mem_slice (smem s) (start + of_nat offset) size = Some (take size (drop offset w))"
    using mem_slice_sub [OF less.prems(1)] size by simp
  ultimately have "fst (read_bytes ops s (start + of_nat offset) (of_nat size))
      = Inr (take size (drop offset w))"
    by (simp add: read_bytes_ok_iff un)
  then obtain s' where rd: "read_bytes ops s (start + of_nat offset) (of_nat size)
      = (Inr (take size (drop offset w)), s')" by (metis prod.collapse)
  have s': "smem s' = smem s" using read_bytes_mem [of s "start + of_nat offset" "of_nat size"] rd by simp
  let ?next = "offset + (Suc size - length p)"
  let ?found = "at_offsets start (hits p w 0 ?next)"
  have found: "matches @ at_offsets (start + of_nat offset)
      (hits p (take size (drop offset w)) 0 (Suc (length (take size (drop offset w))) - length p)) = ?found"
  proof -
    have len_chunk: "length (take size (drop offset w)) = size" using size lw by simp
    have "offset + size \<le> length w" using size lw by simp
    note chunk = hits_chunk [OF this size(2)]
    have "hits p w 0 ?next = hits p w 0 offset @ hits p w offset ?next"
      by (rule hits_split) simp_all
    then show ?thesis
      by (simp only: len_chunk at_offsets_shift chunk less.prems(6) at_offsets_append)
  qed
  have pos: "scan_positions p (take size (drop offset w)) (start + of_nat offset) mx 0 matches
      = (if length ?found \<ge> mx then (True, take mx ?found) else (False, ?found))"
    using scan_positions_eq [OF less.prems(7), of p "take size (drop offset w)" "start + of_nat offset" 0]
    unfolding found by (simp add: Let_def)
  have "?next \<le> Suc len - length p" using size by auto
  then have ref: "scan_reference start w p mx
      = take mx (?found @ at_offsets start (hits p w ?next (Suc len - length p)))"
    by (simp add: scan_reference_def lw hits_split [of 0 ?next "Suc len - length p"])
  have unf: "scan_chunks ops s start len p mx offset matches =
      (if length ?found \<ge> mx then (Inr (take mx ?found), s')
       else if size = len - offset then (Inr ?found, s')
       else scan_chunks ops s' start len p mx (offset + aob_chunk_size) ?found)"
    unfolding scan_chunks.simps [of ops s start len p mx offset matches] Let_def
      size_def [symmetric] rd prod.case sum.case pos using lt by simp
  show ?case
  proof (cases "length ?found \<ge> mx")
    case True
    then show ?thesis by (simp add: unf ref)
  next
    case notfull: False
    show ?thesis
    proof (cases "size = len - offset")
      case True
      then have "?next = Suc len - length p" using less.prems size by auto
      then have "hits p w ?next (Suc len - length p) = []" by (simp add: hits_def)
      then show ?thesis using True notfull by (simp add: unf ref at_offsets_def)
    next
      case False
      then have sz: "size = aob_chunk_size + length p - 1" "size < len - offset"
        using size by (auto simp: size_def)
      then have nx: "?next = offset + aob_chunk_size" using p by auto
      have "fst (scan_chunks ops s' start len p mx (offset + aob_chunk_size) ?found)
          = Inr (scan_reference start w p mx)"
      proof (rule less.hyps)
        show "len - (offset + aob_chunk_size) < len - offset"
          using sz by (simp add: aob_chunk_size_def)
        show "mem_slice (smem s') start len = Some w" using s' less.prems by simp
        show "offset + aob_chunk_size + length p \<le> len" using sz p by auto
        show "?found = at_offsets start (hits p w 0 (offset + aob_chunk_size))" by (simp add: nx)
        show "length ?found < mx" using notfull by simp
      qed (use nowrap p in auto)
      then show ?thesis using False notfull by (simp add: unf)
    qed
  qed
qed

end

section \<open>Properties\<close>

text \<open>
  every pattern the parser accepts has between 1 and 4096 elements, each a byte value or
  the wildcard \<open>-1\<close>; and the textual form of any such pattern (two hexadecimal digits per
  byte, \<open>??\<close> for a wildcard, single spaces) is parsed back to it.
\<close>

theorem parse_aob_roundtrip:
  "(parse_aob inp = Some p \<longrightarrow> p \<noteq> [] \<and> length p \<le> 4096 \<and> (\<forall>v \<in> set p. -1 \<le> v \<and> v \<le> 255))
   \<and> (vs \<noteq> [] \<and> length vs \<le> 4096 \<and> (\<forall>v \<in> set vs. -1 \<le> v \<and> v \<le> 255) \<longrightarrow>
        parse_aob (show_aob vs) = Some vs)"
proof (intro conjI impI)
  assume "parse_aob inp = Some p"
  then have "p \<noteq> [] \<and> length p \<le> 4096 \<and> (\<forall>v \<in> set p. -1 \<le> v \<and> v \<le> 255)"
    unfolding parse_aob_def by (rule parse_aob_loop_bounds) auto
  then show "p \<noteq> []" "length p \<le> 4096" "\<forall>v \<in> set p. -1 \<le> v \<and> v \<le> 255" by blast+
next
  assume A: "vs \<noteq> [] \<and> length vs \<le> 4096 \<and> (\<forall>v \<in> set vs. -1 \<le> v \<and> v \<le> 255)"
  have "dropWhile is_blank (show_aob vs) = show_aob vs"
    using A by (cases vs rule: show_aob.cases)
      (auto simp: dropWhile_show_aob_byte dropWhile_show_aob_byte [of _ "[]", simplified])
  then show "parse_aob (show_aob vs) = Some vs"
    using parse_aob_loop_show [of "[]" vs "show_aob vs"] A by (simp add: parse_aob_def)
qed

theorem parse_aob_roundtrip_witness:
  "parse_aob (show_aob [0x48, 0x8B, -1, 5]) = Some [0x48, 0x8B, -1, 5]"
  using parse_aob_roundtrip [of "[]" "[]" "[0x48, 0x8B, -1, 5]"] by simp

text \<open>
  C20: over a mapped range the chunked scan returns exactly what an unchunked scan of the
  whole range would: the first \<open>max_matches\<close> addresses, in ascending order and without
  duplicates, at which the pattern occurs, including occurrences across a 64 KiB chunk
  boundary.
\<close>

theorem scan_aob_complete:
  assumes "memory_backend ops mem_of" and "parse_aob signature = Some p"
    and "0 < len" "len \<le> 0x1000000" "unat start + unat len < 2 ^ 64" "0 < max_matches"
    and "mem_slice (mem_of (ses_backend s)) start (unat len) = Some w"
    and "length p \<le> unat len"
  shows "fst (scan_aob ops s start len signature max_matches)
       = Inr (scan_reference start w p (unat max_matches))"
proof -
  have pl: "p \<noteq> []" "length p \<le> 4096"
    using parse_aob_loop_bounds [of signature "[]" p] assms(2) by (auto simp: parse_aob_def)
  have "\<not> start > (-1) - len"
    using assms(5) by (simp add: u64_past_end_iff)
  then have "scan_aob ops s start len signature max_matches
      = scan_chunks ops s start (unat len) p (unat max_matches) 0 []"
    using assms by (auto simp: scan_aob_def not_less)
  moreover have "0 < unat max_matches" using assms(6) by (simp add: unat_gt_0)
  ultimately show ?thesis
    using memory_backend.scan_chunks_eq [OF assms(1,7,5), of p 0 "[]" "unat max_matches"] pl assms(8)
    by (simp add: hits_def at_offsets_def)
qed

definition aob_session :: "sim_backend session" where
  "aob_session = open_session sim_ops
     \<lparr>sim_is_64bit = True, sim_memory = mem_store (\<lambda>_. None) 0x1000 [0, 0x48, 0x8B, 0x7F, 5, 0]\<rparr>"

lemma aob_session_slice:
  "mem_slice (sim_memory (ses_backend aob_session)) 0x1000 6 = Some [0, 0x48, 0x8B, 0x7F, 5, 0]"
proof -
  have len: "(6 :: nat) = length [0, 0x48, 0x8B, 0x7F, 5, 0 :: u8]" by simp
  show ?thesis
    unfolding len aob_session_def open_session_def session.select_convs sim_backend.select_convs
    by (rule mem_slice_store) simp
qed

theorem scan_aob_complete_witness:
  "fst (scan_aob sim_ops aob_session 0x1000 6 ''48 8B ?? 05'' 64) = Inr [0x1001]"
proof -
  have w: "mem_slice (sim_memory (ses_backend aob_session)) 0x1000 (unat (6 :: size_t))
      = Some [0, 0x48, 0x8B, 0x7F, 5, 0]"
    using aob_session_slice by simp
  have p: "parse_aob ''48 8B ?? 05'' = Some [0x48, 0x8B, -1, 5]"
    by code_simp
  have r: "scan_reference 0x1000 [0, 0x48, 0x8B, 0x7F, 5, 0] [0x48, 0x8B, -1, 5] 64 = [0x1001]"
    by code_simp
  have "fst (scan_aob sim_ops aob_session 0x1000 6 ''48 8B ?? 05'' 64)
      = Inr (scan_reference 0x1000 [0, 0x48, 0x8B, 0x7F, 5, 0] [0x48, 0x8B, -1, 5] (unat (64 :: size_t)))"
    by (rule scan_aob_complete [OF sim.memory_backend_axioms p _ _ _ _ w]) simp_all
  then show ?thesis using r by simp
qed

end
