(* ===== verification/Candidate_Scan.thy ===== *)
theory Candidate_Scan
  imports Sim_Backend
begin

text \<open>
  \<open>include/gtlibcpp/candidate_scan.hpp\<close>: the cheat-engine style value scans. A value of
  the template parameter \<open>T\<close> is its object representation, a word; what the source does
  with \<open>T\<close> beyond copying it (its order, and for a floating type the tolerance tests
  \<open>std::abs(a - b) <= 0.0001\<close> and \<open>> 0.0001\<close>) is a record \<open>arithmetic\<close>. The two
  instances for integer types are given; a floating type is any record with
  \<open>ar_floating\<close> set, its tests being the hardware's.
\<close>

section \<open>Arithmetic types\<close>

record 'v arithmetic =
  ar_floating :: bool
  ar_within :: "'v \<Rightarrow> 'v \<Rightarrow> bool"  \<comment> \<open>\<open>abs (a - b) <= 0.0001\<close>\<close>
  ar_beyond :: "'v \<Rightarrow> 'v \<Rightarrow> bool"  \<comment> \<open>\<open>abs (a - b) > 0.0001\<close>\<close>
  ar_less :: "'v \<Rightarrow> 'v \<Rightarrow> bool"
  ar_le :: "'v \<Rightarrow> 'v \<Rightarrow> bool"

definition unsigned_arith :: "'a::len word arithmetic" where
  "unsigned_arith = \<lparr>ar_floating = False, ar_within = (=), ar_beyond = (\<noteq>),
     ar_less = (<), ar_le = (\<le>)\<rparr>"

definition signed_arith :: "'a::len word arithmetic" where
  "signed_arith = \<lparr>ar_floating = False, ar_within = (=), ar_beyond = (\<noteq>),
     ar_less = (\<lambda>a b. sint a < sint b), ar_le = (\<lambda>a b. sint a \<le> sint b)\<rparr>"

section \<open>Comparisons\<close>

datatype candidate_comparison =
    CC_equal | CC_changed | CC_unchanged | CC_increased | CC_decreased
  | CC_greater_than | CC_less_than | CC_between

datatype scan_type = ST_exact | ST_range | ST_unknown_initial

fun evaluate_comparison ::
  "'a::len word arithmetic \<Rightarrow> candidate_comparison \<Rightarrow> 'a word \<Rightarrow> 'a word \<Rightarrow> 'a word \<Rightarrow> 'a word \<Rightarrow> bool" where
  "evaluate_comparison ar CC_equal now old target target_upper =
     (if ar_floating ar then ar_within ar now target else now = target)"
| "evaluate_comparison ar CC_changed now old target target_upper =
     (if ar_floating ar then ar_beyond ar now old else now \<noteq> old)"
| "evaluate_comparison ar CC_unchanged now old target target_upper =
     (if ar_floating ar then ar_within ar now old else now = old)"
| "evaluate_comparison ar CC_increased now old target target_upper = ar_less ar old now"
| "evaluate_comparison ar CC_decreased now old target target_upper = ar_less ar now old"
| "evaluate_comparison ar CC_greater_than now old target target_upper = ar_less ar target now"
| "evaluate_comparison ar CC_less_than now old target target_upper = ar_less ar now target"
| "evaluate_comparison ar CC_between now old target target_upper =
     (ar_le ar target now \<and> ar_le ar now target_upper)"

fun scan_type_match ::
  "'a word arithmetic \<Rightarrow> scan_type \<Rightarrow> 'a::len word \<Rightarrow> 'a word \<Rightarrow> 'a word \<Rightarrow> bool" where
  "scan_type_match ar ST_exact v target target_upper =
     (if ar_floating ar then ar_within ar v target else v = target)"
| "scan_type_match ar ST_range v target target_upper =
     (ar_le ar target v \<and> ar_le ar v target_upper)"
| "scan_type_match ar ST_unknown_initial v target target_upper = True"

section \<open>The snapshot and the first scan\<close>

record 'v candidate_snapshot =
  cs_addresses :: "address list"
  cs_values :: "'v list"

definition snapshot_size :: "'v candidate_snapshot \<Rightarrow> nat" where
  "snapshot_size sn = length (cs_addresses sn)"

definition snapshot_empty :: "'v candidate_snapshot \<Rightarrow> bool" where
  "snapshot_empty sn \<longleftrightarrow> cs_addresses sn = []"

definition snapshot_push ::
  "'v candidate_snapshot \<Rightarrow> address \<Rightarrow> 'v \<Rightarrow> 'v candidate_snapshot" where
  "snapshot_push sn a v = \<lparr>cs_addresses = cs_addresses sn @ [a], cs_values = cs_values sn @ [v]\<rparr>"

definition empty_snapshot :: "'v candidate_snapshot" where
  "empty_snapshot = \<lparr>cs_addresses = [], cs_values = []\<rparr>"

text \<open>\<open>sizeof(T)\<close>\<close>

definition sizeof :: "'a::len itself \<Rightarrow> nat" where
  "sizeof t = LENGTH('a) div 8"

text \<open>
  The loop over the positions of one chunk. \<open>read_bytes\<close> returns the whole chunk, which
  holds at least one \<open>T\<close>, so the loop's bound \<open>i <= limit\<close> is \<open>i + sizeof(T) <= size\<close>.
\<close>

function candidate_positions ::
  "'a word arithmetic \<Rightarrow> scan_type \<Rightarrow> 'a::len word \<Rightarrow> 'a word \<Rightarrow> size_t \<Rightarrow> nat \<Rightarrow> address \<Rightarrow> u8 list
     \<Rightarrow> nat \<Rightarrow> 'a word candidate_snapshot \<Rightarrow> 'a word candidate_snapshot" where
  "candidate_positions ar ty target upper alignment max_matches chunk_addr bytes i sn =
     (let limit = (if length bytes \<ge> sizeof TYPE('a) then length bytes - sizeof TYPE('a) else 0) in
      if i \<le> limit \<and> snapshot_size sn < max_matches then
        (let item_addr = chunk_addr + of_nat i in
         if item_addr mod alignment \<noteq> 0
         then candidate_positions ar ty target upper alignment max_matches chunk_addr bytes (Suc i) sn
         else
           (let v = word_of_bytes (take (sizeof TYPE('a)) (drop i bytes));
                sn' = (if scan_type_match ar ty v target upper
                       then snapshot_push sn item_addr v else sn)
            in candidate_positions ar ty target upper alignment max_matches chunk_addr bytes (Suc i) sn'))
      else sn)"
  by pat_completeness auto
termination
  by (relation "measure (\<lambda>(_, _, _, _, _, _, _, bytes, i, _). Suc (length bytes) - i)")
    (auto split: if_splits)

declare candidate_positions.simps [simp del]

definition candidate_chunk_size :: nat where "candidate_chunk_size = 65536"

function first_scan_loop ::
  "'b backend_ops \<Rightarrow> 'b session \<Rightarrow> 'a word arithmetic \<Rightarrow> scan_type \<Rightarrow> 'a::len word \<Rightarrow> 'a word \<Rightarrow> size_t
     \<Rightarrow> nat \<Rightarrow> address \<Rightarrow> nat \<Rightarrow> nat \<Rightarrow> 'a word candidate_snapshot
     \<Rightarrow> 'a word candidate_snapshot \<times> nat \<times> 'b session" where
  "first_scan_loop ops s ar ty target upper alignment max_matches start len offset sn =
     (if offset < len \<and> snapshot_size sn < max_matches then
        (let this_chunk = min candidate_chunk_size (len - offset);
             chunk_addr = start + of_nat offset
         in if this_chunk < sizeof TYPE('a) then (sn, offset, s)
            else (case read_bytes ops s chunk_addr (of_nat this_chunk) of
                    (Inl e, s') \<Rightarrow>
                      first_scan_loop ops s' ar ty target upper alignment max_matches start len
                        (offset + this_chunk) sn
                  | (Inr bytes, s') \<Rightarrow>
                      first_scan_loop ops s' ar ty target upper alignment max_matches start len
                        (offset + this_chunk)
                        (candidate_positions ar ty target upper alignment max_matches
                           chunk_addr bytes 0 sn)))
      else (sn, offset, s))"
  by pat_completeness auto
termination
  by (relation "measure (\<lambda>(_, _, _, _, _, _, _, _, _, len, offset, _). len - offset)")
    (auto simp: candidate_chunk_size_def)

declare first_scan_loop.simps [simp del]

definition first_scan ::
  "'b backend_ops \<Rightarrow> 'b session \<Rightarrow> 'a word arithmetic \<Rightarrow> address \<Rightarrow> size_t \<Rightarrow> scan_type
     \<Rightarrow> 'a::len word \<Rightarrow> 'a word \<Rightarrow> size_t \<Rightarrow> size_t \<Rightarrow> 'a word candidate_snapshot result \<times> 'b session" where
  "first_scan ops s ar start range_size ty target upper alignment max_matches =
     (if start = 0 \<or> range_size = 0 \<or> max_matches = 0
      then (failure (make_error EC_invalid_size ''invalid scan parameters''
              ''first_scan'' start range_size), s)
      else if alignment = 0 \<or> alignment AND (alignment - 1) \<noteq> 0
      then (failure (make_error EC_invalid_size ''alignment must be a power of two''
              ''first_scan'' start alignment), s)
      else if start > (-1) - range_size
      then (failure (make_error EC_invalid_address ''scan range wraps the address space''
              ''first_scan'' start range_size), s)
      else (case first_scan_loop ops s ar ty target upper alignment (unat max_matches) start
                   (unat range_size) 0 empty_snapshot of
              (sn, offset, s') \<Rightarrow>
                (success sn, add_log s' (log_debug ''first_scan''
                   (''scanned bytes='' @ show_nat offset @ '' matches='' @
                    show_nat (snapshot_size sn)) 0 0))))"

section \<open>Refining scans\<close>

fun next_scan_loop ::
  "'b backend_ops \<Rightarrow> 'b session \<Rightarrow> 'a word arithmetic \<Rightarrow> candidate_comparison \<Rightarrow> 'a::len word \<Rightarrow> 'a word
     \<Rightarrow> (address \<times> 'a word) list \<Rightarrow> 'a word candidate_snapshot
     \<Rightarrow> 'a word candidate_snapshot result \<times> 'b session" where
  "next_scan_loop ops s ar cmp target upper [] refined = (success refined, s)"
| "next_scan_loop ops s ar cmp target upper ((address, old) # rest) refined =
     (if address = 0 \<or> address > (-1) - of_nat (sizeof TYPE('a))
      then (failure (make_error EC_invalid_size ''invalid candidate address'' ''next_scan''
              address (of_nat (sizeof TYPE('a)))), s)
      else (case session_read ops s address of
              (Inl e, s') \<Rightarrow> next_scan_loop ops s' ar cmp target upper rest refined
            | (Inr now, s') \<Rightarrow>
                next_scan_loop ops s' ar cmp target upper rest
                  (if evaluate_comparison ar cmp now old target upper
                   then snapshot_push refined address now else refined)))"

definition next_scan ::
  "'b backend_ops \<Rightarrow> 'b session \<Rightarrow> 'a word arithmetic \<Rightarrow> 'a::len word candidate_snapshot
     \<Rightarrow> candidate_comparison \<Rightarrow> 'a word \<Rightarrow> 'a word \<Rightarrow> size_t
     \<Rightarrow> 'a word candidate_snapshot result \<times> 'b session" where
  "next_scan ops s ar previous cmp target upper max_candidates =
     (if length (cs_addresses previous) \<noteq> length (cs_values previous)
         \<or> length (cs_addresses previous) > unat max_candidates \<or> max_candidates = 0
      then (failure (make_error EC_invalid_size ''invalid candidate list size'' ''next_scan'' 0
              (of_nat (length (cs_addresses previous)))), s)
      else (case next_scan_loop ops s ar cmp target upper
                   (zip (cs_addresses previous) (cs_values previous)) empty_snapshot of
              (Inl e, s') \<Rightarrow> (failure e, s')
            | (Inr refined, s') \<Rightarrow>
                (success refined, add_log s' (log_debug ''next_scan''
                   (''initial candidates='' @ show_nat (length (cs_addresses previous)) @
                    '' refined candidates='' @ show_nat (snapshot_size refined)) 0 0))))"

definition refine_candidates ::
  "'b backend_ops \<Rightarrow> 'b session \<Rightarrow> 'a word arithmetic \<Rightarrow> address list \<Rightarrow> 'a::len word list
     \<Rightarrow> candidate_comparison \<Rightarrow> 'a word \<Rightarrow> size_t \<Rightarrow> address list result \<times> 'b session" where
  "refine_candidates ops s ar candidates previous_values cmp target max_candidates =
     (case next_scan ops s ar \<lparr>cs_addresses = candidates, cs_values = previous_values\<rparr> cmp
             target target max_candidates of
        (Inl e, s') \<Rightarrow> (failure e, s')
      | (Inr sn, s') \<Rightarrow> (success (cs_addresses sn), s'))"


section \<open>The integer comparisons\<close>

lemma integer_comparison_partition:
  fixes now old :: "'a::len word"
  assumes "ar = unsigned_arith \<or> ar = signed_arith"
  shows "evaluate_comparison ar CC_changed now old t u \<longleftrightarrow>
           evaluate_comparison ar CC_increased now old t u \<or> evaluate_comparison ar CC_decreased now old t u"
    "evaluate_comparison ar CC_changed now old t u \<longleftrightarrow> \<not> evaluate_comparison ar CC_unchanged now old t u"
    "\<not> (evaluate_comparison ar CC_increased now old t u \<and> evaluate_comparison ar CC_decreased now old t u)"
proof -
  have s: "now \<noteq> old \<longleftrightarrow> sint old < sint now \<or> sint now < sint old"
    by (metis linorder_neq_iff signed_word_eqI)
  have u: "now \<noteq> old \<longleftrightarrow> old < now \<or> now < old" by auto
  show "evaluate_comparison ar CC_changed now old t u \<longleftrightarrow>
           evaluate_comparison ar CC_increased now old t u \<or> evaluate_comparison ar CC_decreased now old t u"
    "evaluate_comparison ar CC_changed now old t u \<longleftrightarrow> \<not> evaluate_comparison ar CC_unchanged now old t u"
    "\<not> (evaluate_comparison ar CC_increased now old t u \<and> evaluate_comparison ar CC_decreased now old t u)"
    using assms s u by (auto simp: unsigned_arith_def signed_arith_def)
qed

section \<open>The first scan against a specification over the whole range\<close>

text \<open>Snapshots grow in step: the paired view of the two vectors.\<close>

definition snap_of :: "(address \<times> 'v) list \<Rightarrow> 'v candidate_snapshot" where
  "snap_of ps = \<lparr>cs_addresses = map fst ps, cs_values = map snd ps\<rparr>"

lemma snap_of_simps [simp]:
  "snapshot_push (snap_of ps) a v = snap_of (ps @ [(a, v)])"
  "snapshot_size (snap_of ps) = length ps"
  "cs_addresses (snap_of ps) = map fst ps"
  "empty_snapshot = snap_of []"
  by (simp_all add: snap_of_def snapshot_push_def snapshot_size_def empty_snapshot_def)

text \<open>The hit of a scan at one position of a byte list.\<close>

definition local_hit ::
  "'a::len word arithmetic \<Rightarrow> scan_type \<Rightarrow> 'a word \<Rightarrow> 'a word \<Rightarrow> size_t \<Rightarrow> address \<Rightarrow> u8 list \<Rightarrow> nat
     \<Rightarrow> (address \<times> 'a word) list" where
  "local_hit ar ty t u al base bytes k =
     (let a = base + of_nat k; v = word_of_bytes (take (sizeof TYPE('a)) (drop k bytes))
      in if a mod al = 0 \<and> scan_type_match ar ty v t u then [(a, v)] else [])"

text \<open>
  The hit at offset \<open>k\<close> of the scanned range. \<open>chunked\<close> adds what the chunked loop
  requires beyond the value itself: it lies within one 64 KiB chunk, and the whole chunk is
  readable.
\<close>

definition range_hit ::
  "bool \<Rightarrow> mem \<Rightarrow> 'a::len word arithmetic \<Rightarrow> scan_type \<Rightarrow> 'a word \<Rightarrow> 'a word \<Rightarrow> size_t \<Rightarrow> address
     \<Rightarrow> nat \<Rightarrow> nat \<Rightarrow> (address \<times> 'a word) list" where
  "range_hit chunked m ar ty t u al start len k =
     (let a = start + of_nat k; c = k div 65536 * 65536 in
      if k + sizeof TYPE('a) \<le> len \<and> a mod al = 0 \<and>
         (chunked \<longrightarrow> k mod 65536 + sizeof TYPE('a) \<le> 65536 \<and>
            mem_slice m (start + of_nat c) (min 65536 (len - c)) \<noteq> None)
      then (case mem_word m a of None \<Rightarrow> []
            | Some v \<Rightarrow> if scan_type_match ar ty v t u then [(a, v)] else [])
      else [])"

definition range_hits ::
  "bool \<Rightarrow> mem \<Rightarrow> 'a::len word arithmetic \<Rightarrow> scan_type \<Rightarrow> 'a word \<Rightarrow> 'a word \<Rightarrow> size_t \<Rightarrow> address
     \<Rightarrow> nat \<Rightarrow> nat \<Rightarrow> nat \<Rightarrow> (address \<times> 'a word) list" where
  "range_hits chunked m ar ty t u al start len i j =
     concat (map (range_hit chunked m ar ty t u al start len) [i..<j])"

lemma range_hits_split:
  "i \<le> j \<Longrightarrow> j \<le> k \<Longrightarrow> range_hits c m ar ty t u al start len i k =
     range_hits c m ar ty t u al start len i j @ range_hits c m ar ty t u al start len j k"
  using upt_add_eq_append [of i j "k - j"] by (simp add: range_hits_def)

lemma take_take_append: "take n (take n xs @ ys) = take n (xs @ ys)"
  by (cases "length xs \<le> n") simp_all

lemma candidate_positions_eq:
  fixes t u :: "'a::len word"
  assumes "length ps \<le> mx" and "sizeof TYPE('a) \<le> length bytes"
  shows "candidate_positions ar ty t u al mx base bytes i (snap_of ps) =
    snap_of (take mx (ps @ concat (map (local_hit ar ty t u al base bytes)
                                     [i..<Suc (length bytes) - sizeof TYPE('a)])))"
  using assms(1)
proof (induction "Suc (length bytes) - i" arbitrary: i ps rule: less_induct)
  case less
  let ?hits = "\<lambda>i. concat (map (local_hit ar ty t u al base bytes)
                                     [i..<Suc (length bytes) - sizeof TYPE('a)])"
  show ?case
  proof (cases "i \<le> length bytes - sizeof TYPE('a) \<and> length ps < mx")
    case False
    then have "?hits i = [] \<or> length ps = mx"
      using less.prems assms(2) by auto
    then have "take mx (ps @ ?hits i) = ps" using less.prems by auto
    moreover have "candidate_positions ar ty t u al mx base bytes i (snap_of ps) = snap_of ps"
      by (subst candidate_positions.simps)
        (simp only: Let_def assms(2) if_True snap_of_simps False if_False)
    ultimately show ?thesis by simp
  next
    case True
    let ?a = "base + of_nat i" and ?v = "word_of_bytes (take (sizeof TYPE('a)) (drop i bytes)) :: 'a word"
    define ps' where "ps' = ps @ local_hit ar ty t u al base bytes i"
    have len: "length ps' \<le> mx" using True by (simp add: ps'_def local_hit_def Let_def)
    have "[i..<Suc (length bytes) - sizeof TYPE('a)] = i # [Suc i..<Suc (length bytes) - sizeof TYPE('a)]"
      using True assms(2) by (intro upt_conv_Cons) linarith
    then have hits: "ps @ ?hits i = ps' @ ?hits (Suc i)" by (simp add: ps'_def)
    have "Suc (length bytes) - Suc i < Suc (length bytes) - i" using True by linarith
    note IH = less.hyps [OF this len]
    have "candidate_positions ar ty t u al mx base bytes i (snap_of ps)
        = candidate_positions ar ty t u al mx base bytes (Suc i) (snap_of ps')"
      by (subst candidate_positions.simps)
        (use True in \<open>auto simp add: assms(2) ps'_def local_hit_def Let_def\<close>)
    then show ?thesis by (simp only: IH hits)
  qed
qed

context memory_backend
begin

text \<open>One chunk: the hits of its bytes are the hits of its part of the range.\<close>

lemma chunk_hits:
  fixes t u :: "'a::len word"
  assumes off: "65536 dvd offset" "offset < len" and n: "n = min 65536 (len - offset)"
    and sz: "0 < sizeof TYPE('a)" "sizeof TYPE('a) \<le> n"
  shows "range_hits True m ar ty t u al start len offset (offset + n) =
    (case mem_slice m (start + of_nat offset) n of None \<Rightarrow> []
     | Some bytes \<Rightarrow> concat (map (local_hit ar ty t u al (start + of_nat offset) bytes)
                             [0..<Suc n - sizeof TYPE('a)]))"
proof -
  let ?sz = "sizeof TYPE('a)"
  have chunk: "(offset + k) div 65536 * 65536 = offset" "(offset + k) mod 65536 = k" if "k < n" for k
    using off(1) that n by (auto simp: elim!: dvdE)
  have fits: "offset + k + ?sz \<le> len \<and> k + ?sz \<le> 65536 \<longleftrightarrow> k < Suc n - ?sz" if "k < n" for k
    using n off(2) by auto
  have up: "[offset..<offset + n] = map (\<lambda>k. offset + k) [0..<n]"
    by (simp add: map_add_upt add.commute [of offset])
  show ?thesis
  proof (cases "mem_slice m (start + of_nat offset) n")
    case None
    then have "range_hit True m ar ty t u al start len (offset + k) = []" if "k < n" for k
      using chunk [OF that] n by (simp add: range_hit_def Let_def)
    then show ?thesis using None by (simp add: range_hits_def up concat_eq_Nil_conv)
  next
    case (Some bytes)
    have hit: "range_hit True m ar ty t u al start len (offset + k) =
        (if k < Suc n - ?sz then local_hit ar ty t u al (start + of_nat offset) bytes k else [])"
      if k: "k < n" for k
    proof -
      have "mem_word m (start + of_nat (offset + k))
          = Some (word_of_bytes (take ?sz (drop k bytes)) :: 'a word)" if "k < Suc n - ?sz"
        using mem_slice_sub [OF Some, of k ?sz] that sz
        by (simp add: mem_word_def sizeof_def add.assoc)
      then show ?thesis
        using chunk [OF k] fits [OF k] n Some
        by (auto simp: range_hit_def local_hit_def Let_def add.assoc)
    qed
    let ?j = "Suc n - ?sz"
    have "[0..<n] = [0..<?j] @ [?j..<n]"
      using upt_add_eq_append [of 0 ?j "n - ?j"] sz by simp
    moreover have "concat (map (\<lambda>k. range_hit True m ar ty t u al start len (offset + k)) [0..<?j])
        = concat (map (local_hit ar ty t u al (start + of_nat offset) bytes) [0..<?j])"
      using sz by (intro arg_cong [where f = concat] map_cong) (simp_all add: hit)
    moreover have "concat (map (\<lambda>k. range_hit True m ar ty t u al start len (offset + k)) [?j..<n]) = []"
      by (simp add: concat_eq_Nil_conv hit)
    ultimately show ?thesis by (simp add: range_hits_def up Some comp_def)
  qed
qed

lemma first_scan_loop_eq:
  fixes t u :: "'a::len word"
  assumes "0 < sizeof TYPE('a)" "sizeof TYPE('a) \<le> 8" "unat start + len < 2 ^ 64"
    and "65536 dvd offset \<or> len \<le> offset" "length ps \<le> mx"
  shows "\<exists>off s'. first_scan_loop ops s ar ty t u al mx start len offset (snap_of ps) =
      (snap_of (take mx (ps @ range_hits True (smem s) ar ty t u al start len offset len)), off, s')
      \<and> smem s' = smem s"
  using assms(4,5)
proof (induction "len - offset" arbitrary: s offset ps rule: less_induct)
  case less
  let ?hits = "range_hits True (smem s) ar ty t u al start len"
  let ?loop = "first_scan_loop ops s ar ty t u al mx start len offset (snap_of ps)"
  show ?case
  proof (cases "offset < len \<and> length ps < mx")
    case False
    then have "take mx (ps @ ?hits offset len) = ps"
      using less.prems by (auto simp: range_hits_def)
    moreover have "?loop = (snap_of ps, offset, s)"
      by (subst first_scan_loop.simps) (simp only: snap_of_simps False if_False)
    ultimately show ?thesis by simp
  next
    case True
    define n where "n = min candidate_chunk_size (len - offset)"
    have n: "n = min 65536 (len - offset)" by (simp add: n_def candidate_chunk_size_def)
    have off: "65536 dvd offset" "offset < len" using True less.prems by auto
    show ?thesis
    proof (cases "n < sizeof TYPE('a)")
      case short: True
      then have "len - offset < sizeof TYPE('a)" using n assms(2) by auto
      then have "?hits offset len = []"
        by (auto simp: range_hits_def range_hit_def Let_def concat_eq_Nil_conv)
      then have "take mx (ps @ ?hits offset len) = ps" using less.prems by simp
      moreover have "?loop = (snap_of ps, offset, s)"
        using True short by (subst first_scan_loop.simps) (simp add: n_def [symmetric] Let_def)
      ultimately show ?thesis by simp
    next
      case False
      have le: "offset + n \<le> len" "0 < n" "n \<le> 65536" using n off(2) by auto
      have un: "unat (of_nat n :: u64) = n" using le by (simp add: unat_of_nat_u64)
      have un_off: "unat (start + of_nat offset) = unat start + offset"
        using assms(3) off(2) by (simp add: unat_word_ariths unat_of_nat_u64)
      have req: "valid_request (start + of_nat offset) n"
        using le assms(3) by (simp add: valid_request_def un_off)
      define ps' where "ps' = take mx (ps @ ?hits offset (offset + n))"
      have ps': "length ps' \<le> mx" by (simp add: ps'_def)
      obtain r s1 where rd: "read_bytes ops s (start + of_nat offset) (of_nat n) = (r, s1)" by fastforce
      have s1: "smem s1 = smem s" using read_bytes_mem [of s "start + of_nat offset" "of_nat n"] rd by simp
      have ok: "r = Inr bs \<longleftrightarrow> mem_slice (smem s) (start + of_nat offset) n = Some bs" for bs
        using read_bytes_ok_iff [of s "start + of_nat offset" "of_nat n" bs] req rd un by simp
      have hits: "?hits offset (offset + n) =
        (case mem_slice (smem s) (start + of_nat offset) n of None \<Rightarrow> []
         | Some bytes \<Rightarrow> concat (map (local_hit ar ty t u al (start + of_nat offset) bytes)
                                 [0..<Suc n - sizeof TYPE('a)]))"
        using chunk_hits [OF off n assms(1)] False by (simp add: not_less)
      have step: "?loop = first_scan_loop ops s1 ar ty t u al mx start len (offset + n) (snap_of ps')"
      proof (cases r)
        case (Inl e)
        then have "mem_slice (smem s) (start + of_nat offset) n = None"
          using ok by (cases "mem_slice (smem s) (start + of_nat offset) n") auto
        then have "ps' = ps" using hits less.prems by (simp add: ps'_def)
        then show ?thesis
          using True False rd Inl by (subst first_scan_loop.simps) (simp add: n_def [symmetric] Let_def)
      next
        case (Inr bytes)
        then have sl: "mem_slice (smem s) (start + of_nat offset) n = Some bytes" using ok by simp
        then have "length bytes = n" by (rule mem_slice_length)
        then have "candidate_positions ar ty t u al mx (start + of_nat offset) bytes 0 (snap_of ps)
            = snap_of ps'"
          using hits sl candidate_positions_eq [OF less.prems(2), of bytes ar ty t u al] False
          by (simp add: ps'_def)
        then show ?thesis
          using True False rd Inr by (subst first_scan_loop.simps) (simp add: n_def [symmetric] Let_def)
      qed
      have "65536 dvd offset + n \<or> len \<le> offset + n" using n off by auto
      moreover have "len - (offset + n) < len - offset" using le off by linarith
      ultimately obtain off' s' where IH:
        "first_scan_loop ops s1 ar ty t u al mx start len (offset + n) (snap_of ps')
          = (snap_of (take mx (ps' @ ?hits (offset + n) len)), off', s')" "smem s' = smem s"
        using less.hyps [of "offset + n" ps' s1] ps' s1 by auto
      have "take mx (ps' @ ?hits (offset + n) len) = take mx (ps @ ?hits offset len)"
        using range_hits_split [of offset "offset + n" len True "smem s" ar ty t u al start len] le
        by (simp only: ps'_def take_take_append append_assoc)
      then show ?thesis using step IH by auto
    qed
  qed
qed

end

section \<open>The refining scan against a specification\<close>

text \<open>What one candidate of the previous scan becomes.\<close>

definition refined_hit ::
  "mem \<Rightarrow> 'a::len word arithmetic \<Rightarrow> candidate_comparison \<Rightarrow> 'a word \<Rightarrow> 'a word
     \<Rightarrow> address \<times> 'a word \<Rightarrow> (address \<times> 'a word) option" where
  "refined_hit m ar cmp t u p =
     (case mem_word m (fst p) of
        Some now \<Rightarrow> if evaluate_comparison ar cmp now (snd p) t u then Some (fst p, now) else None
      | None \<Rightarrow> None)"

definition candidate_ok :: "'a::len itself \<Rightarrow> address \<Rightarrow> bool" where
  "candidate_ok T a \<longleftrightarrow> a \<noteq> 0 \<and> unat a + sizeof T < 2 ^ 64"

lemma candidate_guard:
  assumes "integer_width TYPE('a::len)"
  shows "(a = 0 \<or> a > (-1) - of_nat (sizeof TYPE('a))) \<longleftrightarrow> \<not> candidate_ok TYPE('a) a"
  using integer_width_facts(4) [OF assms]
  by (simp add: u64_past_end_iff candidate_ok_def sizeof_def not_less)

context memory_backend
begin

lemma next_scan_loop_eq:
  fixes t u :: "'a::len word"
  assumes w: "integer_width TYPE('a)" and ok: "\<forall>p \<in> set ps. candidate_ok TYPE('a) (fst p)"
  shows "fst (next_scan_loop ops s ar cmp t u ps (snap_of acc)) =
      Inr (snap_of (acc @ List.map_filter (refined_hit (smem s) ar cmp t u) ps))"
  using ok
proof (induction ps arbitrary: s acc)
  case Nil
  then show ?case by (simp add: map_filter_simps)
next
  case (Cons p ps)
  obtain a old where p: "p = (a, old)" by fastforce
  have g: "\<not> (a = 0 \<or> a > (-1) - of_nat (sizeof TYPE('a)))"
    using candidate_guard [OF w, of a] Cons.prems p by simp
  have req: "valid_request a (LENGTH('a) div 8)"
    using Cons.prems p integer_width_facts [OF w]
    by (auto simp: valid_request_def candidate_ok_def sizeof_def)
  show ?case
  proof (rule session_read_cases [OF w, of s a])
    fix v s' assume rd: "session_read ops s a = (Inr (v :: 'a word), s')" "mem_word (smem s) a = Some v"
      "smem s' = smem s"
    show ?case
      using g rd Cons by (simp add: p refined_hit_def map_filter_simps)
  next
    fix e s' assume rd: "(session_read ops s a :: 'a word result \<times> 'b session) = (Inl e, s')"
      "\<not> valid_request a (LENGTH('a) div 8) \<or> mem_word (smem s) a = (None :: 'a word option)"
      "smem s' = smem s"
    show ?case
      using g rd req Cons by (simp add: p refined_hit_def map_filter_simps)
  qed
qed

end

section \<open>When chunking loses nothing\<close>

lemma range_hit_unchunked:
  fixes t u :: "'a::len word"
  assumes w: "integer_width TYPE('a)" and nowrap: "unat start + len < 2 ^ 64"
    and start: "sizeof TYPE('a) dvd unat start" and al: "sizeof TYPE('a) dvd unat al"
    and mapped: "mem_slice m start len = Some bs"
  shows "range_hit True m ar ty t u al start len k = range_hit False m ar ty t u al start len k"
proof -
  let ?sz = "sizeof TYPE('a)" and ?c = "k div 65536 * 65536"
  have sz: "?sz dvd 65536" "0 < ?sz" using w by (auto simp: sizeof_def integer_width_def)
  have "k mod 65536 + ?sz \<le> 65536 \<and> mem_slice m (start + of_nat ?c) (min 65536 (len - ?c)) \<noteq> None"
    if k: "k + ?sz \<le> len" and a: "(start + of_nat k) mod al = 0"
  proof
    have "unat (start + of_nat k) = unat start + k"
      using k nowrap by (simp add: unat_word_ariths unat_of_nat_u64)
    moreover have "unat al dvd unat (start + of_nat k)"
      using a by (metis dvd_0_right mod_0_imp_dvd unat_0 unat_mod)
    ultimately have "?sz dvd k" using al start by (metis dvd_add_right_iff dvd_trans)
    then have "?sz dvd 65536 - k mod 65536" using sz by (intro dvd_diff_nat) (simp_all add: dvd_mod)
    then have "?sz \<le> 65536 - k mod 65536" by (rule dvd_imp_le) simp
    moreover have "k mod 65536 < 65536" by simp
    ultimately show "k mod 65536 + ?sz \<le> 65536" by linarith
    have "?c \<le> k" by simp
    then have "?c + min 65536 (len - ?c) \<le> len" using k by linarith
    from mem_slice_sub [OF mapped this]
    show "mem_slice m (start + of_nat ?c) (min 65536 (len - ?c)) \<noteq> None" by simp
  qed
  then show ?thesis by (simp add: range_hit_def Let_def)
qed

context memory_backend
begin

lemma first_scan_eq:
  fixes t u :: "'a::len word"
  assumes w: "integer_width TYPE('a)"
    and "start \<noteq> 0" "range_size \<noteq> 0" "max_matches \<noteq> 0" "unat start + unat range_size < 2 ^ 64"
    and "alignment \<noteq> 0" "alignment AND (alignment - 1) = 0"
  shows "fst (first_scan ops s ar start range_size ty t u alignment max_matches) =
    Inr (snap_of (take (unat max_matches)
      (range_hits True (smem s) ar ty t u alignment start (unat range_size) 0 (unat range_size))))"
proof -
  have sz: "0 < sizeof TYPE('a)" "sizeof TYPE('a) \<le> 8"
    using integer_width_facts [OF w] by (simp_all add: sizeof_def)
  have "\<not> start > (-1) - range_size" using assms(5) by (simp add: u64_past_end_iff)
  moreover obtain off s' where
    "first_scan_loop ops s ar ty t u alignment (unat max_matches) start (unat range_size) 0 (snap_of [])
      = (snap_of (take (unat max_matches) (range_hits True (smem s) ar ty t u
           alignment start (unat range_size) 0 (unat range_size))), off, s')"
    using first_scan_loop_eq [OF sz assms(5), of 0 "[]" "unat max_matches" s ar ty t u alignment]
    by auto
  ultimately show ?thesis using assms by (simp add: first_scan_def)
qed

end

section \<open>Properties\<close>

text \<open>
  C38: on a lawful backend the chunked first scan returns, in ascending order and capped at
  \<open>max_matches\<close>, exactly the offsets of the range whose address is aligned, whose value
  matches, which do not straddle a 64 KiB chunk and whose chunk is wholly readable, each with
  the value memory holds there. Unreadable chunks are skipped, never fatal.
\<close>

theorem first_scan_exact:
  fixes t u :: "'a::len word"
  assumes "memory_backend ops mem_of" and w: "integer_width TYPE('a)"
    and "start \<noteq> 0" "range_size \<noteq> 0" "max_matches \<noteq> 0" "unat start + unat range_size < 2 ^ 64"
    and "alignment \<noteq> 0" "alignment AND (alignment - 1) = 0"
  shows "fst (first_scan ops s ar start range_size ty t u alignment max_matches) =
    Inr (snap_of (take (unat max_matches)
      (range_hits True (mem_of (ses_backend s)) ar ty t u alignment start (unat range_size)
         0 (unat range_size))))"
  by (rule memory_backend.first_scan_eq [OF assms])

text \<open>
  when the start of the range and the alignment are multiples of \<open>sizeof(T)\<close> and the
  range is mapped, chunking loses nothing: the scan equals the scan of the whole range that
  knows no chunks.
\<close>

theorem first_scan_complete:
  fixes t u :: "'a::len word"
  assumes "memory_backend ops mem_of" and w: "integer_width TYPE('a)"
    and "start \<noteq> 0" "range_size \<noteq> 0" "max_matches \<noteq> 0" "unat start + unat range_size < 2 ^ 64"
    and "alignment \<noteq> 0" "alignment AND (alignment - 1) = 0"
    and "sizeof TYPE('a) dvd unat start" "sizeof TYPE('a) dvd unat alignment"
    and "mem_slice (mem_of (ses_backend s)) start (unat range_size) = Some w"
  shows "fst (first_scan ops s ar start range_size ty t u alignment max_matches) =
    Inr (snap_of (take (unat max_matches)
      (range_hits False (mem_of (ses_backend s)) ar ty t u alignment start (unat range_size)
         0 (unat range_size))))"
proof -
  have "range_hits True (mem_of (ses_backend s)) ar ty t u alignment start (unat range_size) 0 (unat range_size)
      = range_hits False (mem_of (ses_backend s)) ar ty t u alignment start (unat range_size) 0 (unat range_size)"
    unfolding range_hits_def
    by (intro arg_cong [where f = concat] map_cong refl range_hit_unchunked [OF w assms(6,9,10,11)])
  then show ?thesis by (simp only: memory_backend.first_scan_eq [OF assms(1-8)])
qed

text \<open>
  on a lawful backend a refining scan keeps, in order, exactly those candidates whose
  value can still be read and satisfies the comparison against the previous value, each with
  its new value; unreadable candidates are dropped, never fatal.
\<close>

theorem next_scan_refines:
  fixes t u :: "'a::len word"
  assumes "memory_backend ops mem_of" and w: "integer_width TYPE('a)"
    and "length (cs_addresses previous) = length (cs_values previous)"
    and "length (cs_addresses previous) \<le> unat max_candidates" "max_candidates \<noteq> 0"
    and "\<forall>a \<in> set (cs_addresses previous). candidate_ok TYPE('a) a"
  shows "fst (next_scan ops s ar previous cmp t u max_candidates) =
    Inr (snap_of (List.map_filter (refined_hit (mem_of (ses_backend s)) ar cmp t u)
      (zip (cs_addresses previous) (cs_values previous))))"
proof -
  let ?ps = "zip (cs_addresses previous) (cs_values previous)"
  have "\<forall>p \<in> set ?ps. candidate_ok TYPE('a) (fst p)"
    using assms(6) by (auto dest: set_zip_leftD)
  from memory_backend.next_scan_loop_eq [OF assms(1) w this, of s ar cmp t u "[]"]
  obtain s' where "next_scan_loop ops s ar cmp t u ?ps (snap_of [])
      = (Inr (snap_of (List.map_filter (refined_hit (mem_of (ses_backend s)) ar cmp t u) ?ps)), s')"
    by (metis append_Nil prod.collapse)
  then show ?thesis using assms(3-5) by (simp add: next_scan_def)
qed

definition scan_session :: "sim_backend session" where
  "scan_session = open_session sim_ops
     \<lparr>sim_is_64bit = True, sim_memory = mem_store (\<lambda>_. None) 0x1000 [5, 0, 0, 0, 7, 0, 0, 0]\<rparr>"

lemmas scan_session_eval = scan_session_def open_session_def range_hits_def range_hit_def
  mem_word_def mem_slice_numeral sizeof_def refined_hit_def map_filter_simps
  unsigned_arith_def signed_arith_def

theorem first_scan_exact_witness:
  "fst (first_scan sim_ops scan_session unsigned_arith 0x1001 7 ST_exact (0x700 :: 16 word) 0 1 64)
     = Inr (snap_of [(0x1003, 0x700)])"
proof -
  have r: "range_hits True (sim_memory (ses_backend scan_session))
      unsigned_arith ST_exact (0x700 :: 16 word) 0 1 0x1001 7 0 7 = [(0x1003, 0x700)]"
    by (simp add: scan_session_eval upt_rec)
  show ?thesis
    using first_scan_exact [OF sim.memory_backend_axioms, of "0x1001" 7 64 1 scan_session unsigned_arith
        ST_exact "0x700 :: 16 word" 0] r by simp
qed

theorem first_scan_complete_witness:
  "fst (first_scan sim_ops scan_session signed_arith 0x1000 8 ST_range (6 :: 32 word) 9 4 64)
     = Inr (snap_of [(0x1004, 7)])"
proof -
  have r: "range_hits False (sim_memory (ses_backend scan_session))
      signed_arith ST_range (6 :: 32 word) 9 4 0x1000 8 0 8 = [(0x1004, 7)]"
    by (simp add: scan_session_eval upt_rec)
  have m: "\<exists>w. mem_slice (sim_memory (ses_backend scan_session)) 0x1000 (unat (8 :: size_t)) = Some w"
    by (simp add: scan_session_eval upt_rec)
  then obtain w where w: "mem_slice (sim_memory (ses_backend scan_session)) 0x1000 (unat (8 :: size_t)) = Some w" ..
  show ?thesis
    using first_scan_complete [OF sim.memory_backend_axioms _ _ _ _ _ _ _ _ _ w, of 64 4 signed_arith
        ST_range "6 :: 32 word" 9] r by (simp add: sizeof_def)
qed

theorem next_scan_refines_witness:
  "fst (next_scan sim_ops scan_session unsigned_arith
      \<lparr>cs_addresses = [0x1000, 0x1004, 0x9000], cs_values = [5, 3, 3 :: 32 word]\<rparr> CC_increased 0 0 8)
     = Inr (snap_of [(0x1004, 7)])"
proof -
  have r: "List.map_filter (refined_hit (sim_memory (ses_backend scan_session)) unsigned_arith CC_increased
      (0 :: 32 word) 0) [(0x1000, 5), (0x1004, 3), (0x9000, 3)] = [(0x1004, 7)]"
    by (simp add: scan_session_eval upt_rec)
  show ?thesis
    using next_scan_refines [OF sim.memory_backend_axioms, of
        "\<lparr>cs_addresses = [0x1000, 0x1004, 0x9000], cs_values = [5, 3, 3 :: 32 word]\<rparr>" 8
        scan_session unsigned_arith CC_increased 0 0] r
    by (simp add: candidate_ok_def sizeof_def)
qed

end
