(* ===== verification/Freeze.thy ===== *)
theory Freeze
  imports Sim_Backend "HOL-Library.AList"
begin

text \<open>
  \<open>src/freeze.cpp\<close>, \<open>include/gtlibcpp/freeze.hpp\<close>: the freeze manager and its worker
  threads. The manager state is the table of entries; each entry carries the program counter
  of its worker. A worker advances one step at a time (\<open>worker_step\<close>), and a manager call
  that joins a worker takes the list of the workers that ran meanwhile (\<open>sched\<close>), so every
  interleaving of manager calls and workers is a sequence of steps. The session is shared with
  other clients and passed explicitly; \<open>fm_attached\<close> is \<open>session_ != nullptr\<close>.
\<close>

section \<open>Values and bytes\<close>

definition bytes_to_u64 :: "u8 list \<Rightarrow> u64" where
  "bytes_to_u64 bs = word_of_bytes (take (min (length bs) 8) bs)"

text \<open>\<open>u64_to_bytes\<close> into a vector of \<open>size\<close> zero bytes.\<close>

definition u64_to_bytes :: "u64 \<Rightarrow> nat \<Rightarrow> u8 list" where
  "u64_to_bytes v n = take (min n 8) (bytes_of_word v) @ replicate (n - 8) 0"

lemma length_u64_to_bytes [simp]: "length (u64_to_bytes v n) = n"
  by (simp add: u64_to_bytes_def)

section \<open>Requests, entries, manager\<close>

record freeze_request =
  fr_id :: string
  fr_address :: address
  fr_type_name :: string
  fr_value_u64 :: u64
  fr_interval :: int  \<comment> \<open>milliseconds\<close>
  fr_size :: size_t

record freeze_status =
  fs_id :: string
  fs_address :: address
  fs_size :: size_t
  fs_value_u64 :: u64
  fs_successful_rewrites :: size_t
  fs_failed_rewrites :: size_t
  fs_original_value_u64 :: u64
  fs_active :: bool
  fs_restored :: bool
  fs_last_error :: string

text \<open>
  The program counter of \<open>worker_loop\<close>: the loop condition, the liveness check, the write,
  the sleep loop with its counter \<open>slept\<close>, and the end of the thread.
\<close>

datatype worker_pc = W_head | W_alive | W_write | W_sleep int | W_exited

record freeze_entry =
  fe_request :: freeze_request
  fe_original :: "u8 list"
  fe_joinable :: bool
  fe_pc :: worker_pc
  fe_cancel :: bool
  fe_active :: bool
  fe_restored :: bool
  fe_ok_count :: size_t
  fe_fail_count :: size_t
  fe_last_error :: string

record freeze_manager =
  fm_attached :: bool
  fm_entries :: "(string \<times> freeze_entry) list"

type_synonym 'b freeze_state = "freeze_manager \<times> 'b session"

definition FreezeManager_new :: "bool \<Rightarrow> freeze_manager" where
  "FreezeManager_new attached = \<lparr>fm_attached = attached, fm_entries = []\<rparr>"

definition entry_of :: "freeze_manager \<Rightarrow> string \<Rightarrow> freeze_entry option" where
  "entry_of m i = map_of (fm_entries m) i"

definition put_entry :: "freeze_manager \<Rightarrow> string \<Rightarrow> freeze_entry \<Rightarrow> freeze_manager" where
  "put_entry m i e = m\<lparr>fm_entries := AList.update i e (fm_entries m)\<rparr>"

definition size_for_type :: "string \<Rightarrow> size_t" where
  "size_for_type t =
     (if t = ''uint8'' \<or> t = ''int8'' then 1
      else if t = ''uint16'' \<or> t = ''int16'' then 2
      else if t = ''uint32'' \<or> t = ''int32'' \<or> t = ''float'' then 4
      else if t = ''uint64'' \<or> t = ''int64'' \<or> t = ''double'' then 8
      else 0)"

section \<open>The worker\<close>

definition total_ms :: "freeze_entry \<Rightarrow> int" where
  "total_ms e = max 1 (fr_interval (fe_request e))"

definition frozen_bytes :: "freeze_entry \<Rightarrow> u8 list" where
  "frozen_bytes e = u64_to_bytes (fr_value_u64 (fe_request e)) (unat (fr_size (fe_request e)))"

fun worker_step :: "'b backend_ops \<Rightarrow> freeze_entry \<Rightarrow> 'b session \<Rightarrow> freeze_entry \<times> 'b session" where
  "worker_step ops e s =
     (case fe_pc e of
        W_head \<Rightarrow> (e\<lparr>fe_pc := (if \<not> fe_cancel e \<and> fe_active e then W_alive else W_exited)\<rparr>, s)
      | W_alive \<Rightarrow>
          (if \<not> session_is_alive ops (Some (ses_backend s))
           then (e\<lparr>fe_active := False,
                   fe_last_error := ''target process exited during freeze'',
                   fe_fail_count := fe_fail_count e + 1,
                   fe_pc := W_exited\<rparr>, s)
           else (e\<lparr>fe_pc := W_write\<rparr>, s))
      | W_write \<Rightarrow>
          (case write_bytes ops s (fr_address (fe_request e)) (frozen_bytes e) of
             (Inl err, s') \<Rightarrow>
               (e\<lparr>fe_fail_count := fe_fail_count e + 1,
                  fe_last_error := err_message err, fe_pc := W_sleep 0\<rparr>, s')
           | (Inr n, s') \<Rightarrow>
               (if n \<noteq> fr_size (fe_request e)
                then (e\<lparr>fe_fail_count := fe_fail_count e + 1,
                        fe_last_error := ''partial write during freeze'', fe_pc := W_sleep 0\<rparr>, s')
                else (e\<lparr>fe_ok_count := fe_ok_count e + 1, fe_pc := W_sleep 0\<rparr>, s')))
      | W_sleep slept \<Rightarrow>
          (if slept < total_ms e then
             (if fe_cancel e \<or> \<not> fe_active e then (e\<lparr>fe_pc := W_head\<rparr>, s)
              else (e\<lparr>fe_pc := W_sleep (slept + 1)\<rparr>, s))
           else (e\<lparr>fe_pc := W_head\<rparr>, s))
      | W_exited \<Rightarrow> (e, s))"

text \<open>One turn of the worker of an entry; an entry without a thread has none.\<close>

definition worker_turn :: "'b backend_ops \<Rightarrow> string \<Rightarrow> 'b freeze_state \<Rightarrow> 'b freeze_state" where
  "worker_turn ops i ms =
     (case entry_of (fst ms) i of
        None \<Rightarrow> ms
      | Some e \<Rightarrow>
          (if fe_joinable e then
             (case worker_step ops e (snd ms) of (e', s') \<Rightarrow> (put_entry (fst ms) i e', s'))
           else ms))"

fun run_turns :: "'b backend_ops \<Rightarrow> string list \<Rightarrow> 'b freeze_state \<Rightarrow> 'b freeze_state" where
  "run_turns ops [] ms = ms"
| "run_turns ops (i # is) ms = run_turns ops is (worker_turn ops i ms)"

text \<open>
  \<open>worker.join()\<close>: the workers of \<open>sched\<close> run, then the joined one runs to its end. Once
  \<open>cancel\<close> is set it has at most four steps left (\<open>join_exits\<close>).
\<close>

definition join_worker ::
  "'b backend_ops \<Rightarrow> string list \<Rightarrow> string \<Rightarrow> 'b freeze_state \<Rightarrow> 'b freeze_state" where
  "join_worker ops sched i ms =
     (case run_turns ops (sched @ replicate 4 i) ms of
        (m, s) \<Rightarrow> (case entry_of m i of
                     None \<Rightarrow> (m, s)
                   | Some e \<Rightarrow> (put_entry m i (e\<lparr>fe_joinable := False\<rparr>), s)))"

section \<open>Operations of the manager\<close>

definition stop_worker ::
  "'b backend_ops \<Rightarrow> string list \<Rightarrow> string \<Rightarrow> freeze_entry \<Rightarrow> 'b freeze_state \<Rightarrow> 'b freeze_state" where
  "stop_worker ops sched i e ms =
     (if fe_joinable e
      then join_worker ops sched i (put_entry (fst ms) i (e\<lparr>fe_cancel := True\<rparr>), snd ms)
      else ms)"

definition new_entry :: "freeze_request \<Rightarrow> u8 list \<Rightarrow> freeze_entry" where
  "new_entry r bs = \<lparr>fe_request = r, fe_original = bs, fe_joinable = False, fe_pc = W_exited,
     fe_cancel = False, fe_active = True, fe_restored = False, fe_ok_count = 0,
     fe_fail_count = 0, fe_last_error = []\<rparr>"

text \<open>
  \<open>spawn\<close> is what the constructor of \<open>std::thread\<close> does: \<open>None\<close> when the thread starts,
  \<open>Some what\<close> when it throws.
\<close>

definition freeze ::
  "'b backend_ops \<Rightarrow> string option \<Rightarrow> freeze_request \<Rightarrow> 'b freeze_state
     \<Rightarrow> unit result \<times> 'b freeze_state" where
  "freeze ops spawn r0 ms =
     (let op = ''FreezeManager::freeze''; (m, s) = ms in
      if \<not> fm_attached m
      then (failure (make_error EC_not_connected ''no session attached'' op 0 0), ms)
      else if fr_address r0 = invalid_address
      then (failure (make_error EC_invalid_address ''freeze address is 0'' op 0 0), ms)
      else
       (let r = (if fr_size r0 = 0 then r0\<lparr>fr_size := size_for_type (fr_type_name r0)\<rparr> else r0) in
        if fr_size r = 0 \<or> fr_size r > 8
        then (failure (make_error EC_invalid_type (''unknown freeze type '' @ fr_type_name r)
                op (fr_address r) 0), ms)
        else if fr_id r = []
        then (failure (make_error EC_invalid_entry_id ''freeze id must be non-empty''
                op (fr_address r) 0), ms)
        else
         (let r = (if fr_interval r < 1 then r\<lparr>fr_interval := 50\<rparr> else r) in
          if entry_of m (fr_id r) \<noteq> None
          then (failure (make_error EC_invalid_entry_id (''freeze id already active: '' @ fr_id r)
                  op (fr_address r) 0), ms)
          else (case read_bytes ops s (fr_address r) (fr_size r) of
                  (Inl e, s') \<Rightarrow>
                    (failure (make_error_full (err_code e)
                       (''freeze could not snapshot the original value: '' @ err_message e)
                       op (fr_address r) (fr_size r) (err_system_error e) []), (m, s'))
                | (Inr bs, s') \<Rightarrow>
                    (let e = new_entry r bs in
                     case spawn of
                       Some what \<Rightarrow>
                         (failure (make_error EC_internal what op (fr_address r) 0),
                          (put_entry m (fr_id r) e,
                           add_log s' (log_error op what EC_internal (fr_address r) 0)))
                     | None \<Rightarrow>
                         (success (),
                          (put_entry m (fr_id r) (e\<lparr>fe_joinable := True, fe_pc := W_head\<rparr>),
                           add_log s' (log_info op ''freeze started'' (fr_address r) (fr_size r)))))))))"

definition snapshot_missing :: "string \<Rightarrow> string \<Rightarrow> error" where
  "snapshot_missing op i = make_error EC_snapshot_missing (''no freeze registered under '' @ i) op 0 0"

definition unfreeze ::
  "'b backend_ops \<Rightarrow> string list \<Rightarrow> string \<Rightarrow> 'b freeze_state \<Rightarrow> unit result \<times> 'b freeze_state" where
  "unfreeze ops sched i ms =
     (case entry_of (fst ms) i of
        None \<Rightarrow> (failure (snapshot_missing ''FreezeManager::unfreeze'' i), ms)
      | Some e \<Rightarrow>
          (case stop_worker ops sched i e ms of
             (m, s) \<Rightarrow>
               (success (), (case entry_of m i of
                  None \<Rightarrow> (m, s)
                | Some e' \<Rightarrow> (put_entry m i (e'\<lparr>fe_active := False\<rparr>), s)))))"

definition restore ::
  "'b backend_ops \<Rightarrow> string list \<Rightarrow> string \<Rightarrow> 'b freeze_state \<Rightarrow> unit result \<times> 'b freeze_state" where
  "restore ops sched i ms =
     (let op = ''FreezeManager::restore'' in
      case entry_of (fst ms) i of
        None \<Rightarrow> (failure (snapshot_missing op i), ms)
      | Some e \<Rightarrow>
          (case stop_worker ops sched i e ms of
             (m, s) \<Rightarrow>
               (case write_bytes ops s (fr_address (fe_request e)) (fe_original e) of
                  (Inl err, s') \<Rightarrow> (failure err, (m, s'))
                | (Inr n, s') \<Rightarrow>
                    (if n \<noteq> of_nat (length (fe_original e))
                     then (failure (make_error EC_partial_write
                             ''restored only a subset of the original bytes'' op
                             (fr_address (fe_request e)) n), (m, s'))
                     else (success (), (case entry_of m i of
                             None \<Rightarrow> (m, s')
                           | Some e' \<Rightarrow>
                               (put_entry m i (e'\<lparr>fe_restored := True, fe_active := False\<rparr>), s')))))))"

definition entry_status :: "freeze_entry \<Rightarrow> freeze_status" where
  "entry_status e = \<lparr>fs_id = fr_id (fe_request e), fs_address = fr_address (fe_request e),
     fs_size = fr_size (fe_request e), fs_value_u64 = fr_value_u64 (fe_request e),
     fs_successful_rewrites = fe_ok_count e, fs_failed_rewrites = fe_fail_count e,
     fs_original_value_u64 = bytes_to_u64 (fe_original e), fs_active = fe_active e,
     fs_restored = fe_restored e, fs_last_error = fe_last_error e\<rparr>"

definition freeze_status :: "freeze_manager \<Rightarrow> string \<Rightarrow> freeze_status result" where
  "freeze_status m i =
     (case entry_of m i of
        None \<Rightarrow> failure (snapshot_missing ''FreezeManager::status'' i)
      | Some e \<Rightarrow> success (entry_status e))"

definition all_status :: "freeze_manager \<Rightarrow> freeze_status list" where
  "all_status m = map (\<lambda>(i, e). entry_status e) (fm_entries m)"

text \<open>\<open>cancel_all\<close>: first every token is set, then the workers are joined one by one, the
  workers of \<open>sched i\<close> running while that of \<open>i\<close> is joined.\<close>

fun join_all ::
  "'b backend_ops \<Rightarrow> (string \<Rightarrow> string list) \<Rightarrow> string list \<Rightarrow> 'b freeze_state \<Rightarrow> 'b freeze_state" where
  "join_all ops sched [] ms = ms"
| "join_all ops sched (i # is) ms =
     join_all ops sched is
       (case entry_of (fst ms) i of
          None \<Rightarrow> ms
        | Some e \<Rightarrow> if fe_joinable e then join_worker ops (sched i) i ms else ms)"

definition cancel_all ::
  "'b backend_ops \<Rightarrow> (string \<Rightarrow> string list) \<Rightarrow> 'b freeze_state \<Rightarrow> 'b freeze_state" where
  "cancel_all ops sched ms =
     (let snapshot = map fst (fm_entries (fst ms)) in
      join_all ops sched snapshot
        ((fst ms)\<lparr>fm_entries := map (\<lambda>(i, e). (i, e\<lparr>fe_cancel := True, fe_active := False\<rparr>))
                                  (fm_entries (fst ms))\<rparr>, snd ms))"

definition active_count :: "freeze_manager \<Rightarrow> nat" where
  "active_count m = length [p \<leftarrow> fm_entries m. fe_active (snd p)]"

section \<open>Lemmas: the table\<close>

lemma entry_of_put [simp]: "entry_of (put_entry m i e) j = (if j = i then Some e else entry_of m j)"
  by (simp add: entry_of_def put_entry_def update_conv')

lemma attached_put [simp]: "fm_attached (put_entry m i e) = fm_attached m"
  by (simp add: put_entry_def)

text \<open>What a worker never changes of its entry.\<close>

definition entry_core :: "freeze_entry \<Rightarrow> freeze_request \<times> u8 list \<times> bool \<times> bool \<times> bool" where
  "entry_core e = (fe_request e, fe_original e, fe_joinable e, fe_cancel e, fe_restored e)"

lemma worker_step_core: "entry_core (fst (worker_step ops e s)) = entry_core e"
  by (auto simp: entry_core_def split: worker_pc.split prod.split sum.split)

lemma worker_turn_cases:
  obtains (idle) "worker_turn ops i ms = ms"
      "\<And>e. entry_of (fst ms) i = Some e \<Longrightarrow> \<not> fe_joinable e"
  | (ran) e e' s' where "entry_of (fst ms) i = Some e" "fe_joinable e"
      "worker_step ops e (snd ms) = (e', s')" "worker_turn ops i ms = (put_entry (fst ms) i e', s')"
proof (cases "entry_of (fst ms) i")
  case None
  then show ?thesis using idle by (simp add: worker_turn_def)
next
  case (Some e)
  then show ?thesis using idle ran
    by (cases "fe_joinable e"; cases "worker_step ops e (snd ms)")
      (simp_all add: worker_turn_def del: worker_step.simps)
qed

lemma worker_turn_core:
  "map_option entry_core (entry_of (fst (worker_turn ops i ms)) j) = map_option entry_core (entry_of (fst ms) j)"
proof (rule worker_turn_cases [of ops i ms])
  fix e e' s' assume ran: "worker_step ops e (snd ms) = (e', s')" "entry_of (fst ms) i = Some e"
    "worker_turn ops i ms = (put_entry (fst ms) i e', s')"
  then have "entry_core e' = entry_core e" using worker_step_core [of ops e "snd ms"] by simp
  then show ?thesis using ran by simp
qed simp

lemma run_turns_core:
  "map_option entry_core (entry_of (fst (run_turns ops sched ms)) j) = map_option entry_core (entry_of (fst ms) j)"
  by (induction sched arbitrary: ms) (simp_all add: worker_turn_core)

lemma run_turns_append: "run_turns ops (xs @ ys) ms = run_turns ops ys (run_turns ops xs ms)"
  by (induction xs arbitrary: ms) simp_all

lemma run_turns_entry:
  assumes "entry_of (fst ms) i = Some e"
  obtains e' where "entry_of (fst (run_turns ops sched ms)) i = Some e'" "entry_core e' = entry_core e"
  using run_turns_core [of ops sched ms i] assms by auto

lemma run_turns_none:
  "entry_of (fst (run_turns ops sched ms)) i = None \<longleftrightarrow> entry_of (fst ms) i = None"
  using run_turns_core [of ops sched ms i] by (metis map_option_is_None)

lemma attached_turns [simp]: "fm_attached (fst (run_turns ops sched ms)) = fm_attached (fst ms)"
proof (induction sched arbitrary: ms)
  case (Cons i rest)
  have "fm_attached (fst (worker_turn ops i ms)) = fm_attached (fst ms)"
    by (rule worker_turn_cases [of ops i ms]) simp_all
  then show ?case using Cons by simp
qed simp

text \<open>An entry whose thread has been joined is never touched again by any schedule.\<close>

lemma worker_turn_joined:
  "entry_of (fst ms) i = Some e \<Longrightarrow> \<not> fe_joinable e \<Longrightarrow> entry_of (fst (worker_turn ops j ms)) i = Some e"
  by (rule worker_turn_cases [of ops j ms]) auto

lemma run_turns_joined:
  "entry_of (fst ms) i = Some e \<Longrightarrow> \<not> fe_joinable e \<Longrightarrow> entry_of (fst (run_turns ops sched ms)) i = Some e"
  by (induction sched arbitrary: ms) (simp_all add: worker_turn_joined)

section \<open>Lemmas: joining a cancelled worker\<close>

fun steps_left :: "worker_pc \<Rightarrow> nat" where
  "steps_left W_exited = 0"
| "steps_left W_head = 1"
| "steps_left (W_sleep k) = 2"
| "steps_left W_write = 3"
| "steps_left W_alive = 4"

lemma worker_step_cancelled:
  "fe_cancel e \<Longrightarrow> steps_left (fe_pc (fst (worker_step ops e s))) \<le> steps_left (fe_pc e) - 1"
  by (auto split: worker_pc.split prod.split sum.split)

lemma cancelled_turns:
  assumes "entry_of (fst ms) i = Some e" "fe_joinable e" "fe_cancel e" "steps_left (fe_pc e) \<le> n"
  shows "\<exists>e'. entry_of (fst (run_turns ops (replicate n i) ms)) i = Some e' \<and> fe_pc e' = W_exited
    \<and> entry_core e' = entry_core e"
  using assms
proof (induction n arbitrary: ms e)
  case 0
  then show ?case by (cases "fe_pc e") auto
next
  case (Suc n)
  obtain e' s' where st: "worker_step ops e (snd ms) = (e', s')" by fastforce
  have core: "entry_core e' = entry_core e" using worker_step_core [of ops e "snd ms"] st by simp
  have "steps_left (fe_pc e') \<le> n"
    using worker_step_cancelled [OF Suc.prems(3), of ops "snd ms"] st Suc.prems(4) by simp
  moreover have "worker_turn ops i ms = (put_entry (fst ms) i e', s')"
    using Suc.prems st by (simp add: worker_turn_def del: worker_step.simps)
  ultimately show ?case
    using Suc.IH [of "(put_entry (fst ms) i e', s')" e'] core Suc.prems by (auto simp: entry_core_def)
qed

lemma steps_left_4: "steps_left pc \<le> 4"
  by (cases pc) auto

lemma join_exits:
  assumes "entry_of (fst ms) i = Some e" "fe_joinable e" "fe_cancel e"
  obtains e' where "entry_of (fst (join_worker ops sched i ms)) i = Some e'" "fe_pc e' = W_exited"
    "entry_core e' = entry_core (e\<lparr>fe_joinable := False\<rparr>)"
proof -
  obtain e1 where e1: "entry_of (fst (run_turns ops sched ms)) i = Some e1" "entry_core e1 = entry_core e"
    using run_turns_entry [OF assms(1)] by metis
  then have "fe_joinable e1" "fe_cancel e1" using assms by (auto simp: entry_core_def)
  then obtain e2 where "entry_of (fst (run_turns ops (sched @ replicate 4 i) ms)) i = Some e2"
    "fe_pc e2 = W_exited" "entry_core e2 = entry_core e"
    using cancelled_turns [OF e1(1) _ _ steps_left_4, of ops] e1(2) unfolding run_turns_append by metis
  then have "entry_of (fst (join_worker ops sched i ms)) i = Some (e2\<lparr>fe_joinable := False\<rparr>)"
    and "entry_core (e2\<lparr>fe_joinable := False\<rparr>) = entry_core (e\<lparr>fe_joinable := False\<rparr>)"
    by (simp_all add: join_worker_def entry_core_def split_beta)
  then show ?thesis using that \<open>fe_pc e2 = W_exited\<close> by simp
qed

lemma join_other:
  assumes "j \<noteq> i"
  shows "map_option entry_core (entry_of (fst (join_worker ops sched i ms)) j)
       = map_option entry_core (entry_of (fst ms) j)"
  using assms run_turns_core [of ops "sched @ replicate 4 i" ms j]
  by (auto simp: join_worker_def split: prod.split option.split)

lemma stop_worker_entry:
  assumes "entry_of (fst ms) i = Some e"
  obtains e' where "entry_of (fst (stop_worker ops sched i e ms)) i = Some e'" "\<not> fe_joinable e'"
    "fe_request e' = fe_request e" "fe_original e' = fe_original e"
proof (cases "fe_joinable e")
  case False
  then show ?thesis using that [of e] assms by (simp add: stop_worker_def)
next
  case True
  obtain e' where "entry_of (fst (join_worker ops sched i
      (put_entry (fst ms) i (e\<lparr>fe_cancel := True\<rparr>), snd ms))) i = Some e'" "fe_pc e' = W_exited"
    "entry_core e' = entry_core (e\<lparr>fe_cancel := True, fe_joinable := False\<rparr>)"
    using join_exits [of "(put_entry (fst ms) i (e\<lparr>fe_cancel := True\<rparr>), snd ms)" i
        "e\<lparr>fe_cancel := True\<rparr>" ops sched] True by auto
  then show ?thesis using that True by (simp add: stop_worker_def entry_core_def)
qed

section \<open>Lemmas: an invariant of the entries\<close>

text \<open>A property of entries that worker steps keep is kept by every schedule.\<close>

definition all_entries :: "(string \<Rightarrow> freeze_entry \<Rightarrow> bool) \<Rightarrow> freeze_manager \<Rightarrow> bool" where
  "all_entries P m \<longleftrightarrow> distinct (map fst (fm_entries m)) \<and> (\<forall>i e. entry_of m i = Some e \<longrightarrow> P i e)"

lemma all_entriesD: "all_entries P m \<Longrightarrow> entry_of m i = Some e \<Longrightarrow> P i e"
  by (simp add: all_entries_def)

lemma all_entries_put: "all_entries P m \<Longrightarrow> P i e \<Longrightarrow> all_entries P (put_entry m i e)"
  by (simp add: all_entries_def put_entry_def distinct_update)
    (simp add: entry_of_def update_conv')

lemma all_entries_turns:
  assumes step: "\<And>i e s. P i e \<Longrightarrow> fe_joinable e \<Longrightarrow> P i (fst (worker_step ops e s))"
    and "all_entries P (fst ms)"
  shows "all_entries P (fst (run_turns ops sched ms))"
  using assms(2)
proof (induction sched arbitrary: ms)
  case (Cons i rest)
  have "all_entries P (fst (worker_turn ops i ms))"
  proof (rule worker_turn_cases [of ops i ms])
    fix e e' s' assume "entry_of (fst ms) i = Some e" "fe_joinable e"
      "worker_step ops e (snd ms) = (e', s')" "worker_turn ops i ms = (put_entry (fst ms) i e', s')"
    then show ?thesis using step [of i e "snd ms"] Cons.prems by (simp add: all_entriesD all_entries_put)
  qed (use Cons.prems in simp)
  then show ?case using Cons.IH by simp
qed simp

lemma all_entries_join:
  assumes step: "\<And>i e s. P i e \<Longrightarrow> fe_joinable e \<Longrightarrow> P i (fst (worker_step ops e s))"
    and join: "\<And>i e. P i e \<Longrightarrow> fe_joinable e \<Longrightarrow> fe_pc e = W_exited \<Longrightarrow> P i (e\<lparr>fe_joinable := False\<rparr>)"
    and all: "all_entries P (fst ms)"
    and e: "entry_of (fst ms) i = Some e" "fe_joinable e" "fe_cancel e"
  shows "all_entries P (fst (join_worker ops sched i ms))"
proof -
  define ms' where "ms' = run_turns ops (sched @ replicate 4 i) ms"
  have all': "all_entries P (fst ms')" unfolding ms'_def by (rule all_entries_turns [OF step all])
  obtain e1 where e1: "entry_of (fst ms') i = Some e1" "entry_core e1 = entry_core e"
    using run_turns_entry [OF e(1)] unfolding ms'_def by metis
  have j: "join_worker ops sched i ms = (put_entry (fst ms') i (e1\<lparr>fe_joinable := False\<rparr>), snd ms')"
    using e1 by (simp add: join_worker_def ms'_def [symmetric] split_beta)
  obtain e2 where "entry_of (fst (join_worker ops sched i ms)) i = Some e2" "fe_pc e2 = W_exited"
    using join_exits [OF e] by metis
  then have "fe_pc e1 = W_exited" using j by auto
  then show ?thesis
    using j e1 e all' join [of i e1] by (simp add: all_entries_put all_entriesD entry_core_def)
qed

definition entry_ok :: "string \<Rightarrow> freeze_entry \<Rightarrow> bool" where
  "entry_ok i e \<longleftrightarrow> fr_id (fe_request e) = i \<and> i \<noteq> [] \<and> fr_address (fe_request e) \<noteq> 0
     \<and> 0 < unat (fr_size (fe_request e)) \<and> unat (fr_size (fe_request e)) \<le> 8
     \<and> length (fe_original e) = unat (fr_size (fe_request e)) \<and> 1 \<le> fr_interval (fe_request e)
     \<and> (\<not> fe_joinable e \<longrightarrow> fe_pc e = W_exited)
     \<and> (fe_joinable e \<and> fe_pc e = W_exited \<longrightarrow> fe_cancel e \<or> \<not> fe_active e)
     \<and> (fe_restored e \<longrightarrow> \<not> fe_joinable e \<and> \<not> fe_active e)"

abbreviation fm_wf :: "freeze_manager \<Rightarrow> bool" where
  "fm_wf m \<equiv> all_entries entry_ok m"

lemma entry_ok_step: "entry_ok i e \<Longrightarrow> fe_joinable e \<Longrightarrow> entry_ok i (fst (worker_step ops e s))"
  by (cases "fe_pc e") (auto simp: entry_ok_def split: prod.split sum.split)

lemma entry_ok_joined:
  "entry_ok i e \<Longrightarrow> fe_joinable e \<Longrightarrow> fe_pc e = W_exited \<Longrightarrow> entry_ok i (e\<lparr>fe_joinable := False\<rparr>)"
  by (simp add: entry_ok_def)

lemma entry_ok_turns: "fm_wf (fst ms) \<Longrightarrow> fm_wf (fst (run_turns ops sched ms))"
  by (rule all_entries_turns) (simp_all add: entry_ok_step del: worker_step.simps)

lemma entry_ok_join:
  "fm_wf (fst ms) \<Longrightarrow> entry_of (fst ms) i = Some e \<Longrightarrow> fe_joinable e \<Longrightarrow> fe_cancel e \<Longrightarrow>
     fm_wf (fst (join_worker ops sched i ms))"
  by (rule all_entries_join) (simp_all add: entry_ok_step entry_ok_joined del: worker_step.simps)

lemma stop_worker_wf:
  assumes "fm_wf (fst ms)" and "entry_of (fst ms) i = Some e"
  shows "fm_wf (fst (stop_worker ops sched i e ms))"
proof (cases "fe_joinable e")
  case True
  have "entry_ok i (e\<lparr>fe_cancel := True\<rparr>)"
    using all_entriesD [OF assms] by (simp add: entry_ok_def)
  then have "fm_wf (fst (put_entry (fst ms) i (e\<lparr>fe_cancel := True\<rparr>), snd ms))"
    using assms(1) by (simp add: all_entries_put)
  from entry_ok_join [OF this, of i "e\<lparr>fe_cancel := True\<rparr>"] True show ?thesis
    by (simp add: stop_worker_def)
qed (use assms in \<open>simp add: stop_worker_def\<close>)

section \<open>Lemmas: the operations\<close>

definition effective_request :: "freeze_request \<Rightarrow> freeze_request" where
  "effective_request r0 =
     (let r = (if fr_size r0 = 0 then r0\<lparr>fr_size := size_for_type (fr_type_name r0)\<rparr> else r0)
      in if fr_interval r < 1 then r\<lparr>fr_interval := 50\<rparr> else r)"

lemma effective_request_sel [simp]:
  "fr_id (effective_request r) = fr_id r" "fr_address (effective_request r) = fr_address r"
  "fr_value_u64 (effective_request r) = fr_value_u64 r" "1 \<le> fr_interval (effective_request r)"
  by (simp_all add: effective_request_def Let_def)

definition started_entry :: "freeze_request \<Rightarrow> u8 list \<Rightarrow> freeze_entry" where
  "started_entry r bs = new_entry r bs\<lparr>fe_joinable := True, fe_pc := W_head\<rparr>"

definition admissible_freeze :: "freeze_manager \<Rightarrow> freeze_request \<Rightarrow> bool" where
  "admissible_freeze m r0 \<longleftrightarrow> fm_attached m \<and> fr_address r0 \<noteq> 0 \<and> fr_id r0 \<noteq> []
     \<and> 0 < unat (fr_size (effective_request r0)) \<and> unat (fr_size (effective_request r0)) \<le> 8
     \<and> entry_of m (fr_id r0) = None"

lemma read_bytes_length: "read_bytes ops s a n = (Inr bs, s') \<Longrightarrow> length bs = unat n"
  by (auto simp: read_bytes_def Let_def split: sum.splits outcome.splits prod.splits if_splits)

lemma freeze_cases:
  obtains
    (rejected) err s' where "freeze ops spawn r0 ms = (Inl err, (fst ms, s'))"
      "s' = snd ms \<or> s' = snd (read_bytes ops (snd ms) (fr_address r0) (fr_size (effective_request r0)))"
  | (unspawned) err bs s' s'' where "freeze ops spawn r0 ms =
        (Inl err, (put_entry (fst ms) (fr_id r0) (new_entry (effective_request r0) bs), s''))"
      "admissible_freeze (fst ms) r0"
      "read_bytes ops (snd ms) (fr_address r0) (fr_size (effective_request r0)) = (Inr bs, s')"
      "ses_backend s'' = ses_backend s'"
  | (started) bs s' s'' where "freeze ops spawn r0 ms =
        (Inr (), (put_entry (fst ms) (fr_id r0) (started_entry (effective_request r0) bs), s''))"
      "spawn = None" "admissible_freeze (fst ms) r0"
      "read_bytes ops (snd ms) (fr_address r0) (fr_size (effective_request r0)) = (Inr bs, s')"
      "ses_backend s'' = ses_backend s'"
proof (cases "admissible_freeze (fst ms) r0")
  case False
  obtain m s where ms: "ms = (m, s)" by fastforce
  define r where "r = effective_request r0"
  have "fr_size r = (if fr_size r0 = 0 then size_for_type (fr_type_name r0) else fr_size r0)"
    by (simp add: r_def effective_request_def Let_def)
  then have "\<exists>err. freeze ops spawn r0 ms = (Inl err, (fst ms, snd ms))"
    using False by (auto simp: ms freeze_def admissible_freeze_def Let_def invalid_address_def
        r_def [symmetric] word_less_nat_alt unat_eq_0)
  then obtain err where "freeze ops spawn r0 ms = (Inl err, (fst ms, snd ms))" ..
  then show ?thesis using rejected by blast
next
  case True
  obtain m s where ms: "ms = (m, s)" by fastforce
  obtain rr s' where rd: "read_bytes ops s (fr_address r0) (fr_size (effective_request r0)) = (rr, s')"
    by fastforce
  have sz: "\<not> (fr_size (effective_request r0) = 0 \<or> fr_size (effective_request r0) > 8)"
    using True by (auto simp: admissible_freeze_def word_less_nat_alt unat_eq_0)
  show ?thesis
  proof (cases rr)
    case (Inl e)
    have "\<exists>err. freeze ops spawn r0 ms = (Inl err, (m, s'))"
      using True rd sz Inl by (auto simp: ms freeze_def admissible_freeze_def Let_def invalid_address_def
          effective_request_def)
    then show ?thesis using rejected ms rd by auto
  next
    case (Inr bs)
    show ?thesis
    proof (cases spawn)
      case None
      have "\<exists>s''. freeze ops spawn r0 ms =
          (Inr (), (put_entry m (fr_id r0) (started_entry (effective_request r0) bs), s''))
          \<and> ses_backend s'' = ses_backend s'"
        using True rd sz Inr None by (auto simp: ms freeze_def admissible_freeze_def Let_def
            invalid_address_def effective_request_def started_entry_def)
      then show ?thesis using started None True rd Inr ms by auto
    next
      case (Some w)
      have "\<exists>err s''. freeze ops spawn r0 ms =
          (Inl err, (put_entry m (fr_id r0) (new_entry (effective_request r0) bs), s''))
          \<and> ses_backend s'' = ses_backend s'"
        using True rd sz Inr Some by (auto simp: ms freeze_def admissible_freeze_def Let_def
            invalid_address_def effective_request_def)
      then show ?thesis using unspawned True rd Inr ms by auto
    qed
  qed
qed

text \<open>The addresses a running worker may write.\<close>

definition entry_range :: "freeze_entry \<Rightarrow> address set" where
  "entry_range e = addr_range (fr_address (fe_request e)) (unat (fr_size (fe_request e)))"

definition live_ranges :: "freeze_manager \<Rightarrow> address set" where
  "live_ranges m = \<Union> {entry_range e |i e. entry_of m i = Some e \<and> fe_joinable e}"

lemma live_ranges_mono:
  assumes "\<And>i e. entry_of m i = Some e \<Longrightarrow> fe_joinable e \<Longrightarrow>
    \<exists>e'. entry_of m' i = Some e' \<and> fe_joinable e' \<and> fe_request e' = fe_request e"
  shows "live_ranges m \<subseteq> live_ranges m'"
proof
  fix x assume "x \<in> live_ranges m"
  then obtain i e where "entry_of m i = Some e" "fe_joinable e" "x \<in> entry_range e"
    by (auto simp: live_ranges_def)
  moreover from assms [OF this(1,2)] obtain e' where
    "entry_of m' i = Some e'" "fe_joinable e'" "fe_request e' = fe_request e" by blast
  moreover from this have "entry_range e' = entry_range e" by (simp add: entry_range_def)
  ultimately show "x \<in> live_ranges m'" unfolding live_ranges_def by blast
qed

lemma live_ranges_core:
  assumes "\<And>j. map_option entry_core (entry_of m j) = map_option entry_core (entry_of m' j)"
  shows "live_ranges m = live_ranges m'"
proof (intro subset_antisym live_ranges_mono)
  fix i e assume "entry_of m i = Some e" "fe_joinable e"
  then show "\<exists>e'. entry_of m' i = Some e' \<and> fe_joinable e' \<and> fe_request e' = fe_request e"
    using assms [of i] by (cases "entry_of m' i") (auto simp: entry_core_def)
next
  fix i e assume "entry_of m' i = Some e" "fe_joinable e"
  then show "\<exists>e'. entry_of m i = Some e' \<and> fe_joinable e' \<and> fe_request e' = fe_request e"
    using assms [of i] by (cases "entry_of m i") (auto simp: entry_core_def)
qed

lemma live_ranges_turns [simp]: "live_ranges (fst (run_turns ops sched ms)) = live_ranges (fst ms)"
  by (rule live_ranges_core) (rule run_turns_core)

lemma live_ranges_cancel:
  "entry_of m i = Some e \<Longrightarrow> live_ranges (put_entry m i (e\<lparr>fe_cancel := True\<rparr>)) = live_ranges m"
  by (intro subset_antisym live_ranges_mono) (auto split: if_splits)

context memory_backend
begin

lemma worker_step_outside:
  assumes "x \<notin> entry_range e"
  shows "smem (snd (worker_step ops e s)) x = smem s x"
proof (cases "fe_pc e")
  case W_write
  have "smem (snd (write_bytes ops s (fr_address (fe_request e)) (frozen_bytes e))) x = smem s x"
    using assms by (intro write_bytes_outside) (simp_all add: frozen_bytes_def entry_range_def)
  then show ?thesis using W_write by (auto split: prod.split sum.split)
qed auto

lemma run_turns_outside:
  "x \<notin> live_ranges (fst ms) \<Longrightarrow> smem (snd (run_turns ops sched ms)) x = smem (snd ms) x"
proof (induction sched arbitrary: ms)
  case (Cons i rest)
  have "smem (snd (worker_turn ops i ms)) x = smem (snd ms) x"
  proof (rule worker_turn_cases [of ops i ms])
    fix e e' s' assume r: "entry_of (fst ms) i = Some e" "fe_joinable e"
      "worker_step ops e (snd ms) = (e', s')" "worker_turn ops i ms = (put_entry (fst ms) i e', s')"
    then have "x \<notin> entry_range e" using Cons.prems by (auto simp: live_ranges_def)
    from worker_step_outside [OF this, of "snd ms"] r show ?thesis by simp
  qed simp
  moreover have "live_ranges (fst (worker_turn ops i ms)) = live_ranges (fst ms)"
    by (rule live_ranges_core) (rule worker_turn_core)
  ultimately show ?case using Cons by simp
qed simp

lemma stop_worker_outside:
  assumes "x \<notin> live_ranges (fst ms)" "entry_of (fst ms) i = Some e"
  shows "smem (snd (stop_worker ops sched i e ms)) x = smem (snd ms) x"
  using run_turns_outside [of x "(put_entry (fst ms) i (e\<lparr>fe_cancel := True\<rparr>), snd ms)"
      "sched @ replicate 4 i"] assms
  by (auto simp: stop_worker_def join_worker_def live_ranges_cancel split: prod.split option.split)

end

section \<open>Lemmas: stopping everything\<close>

definition entry_cancelled :: "string \<Rightarrow> freeze_entry \<Rightarrow> bool" where
  "entry_cancelled i e \<longleftrightarrow> entry_ok i e \<and> (fe_joinable e \<longrightarrow> fe_cancel e) \<and> \<not> fe_active e"

lemma entry_cancelled_step:
  "entry_cancelled i e \<Longrightarrow> fe_joinable e \<Longrightarrow> entry_cancelled i (fst (worker_step ops e s))"
  using entry_ok_step [of i e ops s]
  by (auto simp: entry_cancelled_def split: worker_pc.split prod.split sum.split)

lemma entry_cancelled_joined:
  "entry_cancelled i e \<Longrightarrow> fe_joinable e \<Longrightarrow> fe_pc e = W_exited \<Longrightarrow>
     entry_cancelled i (e\<lparr>fe_joinable := False\<rparr>)"
  by (simp add: entry_cancelled_def entry_ok_def)

lemma join_all_stops:
  assumes "all_entries entry_cancelled (fst ms)"
  shows "all_entries entry_cancelled (fst (join_all ops sched ids ms)) \<and>
    (\<forall>i e. entry_of (fst (join_all ops sched ids ms)) i = Some e \<longrightarrow> fe_joinable e \<longrightarrow>
       i \<notin> set ids \<and> (\<exists>e0. entry_of (fst ms) i = Some e0 \<and> fe_joinable e0))"
  using assms
proof (induction ids arbitrary: ms)
  case (Cons i rest)
  define ms1 where "ms1 = (case entry_of (fst ms) i of None \<Rightarrow> ms
    | Some e \<Rightarrow> if fe_joinable e then join_worker ops (sched i) i ms else ms)"
  have eq: "join_all ops sched (i # rest) ms = join_all ops sched rest ms1" by (simp add: ms1_def)
  have 1: "all_entries entry_cancelled (fst ms1) \<and>
    (\<forall>j e. entry_of (fst ms1) j = Some e \<longrightarrow> fe_joinable e \<longrightarrow>
       j \<noteq> i \<and> (\<exists>e0. entry_of (fst ms) j = Some e0 \<and> fe_joinable e0))"
  proof (cases "\<exists>e. entry_of (fst ms) i = Some e \<and> fe_joinable e")
    case True
    then obtain e where e: "entry_of (fst ms) i = Some e" "fe_joinable e" by blast
    then have c: "fe_cancel e" using all_entriesD [OF Cons.prems e(1)] by (simp add: entry_cancelled_def)
    have ms1: "ms1 = join_worker ops (sched i) i ms" using e by (simp add: ms1_def)
    have "all_entries entry_cancelled (fst ms1)" unfolding ms1
      by (rule all_entries_join [OF entry_cancelled_step entry_cancelled_joined Cons.prems e c])
    moreover have "j \<noteq> i \<and> (\<exists>e0. entry_of (fst ms) j = Some e0 \<and> fe_joinable e0)"
      if "entry_of (fst ms1) j = Some e'" "fe_joinable e'" for j e'
    proof
      obtain e2 where "entry_of (fst ms1) i = Some e2" "entry_core e2 = entry_core (e\<lparr>fe_joinable := False\<rparr>)"
        using join_exits [OF e c, of ops "sched i"] unfolding ms1 by metis
      then show "j \<noteq> i" using that by (auto simp: entry_core_def)
      then show "\<exists>e0. entry_of (fst ms) j = Some e0 \<and> fe_joinable e0"
        using join_other [of j i ops "sched i" ms] that unfolding ms1
        by (cases "entry_of (fst ms) j") (auto simp: entry_core_def)
    qed
    ultimately show ?thesis by blast
  next
    case False
    then have "ms1 = ms" by (auto simp: ms1_def split: option.split)
    then show ?thesis using False Cons.prems by auto
  qed
  show ?case
  proof (intro conjI allI impI)
    have 2: "all_entries entry_cancelled (fst ms1)" using 1 by blast
    note IH = Cons.IH [OF 2]
    show "all_entries entry_cancelled (fst (join_all ops sched (i # rest) ms))"
      using IH unfolding eq by blast
    fix j e assume "entry_of (fst (join_all ops sched (i # rest) ms)) j = Some e" "fe_joinable e"
    then obtain e1 where "j \<notin> set rest" "entry_of (fst ms1) j = Some e1" "fe_joinable e1"
      using IH unfolding eq by blast
    then show "j \<notin> set (i # rest)" "\<exists>e0. entry_of (fst ms) j = Some e0 \<and> fe_joinable e0"
      using 1 by auto
  qed
qed auto

lemma cancel_all_entries:
  assumes "fm_wf (fst ms)"
  shows "all_entries (\<lambda>i e. entry_cancelled i e \<and> \<not> fe_joinable e) (fst (cancel_all ops sched ms))"
proof -
  let ?f = "\<lambda>(i :: string, e). (i, e\<lparr>fe_cancel := True, fe_active := False\<rparr>)"
  define ms1 where "ms1 = ((fst ms)\<lparr>fm_entries := map ?f (fm_entries (fst ms))\<rparr>, snd ms)"
  have e1: "entry_of (fst ms1) i
      = map_option (\<lambda>e. e\<lparr>fe_cancel := True, fe_active := False\<rparr>) (entry_of (fst ms) i)" for i
    by (simp add: entry_of_def ms1_def map_of_map)
  have "all_entries entry_cancelled (fst ms1)"
    using assms unfolding all_entries_def e1
    by (auto simp: ms1_def comp_def split_beta entry_cancelled_def entry_ok_def)
  note j = join_all_stops [OF this, of ops sched "map fst (fm_entries (fst ms))"]
  have eq: "cancel_all ops sched ms = join_all ops sched (map fst (fm_entries (fst ms))) ms1"
    by (simp add: cancel_all_def ms1_def)
  have "\<not> fe_joinable e" if "entry_of (fst (cancel_all ops sched ms)) i = Some e" for i e
  proof
    assume "fe_joinable e"
    with j that [unfolded eq] obtain e0 where "i \<notin> set (map fst (fm_entries (fst ms)))"
      "entry_of (fst ms1) i = Some e0" by metis
    then show False using e1 [of i] by (simp add: entry_of_def map_of_eq_None_iff [symmetric])
  qed
  then show ?thesis using j eq by (simp add: all_entries_def)
qed

section \<open>The system: manager calls and workers interleaved\<close>

text \<open>
  The states a process can reach: calls of the manager, turns of workers, and anything other
  clients do to the shared session, in any order.
\<close>

inductive freeze_reach :: "'b backend_ops \<Rightarrow> 'b freeze_state \<Rightarrow> bool" for ops where
  init: "freeze_reach ops (FreezeManager_new attached, s)"
| client: "freeze_reach ops (m, s) \<Longrightarrow> freeze_reach ops (m, s')"
| turn: "freeze_reach ops ms \<Longrightarrow> freeze_reach ops (worker_turn ops i ms)"
| call_freeze: "freeze_reach ops ms \<Longrightarrow> freeze_reach ops (snd (freeze ops spawn r ms))"
| call_unfreeze: "freeze_reach ops ms \<Longrightarrow> freeze_reach ops (snd (unfreeze ops sched i ms))"
| call_restore: "freeze_reach ops ms \<Longrightarrow> freeze_reach ops (snd (restore ops sched i ms))"
| call_cancel: "freeze_reach ops ms \<Longrightarrow> freeze_reach ops (cancel_all ops scheds ms)"

lemma freeze_wf:
  assumes wf: "fm_wf (fst ms)"
  shows "fm_wf (fst (snd (freeze ops spawn r0 ms)))"
proof (rule freeze_cases [of ops spawn r0 ms])
  fix err bs s' s'' assume "freeze ops spawn r0 ms =
      (Inl err, (put_entry (fst ms) (fr_id r0) (new_entry (effective_request r0) bs), s''))"
    "admissible_freeze (fst ms) r0"
    "read_bytes ops (snd ms) (fr_address r0) (fr_size (effective_request r0)) = (Inr bs, s')"
  moreover from this have "entry_ok (fr_id r0) (new_entry (effective_request r0) bs)"
    by (auto simp: entry_ok_def new_entry_def admissible_freeze_def dest: read_bytes_length)
  ultimately show ?thesis using wf by (simp add: all_entries_put)
next
  fix bs s' s'' assume "freeze ops spawn r0 ms =
      (Inr (), (put_entry (fst ms) (fr_id r0) (started_entry (effective_request r0) bs), s''))"
    "admissible_freeze (fst ms) r0"
    "read_bytes ops (snd ms) (fr_address r0) (fr_size (effective_request r0)) = (Inr bs, s')"
  moreover from this have "entry_ok (fr_id r0) (started_entry (effective_request r0) bs)"
    by (auto simp: entry_ok_def started_entry_def new_entry_def admissible_freeze_def dest: read_bytes_length)
  ultimately show ?thesis using wf by (simp add: all_entries_put)
qed (use wf in simp)

lemma entry_ok_inactive: "entry_ok i e \<Longrightarrow> entry_ok i (e\<lparr>fe_active := False\<rparr>)"
  by (simp add: entry_ok_def)

lemma unfreeze_eq:
  assumes "entry_of (fst ms) i = Some e"
  obtains e' where "unfreeze ops sched i ms =
      (Inr (), (put_entry (fst (stop_worker ops sched i e ms)) i (e'\<lparr>fe_active := False\<rparr>),
                snd (stop_worker ops sched i e ms)))"
    "entry_of (fst (stop_worker ops sched i e ms)) i = Some e'" "\<not> fe_joinable e'"
    "fe_request e' = fe_request e" "fe_original e' = fe_original e"
proof -
  obtain e' where "entry_of (fst (stop_worker ops sched i e ms)) i = Some e'" "\<not> fe_joinable e'"
    "fe_request e' = fe_request e" "fe_original e' = fe_original e"
    by (rule stop_worker_entry [OF assms])
  then show ?thesis using that assms by (simp add: unfreeze_def split_beta)
qed

lemma unfreeze_wf:
  assumes wf: "fm_wf (fst ms)"
  shows "fm_wf (fst (snd (unfreeze ops sched i ms)))"
proof (cases "entry_of (fst ms) i")
  case None
  then show ?thesis using wf by (simp add: unfreeze_def)
next
  case (Some e)
  note stop = stop_worker_wf [OF wf Some, of ops sched]
  show ?thesis
    by (rule unfreeze_eq [OF Some, of ops sched])
      (simp add: all_entries_put stop entry_ok_inactive all_entriesD [OF stop])
qed

lemma restore_wf:
  assumes wf: "fm_wf (fst ms)"
  shows "fm_wf (fst (snd (restore ops sched i ms)))"
proof (cases "entry_of (fst ms) i")
  case None
  then show ?thesis using wf by (simp add: restore_def)
next
  case (Some e)
  note stop = stop_worker_wf [OF wf Some, of ops sched]
  obtain e' where e': "entry_of (fst (stop_worker ops sched i e ms)) i = Some e'" "\<not> fe_joinable e'"
    by (rule stop_worker_entry [OF Some])
  have "entry_ok i (e'\<lparr>fe_restored := True, fe_active := False\<rparr>)"
    using all_entriesD [OF stop e'(1)] e'(2) by (simp add: entry_ok_def)
  then show ?thesis using Some stop e'
    by (auto simp: restore_def Let_def all_entries_put split: prod.split sum.split)
qed

lemma cancel_all_wf:
  assumes "fm_wf (fst ms)"
  shows "fm_wf (fst (cancel_all ops scheds ms))"
  using cancel_all_entries [OF assms, of ops scheds]
  by (auto simp: all_entries_def entry_cancelled_def)

context writable_backend
begin

lemma stop_then_write:
  assumes e: "entry_of (fst ms) i = Some e" and v: "valid_request (fr_address (fe_request e)) (length (fe_original e))"
  obtains e' where
    "restore ops sched i ms = (Inr (),
       (put_entry (fst (stop_worker ops sched i e ms)) i (e'\<lparr>fe_restored := True, fe_active := False\<rparr>),
        snd (write_bytes ops (snd (stop_worker ops sched i e ms)) (fr_address (fe_request e)) (fe_original e))))"
    "\<not> fe_joinable e'" "fe_request e' = fe_request e" "fe_original e' = fe_original e"
proof -
  obtain e' where e': "entry_of (fst (stop_worker ops sched i e ms)) i = Some e'" "\<not> fe_joinable e'"
    "fe_request e' = fe_request e" "fe_original e' = fe_original e"
    by (rule stop_worker_entry [OF e])
  let ?s = "snd (stop_worker ops sched i e ms)"
  have "fst (write_bytes ops ?s (fr_address (fe_request e)) (fe_original e)) = Inr (of_nat (length (fe_original e)))"
    by (rule write_bytes_ok(1) [OF v])
  then obtain s' where "write_bytes ops ?s (fr_address (fe_request e)) (fe_original e)
      = (Inr (of_nat (length (fe_original e))), s')" by (metis prod.collapse)
  then show ?thesis using that [of e'] e e' by (simp add: restore_def Let_def split_beta)
qed

lemma restore_memory:
  assumes e: "entry_of (fst ms) i = Some e" and v: "valid_request (fr_address (fe_request e)) (length (fe_original e))"
  shows "smem (snd (snd (restore ops sched i ms)))
       = mem_store (smem (snd (stop_worker ops sched i e ms))) (fr_address (fe_request e)) (fe_original e)"
  by (rule stop_then_write [OF e v, of sched]) (simp add: write_bytes_ok(2) [OF v])

text \<open>After a successful freeze, any schedule and a restore, memory is as before.\<close>

lemma freeze_restore:
  assumes fz: "freeze ops spawn r ms = (Inr (), ms1)"
  shows "fst (restore ops sched2 (fr_id r) (run_turns ops sched1 ms1)) = Inr ()"
    and "x \<notin> live_ranges (fst ms) \<Longrightarrow>
      smem (snd (snd (restore ops sched2 (fr_id r) (run_turns ops sched1 ms1)))) x = smem (snd ms) x"
proof -
  let ?a = "fr_address r" and ?n = "unat (fr_size (effective_request r))" and ?i = "fr_id r"
  obtain bs s' s'' where st: "ms1 = (put_entry (fst ms) ?i (started_entry (effective_request r) bs), s'')"
    and none: "entry_of (fst ms) ?i = None"
    and rd: "read_bytes ops (snd ms) ?a (fr_size (effective_request r)) = (Inr bs, s')"
    and s'': "ses_backend s'' = ses_backend s'"
    by (rule freeze_cases [of ops spawn r ms]) (use fz in \<open>auto simp: admissible_freeze_def\<close>)
  have ok: "valid_request ?a ?n" "mem_slice (smem (snd ms)) ?a ?n = Some bs"
    using read_bytes_ok_iff [of "snd ms" ?a "fr_size (effective_request r)" bs] rd by auto
  have len: "length bs = ?n" using ok(2) by (rule mem_slice_length)
  have mem1: "smem (snd ms1) = smem (snd ms)"
    using read_bytes_mem [of "snd ms" ?a "fr_size (effective_request r)"] rd s'' st by simp
  define ms2 where "ms2 = run_turns ops sched1 ms1"
  have "entry_of (fst ms1) ?i = Some (started_entry (effective_request r) bs)" using st by simp
  then obtain e where e: "entry_of (fst ms2) ?i = Some e"
    "entry_core e = entry_core (started_entry (effective_request r) bs)"
    unfolding ms2_def by (rule run_turns_entry)
  then have er: "fe_request e = effective_request r" "fe_original e = bs"
    by (simp_all add: entry_core_def started_entry_def new_entry_def)
  have v: "valid_request (fr_address (fe_request e)) (length (fe_original e))" using ok(1) er len by simp
  show "fst (restore ops sched2 ?i (run_turns ops sched1 ms1)) = Inr ()"
    by (rule stop_then_write [OF e(1) v, of sched2]) (simp add: ms2_def)
  have final: "smem (snd (snd (restore ops sched2 ?i ms2)))
      = mem_store (smem (snd (stop_worker ops sched2 ?i e ms2))) ?a bs"
    using restore_memory [OF e(1) v, of sched2] er by simp
  show "smem (snd (snd (restore ops sched2 ?i (run_turns ops sched1 ms1)))) x = smem (snd ms) x"
    if x: "x \<notin> live_ranges (fst ms)"
  proof (cases "x \<in> addr_range ?a ?n")
    case True
    then obtain k where k: "k < ?n" "x = ?a + of_nat k" by (auto simp: addr_range_def)
    have "length bs \<le> 2 ^ 64" using ok(1) len by (simp add: valid_request_def)
    from mem_slice_store [OF this, of "smem (snd (stop_worker ops sched2 ?i e ms2))" ?a] k len
    have "mem_store (smem (snd (stop_worker ops sched2 ?i e ms2))) ?a bs x = Some (bs ! k)"
      by (simp add: mem_slice_Some_iff)
    moreover have "smem (snd ms) x = Some (bs ! k)" using ok(2) k by (simp add: mem_slice_Some_iff)
    ultimately show ?thesis using final by (simp add: ms2_def)
  next
    case False
    have "live_ranges (fst ms1) \<subseteq> live_ranges (fst ms) \<union> addr_range ?a ?n"
      by (auto simp: live_ranges_def st started_entry_def new_entry_def entry_range_def split: if_splits)
    then have live: "x \<notin> live_ranges (fst ms1)" using x False by blast
    have "smem (snd ms2) x = smem (snd ms1) x" unfolding ms2_def by (rule run_turns_outside [OF live])
    moreover have "smem (snd (stop_worker ops sched2 ?i e ms2)) x = smem (snd ms2) x"
      by (rule stop_worker_outside [OF _ e(1)]) (use live in \<open>simp add: ms2_def\<close>)
    ultimately show ?thesis using final False len mem1 by (simp add: ms2_def mem_store_other)
  qed
qed

text \<open>One round of a running worker puts the frozen value in place.\<close>

lemma worker_round:
  assumes e: "entry_of (fst ms) i = Some e" "fe_joinable e" "fe_pc e = W_head" "\<not> fe_cancel e" "fe_active e"
    and alive: "be_is_alive ops (ses_backend (snd ms))"
    and v: "valid_request (fr_address (fe_request e)) (unat (fr_size (fe_request e)))"
  shows "run_turns ops [i, i, i] ms =
     (put_entry (put_entry (put_entry (fst ms) i (e\<lparr>fe_pc := W_alive\<rparr>)) i (e\<lparr>fe_pc := W_write\<rparr>)) i
        (e\<lparr>fe_ok_count := fe_ok_count e + 1, fe_pc := W_sleep 0\<rparr>),
      snd (write_bytes ops (snd ms) (fr_address (fe_request e)) (frozen_bytes e)))"
proof -
  have fb: "frozen_bytes (e\<lparr>fe_pc := W_write\<rparr>) = frozen_bytes e" by (simp add: frozen_bytes_def)
  have "valid_request (fr_address (fe_request e)) (length (frozen_bytes e))" using v by (simp add: frozen_bytes_def)
  from write_bytes_ok(1) [OF this, of "snd ms"] obtain s' where
    "write_bytes ops (snd ms) (fr_address (fe_request e)) (frozen_bytes e) = (Inr (fr_size (fe_request e)), s')"
    by (cases "write_bytes ops (snd ms) (fr_address (fe_request e)) (frozen_bytes e)")
      (simp add: frozen_bytes_def)
  then show ?thesis
    using e alive by (simp add: worker_turn_def session_is_alive_def fb)
qed

end

lemma freeze_reach_fm_wf: "freeze_reach ops ms \<Longrightarrow> fm_wf (fst ms)"
proof (induction rule: freeze_reach.induct)
  case (init attached s)
  then show ?case by (simp add: all_entries_def FreezeManager_new_def entry_of_def)
next
  case (turn ms i)
  then show ?case using entry_ok_turns [of ms ops "[i]"] by simp
qed (simp_all add: freeze_wf unfreeze_wf restore_wf cancel_all_wf)

lemma active_count_0:
  assumes "distinct (map fst (fm_entries m))" "\<And>i e. entry_of m i = Some e \<Longrightarrow> \<not> fe_active e"
  shows "active_count m = 0"
  using assms by (auto simp: active_count_def filter_empty_conv entry_of_def)

section \<open>A concrete freeze\<close>

definition demo_freeze :: freeze_request where
  "demo_freeze = \<lparr>fr_id = ''hp'', fr_address = 0x1000, fr_type_name = ''uint16'',
     fr_value_u64 = 0x1FF, fr_interval = 5, fr_size = 0\<rparr>"

definition demo_freeze_state :: "sim_backend freeze_state" where
  "demo_freeze_state = (FreezeManager_new True, open_session sim_ops
     \<lparr>sim_is_64bit = True, sim_memory = mem_store (\<lambda>_. None) 0x1000 [7, 8, 9]\<rparr>)"

lemma demo_frozen:
  obtains s where "freeze sim_ops None demo_freeze demo_freeze_state =
      (Inr (), (put_entry (FreezeManager_new True) ''hp'' (started_entry (demo_freeze\<lparr>fr_size := 2\<rparr>) [7, 8]), s))"
    "freeze_reach sim_ops (snd (freeze sim_ops None demo_freeze demo_freeze_state))"
proof -
  have "\<exists>s. freeze sim_ops None demo_freeze demo_freeze_state =
      (Inr (), (put_entry (FreezeManager_new True) ''hp'' (started_entry (demo_freeze\<lparr>fr_size := 2\<rparr>) [7, 8]), s))"
    by (simp add: freeze_def demo_freeze_state_def demo_freeze_def FreezeManager_new_def size_for_type_def
        invalid_address_def entry_of_def open_session_def read_bytes_def validate_read_request_def mib_def
        sim_read_def mem_slice_numeral started_entry_def)
  moreover have "freeze_reach sim_ops (snd (freeze sim_ops None demo_freeze demo_freeze_state))"
    unfolding demo_freeze_state_def by (intro freeze_reach.intros)
  ultimately show ?thesis using that by blast
qed

section \<open>Properties\<close>

text \<open>
  C6: in every reachable state, whatever the interleaving of calls, workers and other clients,
  the entries have distinct non-empty ids, a non-null address, a size of 1 to 8 bytes and a
  snapshot of exactly that size; an entry without a running thread has an exited worker; a
  worker exits only after its token is set or its entry is inactive; and a restored entry is
  inactive with its thread joined.
\<close>

theorem freeze_reach_wf:
  assumes "freeze_reach ops ms"
  shows "distinct (map fst (fm_entries (fst ms))) \<and>
    (\<forall>i e. entry_of (fst ms) i = Some e \<longrightarrow> entry_ok i e)"
  using freeze_reach_fm_wf [OF assms] by (simp add: all_entries_def)

theorem freeze_reach_wf_witness:
  "entry_ok ''hp'' (the (entry_of (fst (snd (freeze sim_ops None demo_freeze demo_freeze_state))) ''hp''))"
proof (rule demo_frozen)
  fix s assume f: "freeze sim_ops None demo_freeze demo_freeze_state =
      (Inr (), (put_entry (FreezeManager_new True) ''hp'' (started_entry (demo_freeze\<lparr>fr_size := 2\<rparr>) [7, 8]), s))"
    and r: "freeze_reach sim_ops (snd (freeze sim_ops None demo_freeze demo_freeze_state))"
  show ?thesis using freeze_reach_wf [OF r] by (simp add: f)
qed



text \<open>
  one round of a running worker (the loop condition, the liveness check, the write) on a
  live target puts the requested value at the address, counts one successful rewrite, and
  changes no byte outside the frozen range.
\<close>

theorem worker_round_writes:
  assumes "writable_backend ops mem_of"
    and "entry_of (fst ms) i = Some e" "fe_joinable e" "fe_pc e = W_head" "\<not> fe_cancel e" "fe_active e"
    and "be_is_alive ops (ses_backend (snd ms))"
    and "valid_request (fr_address (fe_request e)) (unat (fr_size (fe_request e)))"
  shows "entry_of (fst (run_turns ops [i, i, i] ms)) i
       = Some (e\<lparr>fe_ok_count := fe_ok_count e + 1, fe_pc := W_sleep 0\<rparr>) \<and>
     mem_of (ses_backend (snd (run_turns ops [i, i, i] ms)))
       = mem_store (mem_of (ses_backend (snd ms))) (fr_address (fe_request e)) (frozen_bytes e)"
  unfolding writable_backend.worker_round [OF assms]
  using writable_backend.write_bytes_ok(2) [OF assms(1), of "fr_address (fe_request e)" "frozen_bytes e"] assms(8)
  by (simp add: frozen_bytes_def)

theorem worker_round_writes_witness:
  "sim_memory (ses_backend (snd (run_turns sim_ops [''hp'', ''hp'', ''hp'']
      (snd (freeze sim_ops None demo_freeze demo_freeze_state))))) 0x1001 = Some 1"
proof (rule demo_frozen)
  let ?e = "started_entry (demo_freeze\<lparr>fr_size := 2\<rparr>) [7, 8]"
  let ?ms = "snd (freeze sim_ops None demo_freeze demo_freeze_state)"
  fix s assume f: "freeze sim_ops None demo_freeze demo_freeze_state =
      (Inr (), (put_entry (FreezeManager_new True) ''hp'' ?e, s))"
  have fb: "frozen_bytes ?e = [0xFF, 1]"
    by (simp add: frozen_bytes_def started_entry_def new_entry_def demo_freeze_def u64_to_bytes_def
        bytes_of_word_def upt_rec)
  have e: "entry_of (fst ?ms) ''hp'' = Some ?e" by (simp add: f)
  have st: "fe_joinable ?e" "fe_pc ?e = W_head" "\<not> fe_cancel ?e" "fe_active ?e"
    by (simp_all add: started_entry_def new_entry_def)
  have a: "be_is_alive sim_ops (ses_backend (snd ?ms))" by (simp add: sim_is_alive_def)
  have v: "valid_request (fr_address (fe_request ?e)) (unat (fr_size (fe_request ?e)))"
    by (simp add: started_entry_def new_entry_def demo_freeze_def valid_request_def)
  have "fr_address (fe_request ?e) = 0x1000"
    by (simp add: started_entry_def new_entry_def demo_freeze_def)
  then show ?thesis
    using worker_round_writes [OF sim.writable_backend_axioms e st a v] by (simp add: fb del: run_turns.simps)
qed

text \<open>
  unfreezing a registered id succeeds and stops its worker for good: under every later
  schedule its entry stays as it is, inactive and without a thread. The entry also stays
  registered, so a later freeze of the same id is refused.
\<close>

theorem unfreeze_stops:
  assumes "entry_of (fst ms) i = Some e"
  shows "fst (unfreeze ops sched i ms) = Inr () \<and>
    (\<exists>e'. \<not> fe_active e' \<and> \<not> fe_joinable e' \<and> fe_request e' = fe_request e \<and>
       (\<forall>sched'. entry_of (fst (run_turns ops sched' (snd (unfreeze ops sched i ms)))) i = Some e' \<and>
          (\<forall>spawn r. fr_id r = i \<longrightarrow>
             (\<exists>err. fst (freeze ops spawn r (run_turns ops sched' (snd (unfreeze ops sched i ms)))) = Inl err))))"
proof (rule unfreeze_eq [OF assms, of ops sched])
  fix e' assume u: "unfreeze ops sched i ms =
      (Inr (), (put_entry (fst (stop_worker ops sched i e ms)) i (e'\<lparr>fe_active := False\<rparr>),
                snd (stop_worker ops sched i e ms)))"
    "\<not> fe_joinable e'" "fe_request e' = fe_request e"
  let ?e = "e'\<lparr>fe_active := False\<rparr>"
  have stay: "entry_of (fst (run_turns ops sched' (snd (unfreeze ops sched i ms)))) i = Some ?e" for sched'
    by (rule run_turns_joined) (use u in simp_all)
  have "\<exists>err. fst (freeze ops spawn r (run_turns ops sched' (snd (unfreeze ops sched i ms)))) = Inl err"
    if "fr_id r = i" for spawn r sched'
    by (rule freeze_cases [of ops spawn r "run_turns ops sched' (snd (unfreeze ops sched i ms))"])
      (use stay that in \<open>auto simp: admissible_freeze_def\<close>)
  then show ?thesis using u stay by (intro conjI exI [of _ ?e] allI impI) auto
qed

theorem unfreeze_stops_witness:
  "fst (unfreeze sim_ops [''hp''] ''hp'' (snd (freeze sim_ops None demo_freeze demo_freeze_state))) = Inr ()
   \<and> (\<exists>err. fst (freeze sim_ops None demo_freeze
        (snd (unfreeze sim_ops [''hp''] ''hp'' (snd (freeze sim_ops None demo_freeze demo_freeze_state))))) = Inl err)"
proof (rule demo_frozen)
  fix s assume f: "freeze sim_ops None demo_freeze demo_freeze_state =
      (Inr (), (put_entry (FreezeManager_new True) ''hp'' (started_entry (demo_freeze\<lparr>fr_size := 2\<rparr>) [7, 8]), s))"
  have e: "entry_of (fst (snd (freeze sim_ops None demo_freeze demo_freeze_state))) ''hp''
      = Some (started_entry (demo_freeze\<lparr>fr_size := 2\<rparr>) [7, 8])" by (simp add: f)
  have id: "fr_id demo_freeze = ''hp''" by (simp add: demo_freeze_def)
  show ?thesis
    using unfreeze_stops [OF e, of sim_ops "[''hp'']"] id run_turns.simps(1) by metis
qed

lemma cancel_all_quiet:
  assumes "memory_backend ops mem_of" and "freeze_reach ops ms"
  shows "active_count (fst (cancel_all ops scheds ms)) = 0 \<and>
    (\<forall>i e. entry_of (fst (cancel_all ops scheds ms)) i = Some e \<longrightarrow> \<not> fe_joinable e \<and> fe_pc e = W_exited) \<and>
    mem_of (ses_backend (snd (run_turns ops sched (cancel_all ops scheds ms))))
      = mem_of (ses_backend (snd (cancel_all ops scheds ms)))"
proof -
  note c = cancel_all_entries [OF freeze_reach_fm_wf [OF assms(2)], of ops scheds]
  then have live: "live_ranges (fst (cancel_all ops scheds ms)) = {}"
    by (auto simp: live_ranges_def all_entries_def)
  show ?thesis
    using c memory_backend.run_turns_outside [OF assms(1), of _ "cancel_all ops scheds ms" sched] live
    by (auto simp: all_entries_def entry_cancelled_def entry_ok_def intro!: active_count_0)
qed

text \<open>
  after \<open>cancel_all\<close> (also the destructor) nothing is frozen any more: no entry is
  active, every thread is joined, and no schedule of workers changes memory again.
\<close>

theorem cancel_all_stops:
  assumes "memory_backend ops mem_of" and "freeze_reach ops ms"
  shows "active_count (fst (cancel_all ops scheds ms)) = 0 \<and>
    (\<forall>i e. entry_of (fst (cancel_all ops scheds ms)) i = Some e \<longrightarrow> \<not> fe_joinable e \<and> fe_pc e = W_exited) \<and>
    mem_of (ses_backend (snd (run_turns ops sched (cancel_all ops scheds ms))))
      = mem_of (ses_backend (snd (cancel_all ops scheds ms)))"
  by (rule cancel_all_quiet [OF assms])

theorem cancel_all_stops_witness:
  "active_count (fst (cancel_all sim_ops (\<lambda>_. []) (snd (freeze sim_ops None demo_freeze demo_freeze_state)))) = 0"
  by (rule demo_frozen) (use cancel_all_stops [OF sim.memory_backend_axioms] in blast)

end
