(* ===== verification/Freeze_Spec.thy ===== *)
theory Freeze_Spec
  imports Freeze
begin

text \<open>
  What the freeze manager of \<open>src/freeze.cpp\<close> promises, without threads, tokens and counters:
  a table of frozen cells over a memory, changed by four kinds of atomic steps. The manager
  with its worker threads refines it, by the simulation that the locale \<open>forward_simulation\<close>
  states once and \<open>writable_backend\<close> provides.
\<close>

section \<open>Forward simulation\<close>

locale forward_simulation =
  fixes cstep :: "'c \<Rightarrow> 'c \<Rightarrow> bool"
    and astep :: "'a \<Rightarrow> 'a \<Rightarrow> bool"
    and abs_of :: "'c \<Rightarrow> 'a"
    and inv :: "'c \<Rightarrow> bool"
  assumes inv_step: "inv c \<Longrightarrow> cstep c c' \<Longrightarrow> inv c'"
    and simulated: "inv c \<Longrightarrow> cstep c c' \<Longrightarrow> astep\<^sup>*\<^sup>* (abs_of c) (abs_of c')"
begin

lemma runs_simulated: "cstep\<^sup>*\<^sup>* c c' \<Longrightarrow> inv c \<Longrightarrow> inv c' \<and> astep\<^sup>*\<^sup>* (abs_of c) (abs_of c')"
proof (induction rule: rtranclp_induct)
  case (step c1 c2)
  then show ?case using inv_step [of c1 c2] simulated [of c1 c2] by (auto intro: rtranclp_trans)
qed simp

text \<open>An invariant of the specification holds of every run of the implementation.\<close>

lemma invariant_transfers:
  assumes "cstep\<^sup>*\<^sup>* c c'" "inv c" "I (abs_of c)" and step: "\<And>a a'. I a \<Longrightarrow> astep a a' \<Longrightarrow> I a'"
  shows "I (abs_of c')"
proof -
  have "astep\<^sup>*\<^sup>* (abs_of c) (abs_of c')" using runs_simulated assms(1,2) by blast
  then show ?thesis using assms(3) by (induction rule: rtranclp_induct) (auto intro: step)
qed

end

section \<open>The specification\<close>

record frozen_cell =
  fz_address :: address
  fz_value :: "u8 list"
  fz_original :: "u8 list"
  fz_running :: bool

type_synonym frozen_state = "(string \<rightharpoonup> frozen_cell) \<times> mem"

text \<open>
  A cell is registered with the bytes memory holds; while it runs its value is written; it stops
  for good; a stopped cell may be put back.
\<close>

inductive spec_step :: "frozen_state \<Rightarrow> frozen_state \<Rightarrow> bool" where
  register: "t i = None \<Longrightarrow> mem_slice m (fz_address c) (length (fz_value c)) = Some (fz_original c) \<Longrightarrow>
     length (fz_value c) \<le> 8 \<Longrightarrow> spec_step (t, m) (t(i \<mapsto> c), m)"
| rewrite: "t i = Some c \<Longrightarrow> fz_running c \<Longrightarrow> spec_step (t, m) (t, mem_store m (fz_address c) (fz_value c))"
| halt: "t i = Some c \<Longrightarrow> spec_step (t, m) (t(i \<mapsto> c\<lparr>fz_running := False\<rparr>), m)"
| put_back: "t i = Some c \<Longrightarrow> \<not> fz_running c \<Longrightarrow>
     spec_step (t, m) (t, mem_store m (fz_address c) (fz_original c))"

inductive_cases spec_stepE: "spec_step a a'"

text \<open>What a run of the specification can have done to a byte.\<close>

definition explained :: "mem \<Rightarrow> frozen_state \<Rightarrow> address \<Rightarrow> bool" where
  "explained m0 a x \<longleftrightarrow> snd a x = m0 x \<or>
     (\<exists>i c k. fst a i = Some c \<and> k < length (fz_value c) \<and> x = fz_address c + of_nat k \<and>
        (snd a x = Some (fz_value c ! k) \<or> snd a x = Some (fz_original c ! k)))"

definition spec_ok :: "mem \<Rightarrow> frozen_state \<Rightarrow> bool" where
  "spec_ok m0 a \<longleftrightarrow> (\<forall>i c. fst a i = Some c \<longrightarrow> length (fz_original c) = length (fz_value c) \<and>
      length (fz_value c) \<le> 8) \<and> (\<forall>x. explained m0 a x)"

lemma explained_store:
  assumes c: "t i = Some c" and bs: "bs = fz_value c \<or> bs = fz_original c"
    and len: "length (fz_original c) = length (fz_value c)" "length (fz_value c) \<le> 8" and old: "explained m0 (t, m) x"
  shows "explained m0 (t, mem_store m (fz_address c) bs) x"
proof (cases "x \<in> addr_range (fz_address c) (length (fz_value c))")
  case True
  then obtain k where k: "k < length (fz_value c)" "x = fz_address c + of_nat k" by (auto simp: addr_range_def)
  have n: "length bs = length (fz_value c)" using bs len(1) by auto
  then have "length bs \<le> 2 ^ 64" using len(2) by simp
  from mem_slice_store [OF this, of m "fz_address c"]
  have "mem_store m (fz_address c) bs x = Some (bs ! k)"
    using k n by (simp add: mem_slice_Some_iff)
  then show ?thesis using c k bs unfolding explained_def by auto
next
  case False
  then have "mem_store m (fz_address c) bs x = m x"
    using bs len(1) by (intro mem_store_other) auto
  then show ?thesis using old by (auto simp: explained_def)
qed

lemma spec_ok_step:
  assumes "spec_ok m0 a" "spec_step a a'"
  shows "spec_ok m0 a'"
  using assms(2)
proof cases
  case (register t i m c)
  then have "length (fz_original c) = length (fz_value c)" by (auto dest: mem_slice_length)
  moreover have "explained m0 (t(i \<mapsto> c), m) x" for x
  proof -
    have "explained m0 (t, m) x" using assms(1) register by (simp add: spec_ok_def)
    moreover have "\<And>j d. t j = Some d \<Longrightarrow> (t(i \<mapsto> c)) j = Some d" using register(3) by auto
    ultimately show ?thesis unfolding explained_def fst_conv snd_conv by blast
  qed
  ultimately show ?thesis using assms(1) register by (auto simp: spec_ok_def)
next
  case (rewrite t i c m)
  then have "length (fz_original c) = length (fz_value c)" "length (fz_value c) \<le> 8"
    using assms(1) by (auto simp: spec_ok_def)
  from explained_store [of t i c "fz_value c", OF rewrite(3) _ this] show ?thesis
    using assms(1) rewrite by (auto simp: spec_ok_def)
next
  case (put_back t i c m)
  then have "length (fz_original c) = length (fz_value c)" "length (fz_value c) \<le> 8"
    using assms(1) by (auto simp: spec_ok_def)
  from explained_store [of t i c "fz_original c", OF put_back(3) _ this] show ?thesis
    using assms(1) put_back by (auto simp: spec_ok_def)
next
  case (halt t i c m)
  have "explained m0 (t(i \<mapsto> c\<lparr>fz_running := False\<rparr>), m) x" if old: "explained m0 (t, m) x" for x
  proof (cases "m x = m0 x")
    case False
    then obtain j d k where d: "t j = Some d" "k < length (fz_value d)" "x = fz_address d + of_nat k"
      "m x = Some (fz_value d ! k) \<or> m x = Some (fz_original d ! k)"
      using old unfolding explained_def fst_conv snd_conv by blast
    let ?d = "if j = i then c\<lparr>fz_running := False\<rparr> else d"
    have "(t(i \<mapsto> c\<lparr>fz_running := False\<rparr>)) j = Some ?d" "fz_value ?d = fz_value d"
      "fz_address ?d = fz_address d" "fz_original ?d = fz_original d"
      using d(1) halt(3) by auto
    then show ?thesis using d(2-4) unfolding explained_def fst_conv snd_conv by metis
  qed (simp add: explained_def)
  then show ?thesis using assms(1) halt by (auto simp: spec_ok_def)
qed

section \<open>The manager refines it\<close>

text \<open>The calls of the manager, its workers, and clients that only read the target.\<close>

inductive manager_step :: "'b backend_ops \<Rightarrow> ('b \<Rightarrow> mem) \<Rightarrow> 'b freeze_state \<Rightarrow> 'b freeze_state \<Rightarrow> bool"
  for ops mem_of where
  turn: "manager_step ops mem_of ms (worker_turn ops i ms)"
| call_freeze: "manager_step ops mem_of ms (snd (freeze ops spawn r ms))"
| call_unfreeze: "manager_step ops mem_of ms (snd (unfreeze ops sched i ms))"
| call_restore: "manager_step ops mem_of ms (snd (restore ops sched i ms))"
| call_cancel: "manager_step ops mem_of ms (cancel_all ops scheds ms)"
| reader: "mem_of (ses_backend s') = mem_of (ses_backend s) \<Longrightarrow> manager_step ops mem_of (m, s) (m, s')"

definition cell_of :: "freeze_entry \<Rightarrow> frozen_cell" where
  "cell_of e = \<lparr>fz_address = fr_address (fe_request e), fz_value = frozen_bytes e, fz_original = fe_original e,
     fz_running = (fe_joinable e \<and> fe_pc e \<noteq> W_exited)\<rparr>"

definition cells :: "freeze_manager \<Rightarrow> string \<rightharpoonup> frozen_cell" where
  "cells m = (\<lambda>i. map_option cell_of (entry_of m i))"

definition frozen_abs :: "('b \<Rightarrow> mem) \<Rightarrow> 'b freeze_state \<Rightarrow> frozen_state" where
  "frozen_abs mem_of ms = (cells (fst ms), mem_of (ses_backend (snd ms)))"

definition requests_ok :: "freeze_manager \<Rightarrow> bool" where
  "requests_ok m \<longleftrightarrow> fm_wf m \<and> (\<forall>i e. entry_of m i = Some e \<longrightarrow>
     valid_request (fr_address (fe_request e)) (unat (fr_size (fe_request e))))"

lemma cells_put [simp]: "cells (put_entry m i e) = (cells m)(i \<mapsto> cell_of e)"
  by (auto simp: cells_def)

lemma cells_same: "entry_of m i = Some e \<Longrightarrow> cell_of e' = cell_of e \<Longrightarrow> (cells m)(i \<mapsto> cell_of e') = cells m"
  by (auto simp: cells_def)

lemma cells_Some: "entry_of m i = Some e \<Longrightarrow> cells m i = Some (cell_of e)"
  by (simp add: cells_def)

lemma frozen_bytes_request: "fe_request e' = fe_request e \<Longrightarrow> frozen_bytes e' = frozen_bytes e"
  by (simp add: frozen_bytes_def)

text \<open>The cell of an entry depends on its core and on whether its worker has ended.\<close>

lemma cell_core:
  "entry_core e' = entry_core e \<Longrightarrow> (fe_joinable e \<Longrightarrow> (fe_pc e' = W_exited) = (fe_pc e = W_exited)) \<Longrightarrow> cell_of e' = cell_of e"
  by (auto simp: cell_of_def entry_core_def frozen_bytes_def)

lemma cell_halted:
  "entry_core e' = entry_core e \<Longrightarrow> fe_pc e' = W_exited \<Longrightarrow> cell_of e' = cell_of e\<lparr>fz_running := False\<rparr>"
  by (auto simp: cell_of_def entry_core_def frozen_bytes_def)

context writable_backend
begin

abbreviation fabs :: "'b freeze_state \<Rightarrow> frozen_state" where
  "fabs ms \<equiv> frozen_abs mem_of ms"

lemma turn_simulated:
  assumes ok: "requests_ok (fst ms)"
  shows "spec_step\<^sup>*\<^sup>* (fabs ms) (fabs (worker_turn ops i ms))"
proof (rule worker_turn_cases [of ops i ms])
  assume "worker_turn ops i ms = ms"
  then show ?thesis by simp
next
  fix e e' s' assume e: "entry_of (fst ms) i = Some e" "fe_joinable e" "worker_step ops e (snd ms) = (e', s')"
    "worker_turn ops i ms = (put_entry (fst ms) i e', s')"
  have core: "entry_core e' = entry_core e" using worker_step_core [of ops e "snd ms"] e(3) by simp
  note c = cells_Some [OF e(1)]
  show ?thesis
  proof (cases "fe_pc e = W_write")
    case True
    have len: "length (frozen_bytes e) = unat (fr_size (fe_request e))" by (simp add: frozen_bytes_def)
    have v: "valid_request (fr_address (fe_request e)) (length (frozen_bytes e))"
      using ok e(1) by (auto simp: requests_ok_def len)
    have "smem s' = mem_store (smem (snd ms)) (fr_address (fe_request e)) (frozen_bytes e)" "fe_pc e' \<noteq> W_exited"
      using e(3) True write_bytes_ok(2) [OF v, of "snd ms"]
      by (auto split: prod.splits sum.splits if_splits)
    moreover have "spec_step (cells (fst ms), smem (snd ms))
        (cells (fst ms), mem_store (smem (snd ms)) (fz_address (cell_of e)) (fz_value (cell_of e)))"
      by (rule spec_step.rewrite [of "cells (fst ms)" i "cell_of e"]) (simp_all add: c, simp add: cell_of_def e(2) True)
    ultimately show ?thesis
      using cells_same [OF e(1) cell_core [OF core]] True
      by (simp add: frozen_abs_def e(4)) (simp add: cell_of_def)
  next
    case False
    have m: "smem s' = smem (snd ms)" using e(3) False by (auto split: worker_pc.splits if_splits)
    show ?thesis
    proof (cases "fe_pc e' = W_exited")
      case True
      then show ?thesis using spec_step.halt [of "cells (fst ms)" i "cell_of e" "smem (snd ms)"] c cell_halted [OF core] m
        by (simp add: frozen_abs_def e(4) r_into_rtranclp)
    next
      case False
      then have "fe_pc e \<noteq> W_exited" using e(3) by auto
      then show ?thesis using cells_same [OF e(1) cell_core [OF core]] m False by (simp add: frozen_abs_def e(4))
    qed
  qed
qed

lemma requests_core:
  assumes "requests_ok m" "fm_wf m'" "\<And>j. map_option entry_core (entry_of m' j) = map_option entry_core (entry_of m j)"
  shows "requests_ok m'"
  unfolding requests_ok_def
proof (intro conjI allI impI)
  fix i e assume "entry_of m' i = Some e"
  then obtain e1 where "entry_of m i = Some e1" "fe_request e1 = fe_request e"
    using assms(3) [of i] by (cases "entry_of m i") (auto simp: entry_core_def)
  then show "valid_request (fr_address (fe_request e)) (unat (fr_size (fe_request e)))"
    using assms(1) unfolding requests_ok_def by metis
qed (rule assms(2))

lemma requests_turns: "requests_ok (fst ms) \<Longrightarrow> requests_ok (fst (run_turns ops sched ms))"
  by (rule requests_core [OF _ entry_ok_turns run_turns_core]) (simp_all add: requests_ok_def)

lemma requests_put:
  "requests_ok m \<Longrightarrow> entry_of m i = Some e \<Longrightarrow> fe_request e' = fe_request e \<Longrightarrow> entry_ok i e' \<Longrightarrow>
     requests_ok (put_entry m i e')"
  by (auto simp: requests_ok_def all_entries_put)

lemma turns_simulated:
  "requests_ok (fst ms) \<Longrightarrow> spec_step\<^sup>*\<^sup>* (fabs ms) (fabs (run_turns ops sched ms))"
proof (induction sched arbitrary: ms)
  case (Cons i sched)
  have "requests_ok (fst (worker_turn ops i ms))" using requests_turns [OF Cons.prems, of "[i]"] by simp
  from Cons.IH [OF this] turn_simulated [OF Cons.prems, of i] show ?case by (simp add: rtranclp_trans)
qed simp

lemma join_simulated:
  assumes "requests_ok (fst ms)" "entry_of (fst ms) i = Some e" "fe_joinable e" "fe_cancel e"
  shows "spec_step\<^sup>*\<^sup>* (fabs ms) (fabs (join_worker ops sched i ms)) \<and> requests_ok (fst (join_worker ops sched i ms))"
proof
  let ?ms = "run_turns ops (sched @ replicate 4 i) ms"
  obtain e' where e': "entry_of (fst ?ms) i = Some e'" "entry_core e' = entry_core e"
    by (rule run_turns_entry [OF assms(2)])
  have j: "join_worker ops sched i ms = (put_entry (fst ?ms) i (e'\<lparr>fe_joinable := False\<rparr>), snd ?ms)"
    using e'(1) by (simp add: join_worker_def split_beta)
  have "cell_of (e'\<lparr>fe_joinable := False\<rparr>) = cell_of e'\<lparr>fz_running := False\<rparr>"
    by (simp add: cell_of_def frozen_bytes_def)
  then have "spec_step (fabs ?ms) (fabs (join_worker ops sched i ms))"
    using spec_step.halt [of "cells (fst ?ms)" i "cell_of e'"] cells_Some [OF e'(1)] by (simp add: frozen_abs_def j)
  then show "spec_step\<^sup>*\<^sup>* (fabs ms) (fabs (join_worker ops sched i ms))"
    using turns_simulated [OF assms(1), of "sched @ replicate 4 i"] by (rule rtranclp.rtrancl_into_rtrancl [rotated])
  have "fm_wf (fst (join_worker ops sched i ms))"
    by (rule entry_ok_join [OF _ assms(2-4)]) (use assms(1) in \<open>simp add: requests_ok_def\<close>)
  then show "requests_ok (fst (join_worker ops sched i ms))"
    using requests_turns [OF assms(1), of "sched @ replicate 4 i"] e'(1)
    unfolding j requests_ok_def by auto
qed

lemma stop_simulated:
  assumes ok: "requests_ok (fst ms)" and e: "entry_of (fst ms) i = Some e"
  shows "spec_step\<^sup>*\<^sup>* (fabs ms) (fabs (stop_worker ops sched i e ms)) \<and> requests_ok (fst (stop_worker ops sched i e ms))"
proof (cases "fe_joinable e")
  case True
  let ?e = "e\<lparr>fe_cancel := True\<rparr>" and ?ms = "(put_entry (fst ms) i (e\<lparr>fe_cancel := True\<rparr>), snd ms)"
  have "cell_of ?e = cell_of e" by (simp add: cell_of_def frozen_bytes_def)
  then have "fabs ?ms = fabs ms" using cells_same [OF e, of ?e] by (simp add: frozen_abs_def)
  moreover have "requests_ok (fst ?ms)"
    using requests_put [OF ok e, of ?e] ok all_entriesD [of entry_ok "fst ms", OF _ e]
    by (simp add: requests_ok_def entry_ok_def)
  ultimately show ?thesis using join_simulated [of ?ms i ?e sched] True by (simp add: stop_worker_def)
qed (use ok in \<open>simp add: stop_worker_def\<close>)

lemma freeze_simulated:
  assumes ok: "requests_ok (fst ms)"
  shows "spec_step\<^sup>*\<^sup>* (fabs ms) (fabs (snd (freeze ops spawn r ms))) \<and>
    requests_ok (fst (snd (freeze ops spawn r ms)))"
proof -
  let ?r = "effective_request r"
  have wf: "fm_wf (fst (snd (freeze ops spawn r ms)))" by (rule freeze_wf) (use ok in \<open>simp add: requests_ok_def\<close>)
  have registered: ?thesis
    if f: "snd (freeze ops spawn r ms) = (put_entry (fst ms) (fr_id r) e, s'')"
      and adm: "admissible_freeze (fst ms) r"
      and rd: "read_bytes ops (snd ms) (fr_address r) (fr_size ?r) = (Inr bs, s')" "ses_backend s'' = ses_backend s'"
      and e: "fe_request e = ?r" "fe_original e = bs" for e bs s' s''
  proof
    have v: "valid_request (fr_address r) (unat (fr_size ?r))" and sl: "mem_slice (smem (snd ms)) (fr_address r) (unat (fr_size ?r)) = Some bs"
      using read_bytes_ok_iff [of "snd ms" "fr_address r" "fr_size ?r" bs] rd(1) by simp_all
    have m: "smem s'' = smem (snd ms)" using read_bytes_mem [of "snd ms" "fr_address r" "fr_size ?r"] rd by simp
    have len: "length (frozen_bytes e) = unat (fr_size ?r)" by (simp add: frozen_bytes_def e)
    have "spec_step (cells (fst ms), smem (snd ms)) ((cells (fst ms))(fr_id r \<mapsto> cell_of e), smem (snd ms))"
      by (rule spec_step.register) (use adm sl len e in \<open>simp_all add: cells_def cell_of_def admissible_freeze_def\<close>)
    then show "spec_step\<^sup>*\<^sup>* (fabs ms) (fabs (snd (freeze ops spawn r ms)))"
      using m by (simp add: f frozen_abs_def r_into_rtranclp)
    show "requests_ok (fst (snd (freeze ops spawn r ms)))"
      using wf ok v e(1) unfolding f by (auto simp: requests_ok_def)
  qed
  show ?thesis
  proof (rule freeze_cases [of ops spawn r ms])
    fix err s' assume "freeze ops spawn r ms = (Inl err, (fst ms, s'))"
      "s' = snd ms \<or> s' = snd (read_bytes ops (snd ms) (fr_address r) (fr_size ?r))"
    then show ?thesis using ok by (auto simp: frozen_abs_def)
  next
    fix err bs s' s'' assume "freeze ops spawn r ms = (Inl err, (put_entry (fst ms) (fr_id r) (new_entry ?r bs), s''))"
      "admissible_freeze (fst ms) r" "read_bytes ops (snd ms) (fr_address r) (fr_size ?r) = (Inr bs, s')"
      "ses_backend s'' = ses_backend s'"
    then show ?thesis
      by (intro registered [where e = "new_entry ?r bs" and bs = bs and s' = s' and s'' = s'']) (simp_all add: new_entry_def)
  next
    fix bs s' s'' assume "freeze ops spawn r ms = (Inr (), (put_entry (fst ms) (fr_id r) (started_entry ?r bs), s''))"
      "admissible_freeze (fst ms) r" "read_bytes ops (snd ms) (fr_address r) (fr_size ?r) = (Inr bs, s')"
      "ses_backend s'' = ses_backend s'"
    then show ?thesis
      by (intro registered [where e = "started_entry ?r bs" and bs = bs and s' = s' and s'' = s''])
        (simp_all add: new_entry_def started_entry_def)
  qed
qed

lemma unfreeze_simulated:
  assumes ok: "requests_ok (fst ms)"
  shows "spec_step\<^sup>*\<^sup>* (fabs ms) (fabs (snd (unfreeze ops sched i ms))) \<and> requests_ok (fst (snd (unfreeze ops sched i ms)))"
proof (cases "entry_of (fst ms) i")
  case None
  then show ?thesis using ok by (simp add: unfreeze_def)
next
  case (Some e)
  note stop = stop_simulated [OF ok Some, of sched]
  have wf: "fm_wf (fst (snd (unfreeze ops sched i ms)))" by (rule unfreeze_wf) (use ok in \<open>simp add: requests_ok_def\<close>)
  show ?thesis
  proof (rule unfreeze_eq [OF Some, of ops sched])
    fix e' assume u: "unfreeze ops sched i ms = (Inr (), (put_entry (fst (stop_worker ops sched i e ms)) i
        (e'\<lparr>fe_active := False\<rparr>), snd (stop_worker ops sched i e ms)))"
      "entry_of (fst (stop_worker ops sched i e ms)) i = Some e'"
    have "cell_of (e'\<lparr>fe_active := False\<rparr>) = cell_of e'" by (simp add: cell_of_def frozen_bytes_def)
    then have "fabs (snd (unfreeze ops sched i ms)) = fabs (stop_worker ops sched i e ms)"
      using cells_same [OF u(2)] by (simp add: frozen_abs_def u(1))
    moreover have "requests_ok (fst (snd (unfreeze ops sched i ms)))"
      using wf stop u(2) unfolding u(1) by (auto simp: requests_ok_def)
    ultimately show ?thesis using stop by simp
  qed
qed

lemma restore_simulated:
  assumes ok: "requests_ok (fst ms)"
  shows "spec_step\<^sup>*\<^sup>* (fabs ms) (fabs (snd (restore ops sched i ms))) \<and> requests_ok (fst (snd (restore ops sched i ms)))"
proof (cases "entry_of (fst ms) i")
  case None
  then show ?thesis using ok by (simp add: restore_def)
next
  case (Some e)
  let ?ms = "stop_worker ops sched i e ms"
  note stop = stop_simulated [OF ok Some, of sched]
  have wf: "fm_wf (fst (snd (restore ops sched i ms)))" by (rule restore_wf) (use ok in \<open>simp add: requests_ok_def\<close>)
  have v: "valid_request (fr_address (fe_request e)) (length (fe_original e))"
    using ok Some all_entriesD [of entry_ok "fst ms" i e] by (simp add: requests_ok_def entry_ok_def)
  show ?thesis
  proof (rule stop_then_write [OF Some v, of sched])
    fix e1 assume r: "restore ops sched i ms = (Inr (), (put_entry (fst ?ms) i (e1\<lparr>fe_restored := True, fe_active := False\<rparr>),
        snd (write_bytes ops (snd ?ms) (fr_address (fe_request e)) (fe_original e))))"
      and e1: "\<not> fe_joinable e1" "fe_request e1 = fe_request e" "fe_original e1 = fe_original e"
    obtain e' where e': "entry_of (fst ?ms) i = Some e'" "\<not> fe_joinable e'" "fe_request e' = fe_request e"
      "fe_original e' = fe_original e" by (rule stop_worker_entry [OF Some])
    have same: "cell_of (e1\<lparr>fe_restored := True, fe_active := False\<rparr>) = cell_of e'"
      using e1 e' by (simp add: cell_of_def frozen_bytes_def)
    have "spec_step (cells (fst ?ms), smem (snd ?ms))
        (cells (fst ?ms), mem_store (smem (snd ?ms)) (fz_address (cell_of e')) (fz_original (cell_of e')))"
      by (rule spec_step.put_back [of "cells (fst ?ms)" i]) (simp_all add: cells_Some [OF e'(1)], simp add: cell_of_def e'(2))
    moreover have "smem (snd (write_bytes ops (snd ?ms) (fr_address (fe_request e)) (fe_original e)))
        = mem_store (smem (snd ?ms)) (fz_address (cell_of e')) (fz_original (cell_of e'))"
      using write_bytes_ok(2) [OF v, of "snd ?ms"] e'(3,4) by (simp add: cell_of_def)
    ultimately have "spec_step (fabs ?ms) (fabs (snd (restore ops sched i ms)))"
      using cells_same [OF e'(1) same] by (simp add: frozen_abs_def r)
    moreover have "requests_ok (fst (snd (restore ops sched i ms)))"
      using wf stop e1(2) v Some ok unfolding r by (auto simp: requests_ok_def)
    ultimately show ?thesis using stop by (auto intro: rtranclp.rtrancl_into_rtrancl)
  qed
qed

lemma join_all_simulated:
  assumes "requests_ok (fst ms)" "all_entries entry_cancelled (fst ms)"
  shows "spec_step\<^sup>*\<^sup>* (fabs ms) (fabs (join_all ops scheds ids ms)) \<and> requests_ok (fst (join_all ops scheds ids ms))"
  using assms
proof (induction ids arbitrary: ms)
  case (Cons i ids)
  define ms1 where "ms1 = (case entry_of (fst ms) i of None \<Rightarrow> ms
    | Some e \<Rightarrow> if fe_joinable e then join_worker ops (scheds i) i ms else ms)"
  have "spec_step\<^sup>*\<^sup>* (fabs ms) (fabs ms1) \<and> requests_ok (fst ms1) \<and> all_entries entry_cancelled (fst ms1)"
  proof (cases "\<exists>e. entry_of (fst ms) i = Some e \<and> fe_joinable e")
    case True
    then obtain e where e: "entry_of (fst ms) i = Some e" "fe_joinable e" by blast
    then have c: "fe_cancel e" using all_entriesD [OF Cons.prems(2)] by (simp add: entry_cancelled_def)
    have "all_entries entry_cancelled (fst (join_worker ops (scheds i) i ms))"
      by (rule all_entries_join [OF entry_cancelled_step entry_cancelled_joined Cons.prems(2) e c])
    then show ?thesis using join_simulated [OF Cons.prems(1) e c] e by (simp add: ms1_def)
  next
    case False
    then have "ms1 = ms" by (auto simp: ms1_def split: option.split)
    then show ?thesis using Cons.prems by simp
  qed
  moreover have "join_all ops scheds (i # ids) ms = join_all ops scheds ids ms1" by (simp add: ms1_def)
  ultimately show ?case using Cons.IH [of ms1] by (auto intro: rtranclp_trans)
qed simp

lemma cancel_simulated:
  assumes ok: "requests_ok (fst ms)"
  shows "spec_step\<^sup>*\<^sup>* (fabs ms) (fabs (cancel_all ops scheds ms)) \<and> requests_ok (fst (cancel_all ops scheds ms))"
proof -
  let ?g = "\<lambda>e. e\<lparr>fe_cancel := True, fe_active := False\<rparr>"
  define ms1 where "ms1 = ((fst ms)\<lparr>fm_entries := map (\<lambda>(i, e). (i, ?g e)) (fm_entries (fst ms))\<rparr>, snd ms)"
  have e1: "entry_of (fst ms1) i = map_option ?g (entry_of (fst ms) i)" for i
    by (simp add: entry_of_def ms1_def map_of_map)
  have "cell_of (?g e) = cell_of e" for e by (simp add: cell_of_def frozen_bytes_def)
  then have "cells (fst ms1) = cells (fst ms)" by (simp add: cells_def e1 option.map_comp comp_def)
  then have abs: "fabs ms1 = fabs ms" by (simp add: frozen_abs_def ms1_def)
  have wf: "all_entries entry_cancelled (fst ms1)"
    using ok unfolding requests_ok_def all_entries_def e1
    by (auto simp: ms1_def comp_def split_beta entry_cancelled_def entry_ok_def)
  then have "requests_ok (fst ms1)"
    using ok e1 by (auto simp: requests_ok_def all_entries_def entry_cancelled_def)
  from join_all_simulated [OF this wf, of scheds "map fst (fm_entries (fst ms))"] abs show ?thesis
    by (simp add: cancel_all_def ms1_def Let_def)
qed

lemma manager_simulated:
  assumes "requests_ok (fst ms)" "manager_step ops mem_of ms ms'"
  shows "spec_step\<^sup>*\<^sup>* (fabs ms) (fabs ms') \<and> requests_ok (fst ms')"
  using assms(2)
proof cases
  case (turn i)
  then show ?thesis using turn_simulated [OF assms(1), of i] requests_turns [OF assms(1), of "[i]"] by simp
next
  case (reader s' s m)
  then show ?thesis using assms(1) by (simp add: frozen_abs_def)
qed (simp_all add: assms(1) freeze_simulated unfreeze_simulated restore_simulated cancel_simulated)

lemma frozen_simulation:
  "forward_simulation (manager_step ops mem_of) spec_step (frozen_abs mem_of) (\<lambda>ms. requests_ok (fst ms))"
  by unfold_locales (auto simp: manager_simulated)

end

sublocale writable_backend \<subseteq> frozen: forward_simulation "manager_step ops mem_of" spec_step "frozen_abs mem_of"
  "\<lambda>ms. requests_ok (fst ms)"
  by (rule frozen_simulation)

lemma fresh_requests [simp]: "requests_ok (FreezeManager_new attached)"
  by (simp add: requests_ok_def all_entries_def FreezeManager_new_def entry_of_def)

lemma fresh_entries [simp]: "entry_of (FreezeManager_new attached) i = None"
  by (simp add: FreezeManager_new_def entry_of_def)

lemma fresh_cells [simp]: "cells (FreezeManager_new attached) = (\<lambda>_. None)"
  by (simp add: cells_def FreezeManager_new_def entry_of_def)

section \<open>Properties\<close>


lemma turns_requests:
  "map_option fe_request (entry_of (fst (run_turns ops sched ms)) i) = map_option fe_request (entry_of (fst ms) i)"
  using run_turns_core [of ops sched ms i]
  by (cases "entry_of (fst ms) i"; cases "entry_of (fst (run_turns ops sched ms)) i") (auto simp: entry_core_def)

lemma demo_run:
  "(manager_step sim_ops sim_memory)\<^sup>*\<^sup>* (FreezeManager_new True, snd demo_freeze_state)
     (run_turns sim_ops sched (snd (freeze sim_ops None demo_freeze demo_freeze_state)))"
proof (induction sched rule: rev_induct)
  case Nil
  have "demo_freeze_state = (FreezeManager_new True, snd demo_freeze_state)" by (simp add: demo_freeze_state_def)
  then show ?case using manager_step.call_freeze [of sim_ops sim_memory demo_freeze_state None demo_freeze]
    by (metis run_turns.simps(1) r_into_rtranclp)
next
  case (snoc i sched)
  then show ?case using manager_step.turn [of sim_ops sim_memory _ i]
    by (simp add: run_turns_append rtranclp.rtrancl_into_rtrancl)
qed




end
