(* ===== verification/Policy.thy ===== *)
theory Policy
  imports Core_Types
begin

text \<open>
  \<open>src/policy.cpp\<close>, \<open>include/gtlibcpp/policy.hpp\<close>: capabilities, target manifests, the rate
  limiter, the kill switch and the authorisation pipeline. The audit sink is a callback whose
  exceptions are swallowed: the model keeps the events handed to it, in order. Each call of
  \<open>now_ms\<close> is an argument (\<open>clock_readings\<close>), an integer number of milliseconds.
\<close>

section \<open>Capabilities\<close>

type_synonym capability = u32

definition cap_read :: capability where "cap_read = push_bit 0 1"
definition cap_write :: capability where "cap_write = push_bit 1 1"
definition cap_freeze :: capability where "cap_freeze = push_bit 2 1"
definition cap_unfreeze :: capability where "cap_unfreeze = push_bit 3 1"
definition cap_rollback :: capability where "cap_rollback = push_bit 4 1"
definition cap_parse :: capability where "cap_parse = push_bit 5 1"

lemmas cap_bits = cap_read_def cap_write_def cap_freeze_def cap_unfreeze_def
  cap_rollback_def cap_parse_def

definition has_cap :: "capability \<Rightarrow> capability \<Rightarrow> bool" where
  "has_cap c b \<longleftrightarrow> c AND b \<noteq> 0"

definition cap_to_string :: "capability \<Rightarrow> string" where
  "cap_to_string c =
     (let out = (if has_cap c cap_read then ''read '' else []) @
                (if has_cap c cap_write then ''write '' else []) @
                (if has_cap c cap_freeze then ''freeze '' else []) @
                (if has_cap c cap_unfreeze then ''unfreeze '' else []) @
                (if has_cap c cap_rollback then ''rollback '' else []) @
                (if has_cap c cap_parse then ''parse '' else []);
          out' = (if out = [] then ''none'' else out)
      in if last out' = CHR '' '' then butlast out' else out')"

section \<open>Manifests\<close>

record target_manifest =
  tm_alias :: string
  tm_image_path :: string
  tm_image_sha256 :: string
  tm_architecture :: string
  tm_allow_write :: bool

definition manifest_matches :: "target_manifest \<Rightarrow> target_identity \<Rightarrow> bool" where
  "manifest_matches m i =
     (if identity_empty i then False
      else if ti_image_path i \<noteq> tm_image_path m then False
      else if tm_image_sha256 m \<noteq> [] \<and> ti_image_sha256 i \<noteq> []
              \<and> ti_image_sha256 i \<noteq> tm_image_sha256 m then False
      else if tm_architecture m \<noteq> [] then
        (if tm_architecture m = ''x86'' \<and> ti_architecture i \<noteq> Arch_x86 then False
         else if tm_architecture m = ''x64'' \<and> ti_architecture i \<noteq> Arch_x64 then False
         else True)
      else True)"

section \<open>The rate limiter\<close>

record rate_window =
  win_start :: int
  win_count :: nat

record rate_limiter =
  rl_max :: nat
  rl_windows :: "string \<rightharpoonup> rate_window"

definition RateLimiter_new :: "nat \<Rightarrow> rate_limiter" where
  "RateLimiter_new n = \<lparr>rl_max = n, rl_windows = Map.empty\<rparr>"

definition window_of :: "rate_limiter \<Rightarrow> string \<Rightarrow> rate_window" where
  "window_of rl alias =
     (case rl_windows rl alias of None \<Rightarrow> \<lparr>win_start = 0, win_count = 0\<rparr> | Some w \<Rightarrow> w)"

definition limiter_allow :: "rate_limiter \<Rightarrow> string \<Rightarrow> int \<Rightarrow> unit result \<times> rate_limiter" where
  "limiter_allow rl alias now =
     (let w = window_of rl alias;
          w' = (if win_start w = 0 \<or> now - win_start w \<ge> 60000
                then \<lparr>win_start = now, win_count = 0\<rparr> else w);
          store = (\<lambda>x. rl\<lparr>rl_windows := (rl_windows rl)(alias \<mapsto> x)\<rparr>)
      in if win_count w' \<ge> rl_max rl
         then (failure (make_error EC_rate_limited (''rate limit exceeded for target '' @ alias)
                 ''RateLimiter::allow'' 0 0), store w')
         else (success (), store (w'\<lparr>win_count := Suc (win_count w')\<rparr>)))"

section \<open>The kill switch\<close>

record kill_switch =
  ks_engaged :: bool
  ks_reason :: string

definition kill_switch_new :: kill_switch where
  "kill_switch_new = \<lparr>ks_engaged = False, ks_reason = []\<rparr>"

definition kill_engage :: "kill_switch \<Rightarrow> string \<Rightarrow> kill_switch" where
  "kill_engage k reason = k\<lparr>ks_reason := reason, ks_engaged := True\<rparr>"

definition kill_release :: "kill_switch \<Rightarrow> kill_switch" where
  "kill_release k = k\<lparr>ks_engaged := False, ks_reason := []\<rparr>"

section \<open>Requests, tokens, audit events, the policy\<close>

record audit_event =
  ae_request_id :: string
  ae_alias :: string
  ae_pid :: u32
  ae_operation :: string
  ae_capability :: string
  ae_decision :: string
  ae_reason :: string
  ae_timestamp_ms :: int

record mutation_request =
  mr_request_id :: string
  mr_target_alias :: string
  mr_capability :: capability
  mr_preview :: bool
  mr_approved :: bool
  mr_expected_current_hash :: string
  mr_address :: address
  mr_size :: size_t
  mr_value_repr :: string

record approval_token =
  at_request_id :: string
  at_target_alias :: string
  at_issued_at_ms :: int
  at_expires_at_ms :: int
  at_signature :: string

record policy =
  pol_manifests :: "target_manifest list"
  pol_sink :: bool  \<comment> \<open>the sink pointer is not null\<close>
  pol_audit :: "audit_event list"
  pol_limiter :: rate_limiter
  pol_kill :: kill_switch

record clock_readings =
  clk_token :: int
  clk_limiter :: int
  clk_audit :: int

definition Policy_new :: "target_manifest list \<Rightarrow> bool \<Rightarrow> policy" where
  "Policy_new ms sink = \<lparr>pol_manifests = ms, pol_sink = sink, pol_audit = [],
     pol_limiter = RateLimiter_new 120, pol_kill = kill_switch_new\<rparr>"

fun find_manifest_in :: "target_manifest list \<Rightarrow> string \<Rightarrow> target_manifest option" where
  "find_manifest_in [] alias = None"
| "find_manifest_in (m # ms) alias = (if tm_alias m = alias then Some m else find_manifest_in ms alias)"

definition find_manifest :: "policy \<Rightarrow> string \<Rightarrow> target_manifest option" where
  "find_manifest p alias = find_manifest_in (pol_manifests p) alias"

definition set_kill_switch_reason :: "policy \<Rightarrow> string \<Rightarrow> policy" where
  "set_kill_switch_reason p reason = p\<lparr>pol_kill := kill_engage (pol_kill p) reason\<rparr>"

definition emit_audit :: "policy \<Rightarrow> audit_event \<Rightarrow> policy" where
  "emit_audit p ev = (if \<not> pol_sink p then p else p\<lparr>pol_audit := pol_audit p @ [ev]\<rparr>)"

definition request_event ::
  "target_identity \<Rightarrow> mutation_request \<Rightarrow> string \<Rightarrow> string \<Rightarrow> int \<Rightarrow> audit_event" where
  "request_event i r decision reason now =
     \<lparr>ae_request_id = mr_request_id r, ae_alias = mr_target_alias r, ae_pid = ti_pid i,
      ae_operation = mr_value_repr r, ae_capability = cap_to_string (mr_capability r),
      ae_decision = decision, ae_reason = reason, ae_timestamp_ms = now\<rparr>"

definition policy_deny ::
  "policy \<Rightarrow> target_identity \<Rightarrow> mutation_request \<Rightarrow> clock_readings \<Rightarrow> error_code \<Rightarrow> string
     \<Rightarrow> unit result \<times> policy" where
  "policy_deny p i r clk code reason =
     (failure (make_error code reason ''Policy::authorize'' 0 0),
      emit_audit p (request_event i r ''deny'' reason (clk_audit clk)))"

section \<open>Authorisation\<close>

definition known_caps :: capability where
  "known_caps = cap_read OR cap_write OR cap_freeze OR cap_unfreeze OR cap_rollback OR cap_parse"

definition authorize_with_token ::
  "policy \<Rightarrow> target_identity \<Rightarrow> mutation_request \<Rightarrow> approval_token option \<Rightarrow> clock_readings
     \<Rightarrow> unit result \<times> policy" where
  "authorize_with_token p i r token clk =
     (let deny = policy_deny p i r clk; bits = mr_capability r in
      if ks_engaged (pol_kill p)
      then deny EC_policy_denied (''kill switch engaged: '' @ ks_reason (pol_kill p))
      else (case find_manifest p (mr_target_alias r) of
        None \<Rightarrow> deny EC_policy_denied (''no manifest for target alias '' @ mr_target_alias r)
      | Some manifest \<Rightarrow>
        if \<not> manifest_matches manifest i
        then deny EC_target_identity_mismatch ''target identity does not match the authorised manifest''
        else if has_cap bits cap_write \<and> \<not> tm_allow_write manifest
        then deny EC_policy_denied ''manifest does not grant write''
        else if bits AND NOT known_caps \<noteq> 0
        then deny EC_capability_missing ''unknown capability requested''
        else if mr_address r = invalid_address
        then deny EC_invalid_address ''request has no concrete address''
        else if mr_size r = 0 \<or> mr_size r > 0x100000
        then deny EC_invalid_size ''request size is out of bounds''
        else if mr_expected_current_hash r = []
        then deny EC_policy_denied ''expected_current_hash is required for every mutation''
        else if mr_preview r
        then (success (), emit_audit p (request_event i r ''preview'' ''preview requested'' (clk_audit clk)))
        else if \<not> mr_approved r
        then deny EC_approval_required ''mutation requires approval''
        else (case (case token of
               None \<Rightarrow> None
             | Some t \<Rightarrow>
                 (if at_request_id t \<noteq> mr_request_id r
                  then Some ''approval token request_id does not match''
                  else if at_target_alias t \<noteq> mr_target_alias r
                  then Some ''approval token alias does not match''
                  else if clk_token clk < at_issued_at_ms t \<or> clk_token clk > at_expires_at_ms t
                  then Some ''approval token is not within its TTL window''
                  else None)) of
          Some why \<Rightarrow> deny EC_policy_denied why
        | None \<Rightarrow>
          (case limiter_allow (pol_limiter p) (mr_target_alias r) (clk_limiter clk) of
             (Inl e, l) \<Rightarrow> policy_deny (p\<lparr>pol_limiter := l\<rparr>) i r clk EC_rate_limited (err_message e)
           | (Inr _, l) \<Rightarrow>
               (success (), emit_audit (p\<lparr>pol_limiter := l\<rparr>)
                  (request_event i r ''allow'' ''approved'' (clk_audit clk)))))))"

definition authorize ::
  "policy \<Rightarrow> target_identity \<Rightarrow> mutation_request \<Rightarrow> clock_readings \<Rightarrow> unit result \<times> policy" where
  "authorize p i r clk = authorize_with_token p i r None clk"

section \<open>What the gate demands\<close>

text \<open>The checks every request passes, previews included.\<close>

definition request_admissible :: "policy \<Rightarrow> target_identity \<Rightarrow> mutation_request \<Rightarrow> bool" where
  "request_admissible p i r \<longleftrightarrow>
     \<not> ks_engaged (pol_kill p) \<and>
     (\<exists>m. find_manifest p (mr_target_alias r) = Some m \<and> manifest_matches m i \<and>
          (has_cap (mr_capability r) cap_write \<longrightarrow> tm_allow_write m)) \<and>
     mr_capability r AND NOT known_caps = 0 \<and> mr_address r \<noteq> 0 \<and>
     0 < unat (mr_size r) \<and> unat (mr_size r) \<le> 2 ^ 20 \<and> mr_expected_current_hash r \<noteq> []"

definition token_valid :: "approval_token \<Rightarrow> mutation_request \<Rightarrow> int \<Rightarrow> bool" where
  "token_valid t r now \<longleftrightarrow> at_request_id t = mr_request_id r \<and> at_target_alias t = mr_target_alias r
     \<and> at_issued_at_ms t \<le> now \<and> now \<le> at_expires_at_ms t"

definition slot_free :: "rate_limiter \<Rightarrow> string \<Rightarrow> int \<Rightarrow> bool" where
  "slot_free rl alias now \<longleftrightarrow>
     (let w = window_of rl alias
      in (if win_start w = 0 \<or> now - win_start w \<ge> 60000 then 0 else win_count w) < rl_max rl)"

definition mutation_ready ::
  "mutation_request \<Rightarrow> approval_token option \<Rightarrow> int \<Rightarrow> bool" where
  "mutation_ready r token now \<longleftrightarrow> \<not> mr_preview r \<and> mr_approved r
     \<and> (case token of None \<Rightarrow> True | Some t \<Rightarrow> token_valid t r now)"

lemma limiter_allow_ok_iff:
  "fst (limiter_allow rl alias now) = Inr () \<longleftrightarrow> slot_free rl alias now"
  by (auto simp: limiter_allow_def slot_free_def Let_def)

lemma limiter_allow_cases:
  obtains (free) l where "limiter_allow rl alias now = (Inr (), l)" "slot_free rl alias now"
  | (full) e l where "limiter_allow rl alias now = (Inl e, l)" "\<not> slot_free rl alias now"
  using limiter_allow_ok_iff [of rl "alias" now]
  by (cases "limiter_allow rl alias now"; cases "fst (limiter_allow rl alias now)") auto

lemma size_guard: "(n = 0 \<or> n > (0x100000 :: size_t)) \<longleftrightarrow> \<not> (0 < unat n \<and> unat n \<le> 2 ^ 20)"
  by (auto simp: word_less_nat_alt unat_eq_0)

lemma authorize_cases:
  obtains
    (denied) code reason where "authorize_with_token p i r tok clk = policy_deny p i r clk code reason"
      "\<not> (request_admissible p i r \<and> (mr_preview r \<or> mutation_ready r tok (clk_token clk)))"
  | (preview) "authorize_with_token p i r tok clk =
        (Inr (), emit_audit p (request_event i r ''preview'' ''preview requested'' (clk_audit clk)))"
      "request_admissible p i r" "mr_preview r"
  | (limited) e l where "authorize_with_token p i r tok clk =
        policy_deny (p\<lparr>pol_limiter := l\<rparr>) i r clk EC_rate_limited (err_message e)"
      "request_admissible p i r" "mutation_ready r tok (clk_token clk)"
      "limiter_allow (pol_limiter p) (mr_target_alias r) (clk_limiter clk) = (Inl e, l)"
  | (allowed) l where "authorize_with_token p i r tok clk =
        (Inr (), emit_audit (p\<lparr>pol_limiter := l\<rparr>)
           (request_event i r ''allow'' ''approved'' (clk_audit clk)))"
      "request_admissible p i r" "mutation_ready r tok (clk_token clk)"
      "limiter_allow (pol_limiter p) (mr_target_alias r) (clk_limiter clk) = (Inr (), l)"
proof -
  define D where "D x \<longleftrightarrow> (\<exists>code reason. x = policy_deny p i r clk code reason)" for x
  have [simp]: "D (policy_deny p i r clk code reason)" for code reason unfolding D_def by blast
  show ?thesis
proof (cases "request_admissible p i r")
  case False
  have "D (authorize_with_token p i r tok clk)"
  proof (cases "ks_engaged (pol_kill p) \<or> find_manifest p (mr_target_alias r) = None")
    case True
    then show ?thesis by (auto simp: authorize_with_token_def Let_def)
  next
    case gates: False
    then obtain m where "find_manifest p (mr_target_alias r) = Some m" by auto
    then show ?thesis using gates False size_guard [of "mr_size r"]
      by (intro ccontr [of "D _"]) (auto simp: authorize_with_token_def request_admissible_def Let_def
          invalid_address_def simp del: neq0_conv split: if_split_asm)
  qed
  then show ?thesis using denied False unfolding D_def by blast
next
  case True
  then obtain m where m: "find_manifest p (mr_target_alias r) = Some m" "manifest_matches m i"
    "\<not> (has_cap (mr_capability r) cap_write \<and> \<not> tm_allow_write m)"
    by (auto simp: request_admissible_def)
  note gates = True [unfolded request_admissible_def]
  note unf = authorize_with_token_def Let_def m invalid_address_def
  show ?thesis
  proof (cases "mr_preview r")
    case pre: True
    show ?thesis
      by (rule preview [OF _ True pre])
        (use gates size_guard [of "mr_size r"] pre in \<open>simp add: unf\<close>)
  next
    case mut: False
    show ?thesis
    proof (cases "mutation_ready r tok (clk_token clk)")
      case False
      then have "D (authorize_with_token p i r tok clk)"
        using gates mut size_guard [of "mr_size r"]
        by (cases tok) (auto simp add: unf mutation_ready_def token_valid_def not_le)
      then show ?thesis using denied False mut unfolding D_def by blast
    next
      case ready: True
      show ?thesis
      proof (cases "pol_limiter p" "mr_target_alias r" "clk_limiter clk" rule: limiter_allow_cases)
        case (free l)
        show ?thesis
          by (rule allowed [OF _ True ready free(1)])
            (use gates ready free size_guard [of "mr_size r"] in
              \<open>auto simp: unf mutation_ready_def token_valid_def split: option.splits\<close>)
      next
        case (full e l)
        show ?thesis
          by (rule limited [OF _ True ready full(1)])
            (use gates ready full size_guard [of "mr_size r"] in
              \<open>auto simp: unf mutation_ready_def token_valid_def split: option.splits\<close>)
      qed
    qed
  qed
qed
qed

lemma authorize_okD:
  assumes "authorize_with_token p i r tok clk = (Inr (), p')"
  shows "request_admissible p i r"
    "mr_preview r \<or> mutation_ready r tok (clk_token clk) \<and>
       slot_free (pol_limiter p) (mr_target_alias r) (clk_limiter clk)"
  using assms limiter_allow_ok_iff [of "pol_limiter p" "mr_target_alias r" "clk_limiter clk"]
  by (cases p i r tok clk rule: authorize_cases; simp add: policy_deny_def)+

lemma authorize_keeps:
  "pol_kill (snd (authorize_with_token p i r tok clk)) = pol_kill p"
  "pol_manifests (snd (authorize_with_token p i r tok clk)) = pol_manifests p"
  by (cases p i r tok clk rule: authorize_cases; simp add: policy_deny_def emit_audit_def)+

section \<open>The rate limit over a history of calls\<close>

text \<open>How many calls for \<open>al\<close> within the 60 seconds from \<open>T\<close> a history is granted.\<close>

fun granted :: "rate_limiter \<Rightarrow> (string \<times> int) list \<Rightarrow> string \<Rightarrow> int \<Rightarrow> nat" where
  "granted rl [] al T = 0"
| "granted rl ((a, t) # cs) al T =
     (case limiter_allow rl a t of
        (r, rl') \<Rightarrow> (if result_ok r \<and> a = al \<and> T \<le> t \<and> t < T + 60000 then 1 else 0)
                    + granted rl' cs al T)"

lemma limiter_other:
  "a \<noteq> al \<Longrightarrow> window_of (snd (limiter_allow rl a t)) al = window_of rl al"
  by (auto simp: limiter_allow_def Let_def window_of_def)

lemma limiter_max [simp]: "rl_max (snd (limiter_allow rl a t)) = rl_max rl"
  by (auto simp: limiter_allow_def Let_def)

text \<open>What is known of a window when \<open>N\<close> calls from \<open>T\<close> on were granted, the last at \<open>now\<close>.\<close>

definition window_inv :: "nat \<Rightarrow> rate_window \<Rightarrow> int \<Rightarrow> int \<Rightarrow> nat \<Rightarrow> bool" where
  "window_inv mx w T now N \<longleftrightarrow>
     win_count w \<le> mx \<and> N \<le> 2 * mx \<and> win_start w \<le> now \<and>
     (now < T \<longrightarrow> N = 0) \<and> (win_start w = 0 \<longrightarrow> N = 0) \<and>
     (win_start w < T \<longrightarrow> N \<le> win_count w) \<and>
     (T \<le> win_start w \<and> win_start w < T + 60000 \<longrightarrow> N \<le> mx + win_count w)"

lemma window_inv_step:
  assumes inv: "window_inv (rl_max rl) (window_of rl a) T now N" and t: "now \<le> t" "0 < t"
    and r: "limiter_allow rl a t = (r, rl')"
  shows "window_inv (rl_max rl) (window_of rl' a) T t
           (N + (if result_ok r \<and> T \<le> t \<and> t < T + 60000 then 1 else 0))"
proof -
  define w where "w = window_of rl a"
  define w' where "w' = (if win_start w = 0 \<or> t - win_start w \<ge> 60000
    then \<lparr>win_start = t, win_count = 0\<rparr> else w)"
  have inv': "window_inv (rl_max rl) w T now N" using inv by (simp add: w_def)
  have mid: "win_count w' \<le> rl_max rl" "N \<le> 2 * rl_max rl" "win_start w' \<le> t" "t < T \<longrightarrow> N = 0"
    "win_start w' \<noteq> 0" "win_start w' < T \<longrightarrow> N \<le> win_count w'"
    "T \<le> win_start w' \<and> win_start w' < T + 60000 \<longrightarrow> N \<le> rl_max rl + win_count w'"
    "T + 60000 \<le> win_start w' \<longrightarrow> T + 60000 \<le> t"
    using inv' t by (auto simp: window_inv_def w'_def)
  show ?thesis
  proof (cases "win_count w' \<ge> rl_max rl")
    case True
    then have "\<not> result_ok r" "window_of rl' a = w'"
      using r by (auto simp: limiter_allow_def Let_def w_def [symmetric] w'_def [symmetric]
          result_ok_def window_of_def [of rl'])
    then show ?thesis using mid by (simp add: window_inv_def)
  next
    case False
    then have "result_ok r" "window_of rl' a = w'\<lparr>win_count := Suc (win_count w')\<rparr>"
      using r by (auto simp: limiter_allow_def Let_def w_def [symmetric] w'_def [symmetric]
          result_ok_def window_of_def [of rl'])
    then show ?thesis using mid False by (auto simp: window_inv_def)
  qed
qed

lemma granted_bound:
  assumes "window_inv (rl_max rl) (window_of rl al) T now N"
    and "sorted (now # map snd cs)" "\<forall>c \<in> set cs. 0 < snd c"
  shows "N + granted rl cs al T \<le> 2 * rl_max rl"
  using assms
proof (induction cs arbitrary: rl now N)
  case Nil
  then show ?case by (simp add: window_inv_def)
next
  case (Cons c cs)
  obtain a t where c: "c = (a, t)" by fastforce
  obtain r rl' where r: "limiter_allow rl a t = (r, rl')" by fastforce
  have mx: "rl_max rl' = rl_max rl" using limiter_max [of rl a t] r by simp
  let ?g = "if result_ok r \<and> a = al \<and> T \<le> t \<and> t < T + 60000 then 1 else 0 :: nat"
  have "window_inv (rl_max rl') (window_of rl' al) T t (N + ?g)"
  proof (cases "a = al")
    case True
    then show ?thesis
      using window_inv_step [OF Cons.prems(1), of t r rl'] Cons.prems(2,3) r c mx by simp
  next
    case False
    then have "window_of rl' al = window_of rl al" using limiter_other [of a al rl t] r by simp
    then show ?thesis using Cons.prems c mx False by (auto simp: window_inv_def)
  qed
  from Cons.IH [OF this] show ?case using Cons.prems(2,3) c r mx by simp
qed

section \<open>Properties\<close>


text \<open>
  C2: every authorisation writes exactly one audit event (none when no sink is attached),
  whose decision says what was returned; and nothing else changes but the rate limiter, which
  only a request that passed every other check can touch: previews and denials use no slot.
\<close>

theorem authorize_audited:
  "\<exists>l reason. let A = authorize_with_token p i r tok clk in
     snd A = p\<lparr>pol_limiter := l, pol_audit := pol_audit p @
       (if pol_sink p then [request_event i r
          (if result_ok (fst A) then (if mr_preview r then ''preview'' else ''allow'') else ''deny'')
          reason (clk_audit clk)] else [])\<rparr> \<and>
     (l = pol_limiter p \<or> request_admissible p i r \<and> mutation_ready r tok (clk_token clk) \<and>
        l = snd (limiter_allow (pol_limiter p) (mr_target_alias r) (clk_limiter clk)))"
proof (cases p i r tok clk rule: authorize_cases)
  case (denied code reason)
  then show ?thesis
    by (intro exI [of _ "pol_limiter p"] exI [of _ reason])
      (simp add: policy_deny_def emit_audit_def result_ok_def)
next
  case preview
  then show ?thesis
    by (intro exI [of _ "pol_limiter p"] exI [of _ "''preview requested''"])
      (simp add: emit_audit_def result_ok_def)
next
  case (limited e l)
  then show ?thesis
    by (intro exI [of _ l] exI [of _ "err_message e"])
      (simp add: policy_deny_def emit_audit_def result_ok_def)
next
  case (allowed l)
  then show ?thesis
    by (intro exI [of _ l] exI [of _ "''approved''"])
      (simp add: emit_audit_def result_ok_def mutation_ready_def)
qed

text \<open>
  C32: over any history of calls with non-decreasing positive clock readings, for any aliases,
  the limiter grants one alias at most twice its maximum within any 60 seconds (its windows
  are fixed, not sliding, so two of them can meet in the interval).
\<close>

theorem rate_limit_bound:
  assumes "sorted (map snd cs)" "\<forall>c \<in> set cs. 0 < snd c"
  shows "granted (RateLimiter_new n) cs al T \<le> 2 * n"
proof -
  have "window_inv n (window_of (RateLimiter_new n) al) T 0 0"
    by (simp add: window_inv_def window_of_def RateLimiter_new_def)
  then show ?thesis
    using granted_bound [of "RateLimiter_new n" al T 0 0 cs] assms
    by (auto simp: RateLimiter_new_def less_imp_le)
qed

theorem rate_limit_bound_witness:
  "granted (RateLimiter_new 2) [(''a'', 1), (''a'', 59999), (''b'', 60000), (''a'', 60001), (''a'', 60002)]
     ''a'' 59999 = 3
   \<and> granted (RateLimiter_new 2) [(''a'', 1), (''a'', 59999), (''b'', 60000), (''a'', 60001), (''a'', 60002)]
     ''a'' 59999 \<le> 2 * 2"
proof
  show "granted (RateLimiter_new 2) [(''a'', 1), (''a'', 59999), (''b'', 60000), (''a'', 60001), (''a'', 60002)]
     ''a'' 59999 \<le> 2 * 2"
    by (rule rate_limit_bound) simp_all
qed code_simp

end
