(* ===== verification/Xml_Reader.thy ===== *)
theory Xml_Reader
  imports Core_Types
begin

text \<open>
  The \<open>XmlReader\<close> of \<open>src/parser.cpp\<close>. The reader's position is the suffix of the source
  still to read: a test on \<open>pos_ + k\<close> against \<open>src_.size()\<close> is a test on the length of the
  suffix. Each method returns what it read and the new suffix. \<open>parse_element\<close> recurses
  through the document, so it carries fuel; \<open>element_fuel\<close> of the input is always enough
  (\<open>parse_element_fuel\<close>), and the outermost \<open>option\<close> is \<open>None\<close> only when fuel ran out.
\<close>

section \<open>Nodes\<close>

datatype xml_node = XmlNode (xn_name: string) (xn_text: string)
  (xn_attrs: "(string \<times> string) list") (xn_children: "xml_node list")

definition xml_error :: "string \<Rightarrow> string \<Rightarrow> error" where
  "xml_error message method = make_error EC_parse_failed message (''XmlReader::'' @ method) 0 0"

text \<open>\<open>std::map::emplace\<close>: the first value of a key stays.\<close>

definition emplace :: "(string \<times> string) list \<Rightarrow> string \<Rightarrow> string \<Rightarrow> (string \<times> string) list" where
  "emplace m k v = (if map_of m k \<noteq> None then m else m @ [(k, v)])"

definition find_child :: "xml_node \<Rightarrow> string \<Rightarrow> xml_node option" where
  "find_child node name = List.find (\<lambda>c. xn_name c = name) (xn_children node)"

section \<open>Skipping\<close>

definition skip_bom :: "string \<Rightarrow> string" where
  "skip_bom s = (if 3 \<le> length s \<and> code_of (s ! 0) = 0xEF \<and> code_of (s ! 1) = 0xBB
                    \<and> code_of (s ! 2) = 0xBF then drop 3 s else s)"

definition skip_whitespace :: "string \<Rightarrow> string" where
  "skip_whitespace s = dropWhile is_space s"

fun skip_comment_body :: "string \<Rightarrow> string" where
  "skip_comment_body (a # b # c # s) =
     (if a = CHR ''-'' \<and> b = CHR ''-'' \<and> c = CHR ''>'' then a # b # c # s
      else skip_comment_body (b # c # s))"
| "skip_comment_body s = s"

lemma skip_comment_body_length [len_rules]: "length (skip_comment_body s) \<le> length s"
  by (induction s rule: skip_comment_body.induct) auto

lemma skip_whitespace_length [len_rules]: "length (skip_whitespace s) \<le> length s"
  by (simp add: skip_whitespace_def length_dropWhile_le)

definition skip_comment_end :: "string \<Rightarrow> string" where
  "skip_comment_end s = (if 3 \<le> length s then drop 3 s else s)"

function skip_whitespace_and_comments :: "string \<Rightarrow> string" where
  "skip_whitespace_and_comments s0 =
     (if s0 = [] then s0
      else (let s = skip_whitespace s0 in
        if 4 \<le> length s \<and> s ! 0 = CHR ''<'' \<and> s ! 1 = CHR ''!'' then
          (if s ! 2 = CHR ''-'' \<and> s ! 3 = CHR ''-''
           then skip_whitespace_and_comments (skip_comment_end (skip_comment_body (drop 4 s)))
           else skip_whitespace_and_comments (drop 1 s))
        else s))"
  by pat_completeness auto
termination
proof (relation "measure length")
  fix s0 s :: string
  assume "s0 \<noteq> []" "s = skip_whitespace s0" "4 \<le> length s \<and> s ! 0 = CHR ''<'' \<and> s ! 1 = CHR ''!''"
  moreover have "length (skip_comment_end (skip_comment_body (drop 4 s))) \<le> length (drop 4 s)"
    using skip_comment_body_length [of "drop 4 s"] by (auto simp: skip_comment_end_def)
  ultimately show "(skip_comment_end (skip_comment_body (drop 4 s)), s0) \<in> measure length"
    "(drop 1 s, s0) \<in> measure length"
    using skip_whitespace_length [of s0] by auto
qed simp

declare skip_whitespace_and_comments.simps [simp del]

section \<open>Names, entities, text\<close>

definition is_name_char :: "char \<Rightarrow> bool" where
  "is_name_char c \<longleftrightarrow> is_alnum c \<or> c = CHR ''_'' \<or> c = CHR ''-'' \<or> c = CHR '':'' \<or> c = CHR ''.''"

definition parse_name :: "string \<Rightarrow> (string \<times> string) result" where
  "parse_name s =
     (let out = takeWhile is_name_char s in
      if out = [] then failure (xml_error ''expected an element name'' ''parse_name'')
      else success (out, dropWhile is_name_char s))"

definition skip_semicolon :: "string \<Rightarrow> string" where
  "skip_semicolon s = (case s of c # r \<Rightarrow> if c = CHR '';'' then r else s | [] \<Rightarrow> s)"

definition parse_entity :: "string \<Rightarrow> (string \<times> string) result" where
  "parse_entity s =
     (if 2 < length s \<and> take 3 s = ''&lt'' then success (''<'', skip_semicolon (drop 3 s))
      else if 3 < length s \<and> take 3 s = ''&gt'' then success (''>'', skip_semicolon (drop 3 s))
      else if 4 < length s \<and> take 4 s = ''&amp'' then success (''&'', skip_semicolon (drop 4 s))
      else if 5 < length s \<and> take 5 s = ''&quot'' then success ([CHR 0x22], skip_semicolon (drop 5 s))
      else if 5 < length s \<and> take 5 s = ''&apos'' then success ([CHR 0x27], skip_semicolon (drop 5 s))
      else failure (xml_error ''unsupported XML entity'' ''parse_entity''))"

lemma skip_semicolon_length [len_rules]: "length (skip_semicolon s) \<le> length s"
  by (simp add: skip_semicolon_def split: list.split)

lemma parse_entity_length: "parse_entity s = Inr (e, r) \<Longrightarrow> length r < length s"
  using skip_semicolon_length [of "drop 3 s"] skip_semicolon_length [of "drop 4 s"]
    skip_semicolon_length [of "drop 5 s"]
  by (auto simp: parse_entity_def split: if_splits)

function parse_text_until_open_brace :: "string \<Rightarrow> string \<times> string" where
  "parse_text_until_open_brace s =
     (case s of
        [] \<Rightarrow> ([], s)
      | c # r \<Rightarrow>
          (if c = CHR ''<'' then ([], s)
           else if c = CHR ''&'' then
             (case parse_entity s of
                Inr (e, r') \<Rightarrow>
                  (case parse_text_until_open_brace r' of (out, rest) \<Rightarrow> (e @ out, rest))
              | Inl _ \<Rightarrow> (case parse_text_until_open_brace r of (out, rest) \<Rightarrow> (c # out, rest)))
           else (case parse_text_until_open_brace r of (out, rest) \<Rightarrow> (c # out, rest))))"
  by pat_completeness auto
termination
  by (relation "measure length") (auto dest: parse_entity_length)

declare parse_text_until_open_brace.simps [simp del]

text \<open>The three cases of the text loop.\<close>

lemma parse_text_stop [simp]:
  "parse_text_until_open_brace [] = ([], [])"
  "parse_text_until_open_brace (CHR ''<'' # r) = ([], CHR ''<'' # r)"
  by (simp_all add: parse_text_until_open_brace.simps)

lemma parse_text_char:
  "c \<noteq> CHR ''<'' \<Longrightarrow> c \<noteq> CHR ''&'' \<or> parse_entity (c # r) = Inl e \<Longrightarrow>
     parse_text_until_open_brace (c # r) =
       (c # fst (parse_text_until_open_brace r), snd (parse_text_until_open_brace r))"
  by (subst parse_text_until_open_brace.simps) (auto split: prod.split)

lemma parse_text_entity:
  "parse_entity (CHR ''&'' # r) = Inr (e, r') \<Longrightarrow>
     parse_text_until_open_brace (CHR ''&'' # r) =
       (e @ fst (parse_text_until_open_brace r'), snd (parse_text_until_open_brace r'))"
  by (subst parse_text_until_open_brace.simps) (auto split: prod.split)

lemma parse_text_length [len_rules]: "length (snd (parse_text_until_open_brace s)) \<le> length s"
proof (induction "length s" arbitrary: s rule: less_induct)
  case less
  show ?case
  proof (cases s)
    case (Cons c r)
    consider "c = CHR ''<''" | e where "c \<noteq> CHR ''<''" "c \<noteq> CHR ''&'' \<or> parse_entity (c # r) = Inl e"
      | e r' where "c = CHR ''&''" "parse_entity (c # r) = Inr (e, r')"
      by (cases "parse_entity (c # r)") auto
    then show ?thesis
    proof cases
      case 2
      then show ?thesis using less [of r] Cons parse_text_char [OF 2] by simp
    next
      case (3 e r')
      then show ?thesis
        using less [of r'] Cons parse_entity_length [of s e r'] by (simp add: parse_text_entity)
    qed (simp add: Cons)
  qed simp
qed

section \<open>Attributes\<close>

function parse_attr_value :: "char \<Rightarrow> string \<Rightarrow> string \<Rightarrow> (string \<times> string) result" where
  "parse_attr_value quote value s =
     (case s of
        [] \<Rightarrow> failure (xml_error ''unterminated attribute value'' ''parse_attributes'')
      | c # r \<Rightarrow>
          (if c = quote then success (value, r)
           else if c = CHR ''&'' then
             (case parse_entity s of
                Inl e \<Rightarrow> failure e
              | Inr (e, r') \<Rightarrow> parse_attr_value quote (value @ e) r')
           else parse_attr_value quote (value @ [c]) r))"
  by pat_completeness auto
termination
  by (relation "measure (\<lambda>(_, _, s). length s)") (auto dest: parse_entity_length)

declare parse_attr_value.simps [simp del]

lemma parse_attr_value_end [simp]: "parse_attr_value q v (q # r) = Inr (v, r)"
  by (simp add: parse_attr_value.simps)

lemma parse_attr_value_char:
  "c \<noteq> q \<Longrightarrow> c \<noteq> CHR ''&'' \<Longrightarrow> parse_attr_value q v (c # r) = parse_attr_value q (v @ [c]) r"
  by (simp add: parse_attr_value.simps [of _ _ "c # r"])

lemma parse_attr_value_entity:
  "q \<noteq> CHR ''&'' \<Longrightarrow> parse_entity (CHR ''&'' # r) = Inr (e, r') \<Longrightarrow>
     parse_attr_value q v (CHR ''&'' # r) = parse_attr_value q (v @ e) r'"
  by (simp add: parse_attr_value.simps [of _ _ "CHR ''&'' # r"])

lemma parse_attr_value_length: "parse_attr_value q v s = Inr (w, r) \<Longrightarrow> length r < length s"
proof (induction "length s" arbitrary: s v rule: less_induct)
  case less
  show ?case
  proof (cases s)
    case (Cons c r0)
    show ?thesis
    proof (cases "c = q \<or> c \<noteq> CHR ''&''")
      case True
      then show ?thesis using less.prems less.hyps [of r0 "v @ [c]"] Cons
        by (cases "c = q") (auto simp: parse_attr_value_char)
    next
      case False
      then obtain e r' where "parse_entity s = Inr (e, r')" "parse_attr_value q (v @ e) r' = Inr (w, r)"
        using less.prems Cons by (auto simp: parse_attr_value.simps [of _ _ "CHR ''&'' # r0"] split: sum.splits)
      then show ?thesis using less.hyps [of r' "v @ e"] parse_entity_length [of s e r'] by simp
    qed
  qed (use less.prems in \<open>simp add: parse_attr_value.simps\<close>)
qed

definition parse_attribute :: "string \<Rightarrow> ((string \<times> string) \<times> string) result" where
  "parse_attribute s =
     (case parse_name s of
        Inl e \<Rightarrow> failure e
      | Inr (key, s1) \<Rightarrow>
          (case skip_whitespace s1 of
             [] \<Rightarrow> failure (xml_error (''expected '' @ [CHR 0x27, CHR ''='', CHR 0x27] @
                      '' after attribute name '' @ key) ''parse_attributes'')
           | c # s2 \<Rightarrow>
               (if c \<noteq> CHR ''=''
                then failure (xml_error (''expected '' @ [CHR 0x27, CHR ''='', CHR 0x27] @
                       '' after attribute name '' @ key) ''parse_attributes'')
                else (case skip_whitespace s2 of
                        [] \<Rightarrow> failure (xml_error ''expected quoted attribute value'' ''parse_attributes'')
                      | q # s3 \<Rightarrow>
                          (if q \<noteq> CHR 0x22 \<and> q \<noteq> CHR 0x27
                           then failure (xml_error ''expected quoted attribute value'' ''parse_attributes'')
                           else (case parse_attr_value q [] s3 of
                                   Inl e \<Rightarrow> failure e
                                 | Inr (v, s4) \<Rightarrow> success ((key, v), s4)))))))"

lemma parse_name_length: "parse_name s = Inr (out, r) \<Longrightarrow> length r < length s"
proof -
  assume "parse_name s = Inr (out, r)"
  then have "takeWhile is_name_char s \<noteq> []" "r = dropWhile is_name_char s"
    by (auto simp: parse_name_def Let_def split: if_splits)
  then show ?thesis
    by (metis length_append length_greater_0_conv less_add_same_cancel2 takeWhile_dropWhile_id)
qed

lemma parse_attribute_length: "parse_attribute s = Inr (kv, r) \<Longrightarrow> length r < length s"
proof -
  assume "parse_attribute s = Inr (kv, r)"
  then obtain key s1 c s2 q s3 v where "parse_name s = Inr (key, s1)" "skip_whitespace s1 = c # s2"
    "skip_whitespace s2 = q # s3" "parse_attr_value q [] s3 = Inr (v, r)"
    by (auto simp: parse_attribute_def split: sum.splits list.splits if_splits prod.splits)
  then show ?thesis
    using parse_name_length [of s key s1] skip_whitespace_length [of s1] skip_whitespace_length [of s2]
      parse_attr_value_length [of q "[]" s3 v r] by simp
qed

function parse_attributes_loop ::
  "(string \<times> string) list \<Rightarrow> string \<Rightarrow> ((string \<times> string) list \<times> string) result" where
  "parse_attributes_loop out s0 =
     (let s = skip_whitespace s0 in
      case s of
        [] \<Rightarrow> success (out, s)
      | c # _ \<Rightarrow>
          (if c = CHR ''/'' \<or> c = CHR ''>'' then success (out, s)
           else (case parse_attribute s of
                   Inl e \<Rightarrow> failure e
                 | Inr ((k, v), r) \<Rightarrow> parse_attributes_loop (emplace out k v) r)))"
  by pat_completeness auto
termination
proof (relation "measure (\<lambda>(_, s). length s)")
  fix out and s0 s :: string and c r x k v and p :: "(string \<times> string) \<times> string" and r'
  assume "s = skip_whitespace s0" "parse_attribute s = Inr p" "(x, r') = p"
  then show "((emplace out k v, r'), (out, s0)) \<in> measure (\<lambda>(_, s). length s)"
    using parse_attribute_length [of s x r'] skip_whitespace_length [of s0] by simp
qed simp

declare parse_attributes_loop.simps [simp del]

definition parse_attributes :: "string \<Rightarrow> ((string \<times> string) list \<times> string) result" where
  "parse_attributes s = parse_attributes_loop [] s"

section \<open>Elements and documents\<close>

text \<open>
  \<open>parse_element\<close> and its loop over children and the closing tag. Fuel is consumed by each
  call; \<open>None\<close> is running out of it.
\<close>

fun parse_element :: "nat \<Rightarrow> string \<Rightarrow> (xml_node \<times> string) result option"
  and parse_children :: "nat \<Rightarrow> xml_node \<Rightarrow> string \<Rightarrow> (xml_node \<times> string) result option" where
  "parse_element 0 s = None"
| "parse_element (Suc n) s =
     (let err = (\<lambda>m. Some (failure (xml_error m ''parse_element''))) in
      case s of
        [] \<Rightarrow> err (''expected '' @ [CHR 0x27, CHR ''<'', CHR 0x27] @ '' to start an element'')
      | c # s1 \<Rightarrow>
        if c \<noteq> CHR ''<''
        then err (''expected '' @ [CHR 0x27, CHR ''<'', CHR 0x27] @ '' to start an element'')
        else if s1 \<noteq> [] \<and> hd s1 = CHR ''/''
        then err ''unexpected closing tag without an open element''
        else (case parse_name s1 of
          Inl e \<Rightarrow> Some (failure e)
        | Inr (name, s2) \<Rightarrow>
          (case parse_attributes s2 of
            Inl e \<Rightarrow> Some (failure e)
          | Inr (attrs, s3) \<Rightarrow>
            (let s4 = skip_whitespace s3 in
             if s4 \<noteq> [] \<and> hd s4 = CHR ''/'' then
               (let s5 = tl s4 in
                if s5 = [] \<or> hd s5 \<noteq> CHR ''>''
                then err (''expected '' @ [CHR 0x27, CHR ''>'', CHR 0x27] @ '' to close a self-closing tag'')
                else Some (success (XmlNode name [] attrs [], tl s5)))
             else if s4 = [] \<or> hd s4 \<noteq> CHR ''>''
             then err (''expected '' @ [CHR 0x27, CHR ''>'', CHR 0x27] @ '' to close an open tag'')
             else (case parse_text_until_open_brace (tl s4) of
                     (text, s6) \<Rightarrow> parse_children n (XmlNode name text attrs []) s6)))))"
| "parse_children 0 node s = None"
| "parse_children (Suc n) node s0 =
     (let err = (\<lambda>m. Some (failure (xml_error m ''parse_element'')));
          s = skip_whitespace_and_comments s0 in
      if s = [] then err (''unterminated element '' @ xn_name node)
      else if hd s \<noteq> CHR ''<''
      then err (''expected '' @ [CHR 0x27, CHR ''<'', CHR 0x27] @ '' to start a child or closing tag'')
      else if tl s \<noteq> [] \<and> hd (tl s) = CHR ''/'' then
        (case parse_name (tl (tl s)) of
           Inl e \<Rightarrow> Some (failure e)
         | Inr (close_name, s1) \<Rightarrow>
             if close_name \<noteq> xn_name node
             then err (''mismatched closing tag: expected '' @ xn_name node @ '' got '' @ close_name)
             else (let s2 = skip_whitespace s1 in
                   if s2 = [] \<or> hd s2 \<noteq> CHR ''>''
                   then err (''expected '' @ [CHR 0x27, CHR ''>'', CHR 0x27] @ '' to close closing tag'')
                   else Some (success (node, tl s2))))
      else (case parse_element n s of
              None \<Rightarrow> None
            | Some (Inl e) \<Rightarrow> Some (failure e)
            | Some (Inr (child, s1)) \<Rightarrow>
                parse_children n
                  (XmlNode (xn_name node) (xn_text node) (xn_attrs node) (xn_children node @ [child])) s1))"

definition element_fuel :: "string \<Rightarrow> nat" where
  "element_fuel s = 2 * length s + 1"

text \<open>The processing instructions before the root element.\<close>

fun skip_pi_body :: "string \<Rightarrow> string" where
  "skip_pi_body (a # b # s) = (if a = CHR ''?'' \<and> b = CHR ''>'' then a # b # s else skip_pi_body (b # s))"
| "skip_pi_body s = s"

lemma skip_pi_body_length [len_rules]: "length (skip_pi_body s) \<le> length s"
  by (induction s rule: skip_pi_body.induct) auto

lemma skip_comments_length [len_rules]: "length (skip_whitespace_and_comments s) \<le> length s"
proof (induction s rule: skip_whitespace_and_comments.induct)
  case (1 s0)
  define s where "s = skip_whitespace s0"
  have l: "length s \<le> length s0" unfolding s_def by (rule skip_whitespace_length)
  have "length (skip_comment_end (skip_comment_body (drop 4 s))) \<le> length s0"
    using skip_comment_body_length [of "drop 4 s"] l by (auto simp: skip_comment_end_def)
  then show ?case
    using 1 l by (subst skip_whitespace_and_comments.simps) (auto simp: Let_def s_def)
qed

function skip_prolog :: "string \<Rightarrow> string" where
  "skip_prolog s =
     (if 2 \<le> length s \<and> s ! 0 = CHR ''<'' \<and> s ! 1 = CHR ''?'' then
        (let s1 = skip_pi_body (drop 2 s);
             s2 = (if 2 \<le> length s1 then drop 2 s1 else s1)
         in skip_prolog (skip_whitespace_and_comments s2))
      else s)"
  by pat_completeness auto
termination
proof (relation "measure length")
  fix s s1 s2 :: string
  assume a: "2 \<le> length s \<and> s ! 0 = CHR ''<'' \<and> s ! 1 = CHR ''?''" "s1 = skip_pi_body (drop 2 s)"
    "s2 = (if 2 \<le> length s1 then drop 2 s1 else s1)"
  have "length (skip_whitespace_and_comments s2) \<le> length s2" by (rule skip_comments_length)
  also have "\<dots> \<le> length s1" using a(3) by simp
  also have "\<dots> \<le> length (drop 2 s)" unfolding a(2) by (rule skip_pi_body_length)
  finally have "length (skip_whitespace_and_comments s2) \<le> length s - 2" by simp
  moreover have "2 \<le> length s" using a(1) by blast
  ultimately have "length (skip_whitespace_and_comments s2) < length s" by linarith
  then show "(skip_whitespace_and_comments s2, s) \<in> measure length" by simp
qed simp

declare skip_prolog.simps [simp del]

definition parse_root :: "string \<Rightarrow> xml_node result option" where
  "parse_root src =
     (let s = skip_prolog (skip_bom (skip_whitespace src)) in
      if s = [] \<or> hd s \<noteq> CHR ''<''
      then Some (failure (xml_error ''document does not begin with an element'' ''parse_root''))
      else (case parse_element (element_fuel s) s of
              None \<Rightarrow> None
            | Some (Inl e) \<Rightarrow> Some (failure e)
            | Some (Inr (root, s1)) \<Rightarrow>
                (if skip_whitespace_and_comments s1 \<noteq> []
                 then Some (failure (xml_error ''trailing content after the root element'' ''parse_root''))
                 else Some (success root))))"

section \<open>Enough fuel\<close>

lemma parse_attributes_loop_length:
  "parse_attributes_loop out s = Inr (attrs, r) \<Longrightarrow> length r \<le> length s"
proof (induction "length s" arbitrary: out s rule: less_induct)
  case less
  have l: "length (skip_whitespace s) \<le> length s" by (rule skip_whitespace_length)
  show ?case
  proof (cases "skip_whitespace s")
    case Nil
    then show ?thesis using less.prems by (simp add: parse_attributes_loop.simps [of out s])
  next
    case (Cons c r')
    show ?thesis
    proof (cases "c = CHR ''/'' \<or> c = CHR ''>''")
      case True
      then show ?thesis using less.prems Cons l by (auto simp: parse_attributes_loop.simps [of out s])
    next
      case False
      then obtain k v r1 where a: "parse_attribute (skip_whitespace s) = Inr ((k, v), r1)"
        "parse_attributes_loop (emplace out k v) r1 = Inr (attrs, r)"
        using less.prems Cons
        by (auto simp: parse_attributes_loop.simps [of out s] split: sum.splits prod.splits)
      have "length r1 < length s" using parse_attribute_length [OF a(1)] l by simp
      then show ?thesis using less.hyps [OF _ a(2)] by simp
    qed
  qed
qed

lemma fuel_enough:
  "2 * length s + 1 \<le> n \<Longrightarrow> settles (parse_element n s) s"
  "2 * length s + 2 \<le> n \<Longrightarrow> settles (parse_children n node s) s"
proof (induction n arbitrary: s node)
  case 0
  { case 1 then show ?case by simp }
  { case 2 then show ?case by simp }
next
  case (Suc n)
  { case 1
    show ?case
    proof (cases s)
      case (Cons c s1)
      show ?thesis
      proof (cases "c = CHR ''<'' \<and> \<not> (s1 \<noteq> [] \<and> hd s1 = CHR ''/'')")
        case False
        then show ?thesis using Cons by (auto simp: Let_def)
      next
        case tag: True
        show ?thesis
        proof (cases "parse_name s1")
          case (Inl e)
          then show ?thesis using tag Cons by (simp add: Let_def)
        next
          case name: (Inr p)
          obtain nm s2 where p: "p = (nm, s2)" by fastforce
          show ?thesis
          proof (cases "parse_attributes s2")
            case (Inl e)
            then show ?thesis using tag name p Cons by (simp add: Let_def)
          next
            case attrs: (Inr q)
            obtain at s3 where q: "q = (at, s3)" by fastforce
            have len: "length (skip_whitespace s3) < length s1"
              using parse_name_length [of s1 nm s2] name p parse_attributes_loop_length [of "[]" s2 at s3]
                attrs q skip_whitespace_length [of s3] by (simp add: parse_attributes_def)
            note unf = tag name p attrs q Cons
            show ?thesis
            proof (cases "skip_whitespace s3")
              case Nil
              then show ?thesis using unf by (simp add: Let_def)
            next
              case ws: (Cons d s5)
              obtain t s6 where t: "parse_text_until_open_brace s5 = (t, s6)" by fastforce
              have "length s6 < length s1" using parse_text_length [of s5] t len ws by simp
              moreover from this have "settles (parse_children n (XmlNode nm t at []) s6) s6"
                using 1 Cons by (intro Suc.IH(2)) simp
              ultimately have "settles (parse_children n (XmlNode nm t at []) s6) (c # s1)"
                by (auto elim: settles_shorter)
              then show ?thesis using unf ws t len by (auto simp: Let_def)
            qed
          qed
        qed
      qed
    qed simp }
  { case 2
    define s' where "s' = skip_whitespace_and_comments s"
    have l: "length s' \<le> length s" unfolding s'_def by (rule skip_comments_length)
    show ?case
    proof (cases "s' = [] \<or> hd s' \<noteq> CHR ''<''")
      case True
      then show ?thesis by (auto simp: s'_def Let_def)
    next
      case lt: False
      show ?thesis
      proof (cases "tl s' \<noteq> [] \<and> hd (tl s') = CHR ''/''")
        case close: True
        show ?thesis
        proof (cases "parse_name (tl (tl s'))")
          case (Inl e)
          then show ?thesis using lt close by (simp add: s'_def Let_def)
        next
          case (Inr p)
          obtain nm s1 where p: "p = (nm, s1)" by fastforce
          have "length (skip_whitespace s1) < length s"
            using parse_name_length [of "tl (tl s')" nm s1] Inr p skip_whitespace_length [of s1] l by simp
          then have "length (tl (skip_whitespace s1)) < length s" by simp
          then show ?thesis using lt close Inr p by (simp add: s'_def Let_def)
        qed
      next
        case child: False
        have "settles (parse_element n s') s'" using 2 l by (intro Suc.IH(1)) simp
        then show ?thesis
        proof (cases rule: settles_cases)
          case (1 e)
          then show ?thesis using lt child by (auto simp: s'_def Let_def)
        next
          case (2 c rest)
          let ?node = "XmlNode (xn_name node) (xn_text node) (xn_attrs node) (xn_children node @ [c])"
          have "settles (parse_children n ?node rest) rest"
            using 2 l \<open>2 * length s + 2 \<le> Suc n\<close> by (intro Suc.IH(2)) simp
          then have "settles (parse_children n ?node rest) s" using 2 l by (auto elim: settles_shorter)
          then show ?thesis using 2 lt child by (auto simp: s'_def Let_def)
        qed
      qed
    qed }
qed

lemma parse_root_total: "\<exists>r. parse_root src = Some r"
proof -
  let ?s = "skip_prolog (skip_bom (skip_whitespace src))"
  have "settles (parse_element (element_fuel ?s) ?s) ?s"
    by (rule fuel_enough) (simp add: element_fuel_def)
  then show ?thesis
    by (cases rule: settles_cases) (auto simp: parse_root_def Let_def)
qed

section \<open>A reference printer\<close>

definition escape_text_char :: "char \<Rightarrow> string" where
  "escape_text_char c = (if c = CHR ''<'' then ''&lt;'' else if c = CHR ''&'' then ''&amp;'' else [c])"

definition escape_attr_char :: "char \<Rightarrow> string" where
  "escape_attr_char c = (if c = CHR 0x22 then ''&quot;''
     else if c = CHR ''&'' then ''&amp;'' else [c])"

definition escape_text :: "string \<Rightarrow> string" where
  "escape_text t = concat (map escape_text_char t)"

definition escape_attr :: "string \<Rightarrow> string" where
  "escape_attr t = concat (map escape_attr_char t)"

definition print_attr :: "string \<times> string \<Rightarrow> string" where
  "print_attr kv = CHR '' '' # fst kv @ CHR ''='' # CHR 0x22 # escape_attr (snd kv) @ [CHR 0x22]"

fun print_node :: "xml_node \<Rightarrow> string" where
  "print_node (XmlNode n t as cs) =
     CHR ''<'' # n @ concat (map print_attr as) @ CHR ''>'' # escape_text t @
     concat (map print_node cs) @ CHR ''<'' # CHR ''/'' # n @ ''>''"

definition valid_name :: "string \<Rightarrow> bool" where
  "valid_name n \<longleftrightarrow> n \<noteq> [] \<and> list_all is_name_char n"

fun valid_node :: "xml_node \<Rightarrow> bool" where
  "valid_node (XmlNode n t as cs) \<longleftrightarrow> valid_name n \<and> list_all (\<lambda>kv. valid_name (fst kv)) as
     \<and> distinct (map fst as) \<and> list_all valid_node cs"

text \<open>What a node needs of fuel.\<close>

fun node_fuel :: "xml_node \<Rightarrow> nat" where
  "node_fuel (XmlNode n t as cs) = 2 + sum_list (map (\<lambda>c. Suc (node_fuel c)) cs)"

section \<open>The reader inverts the printer\<close>

lemma name_char_special:
  assumes "is_name_char c"
  shows "\<not> is_space c" "c \<noteq> CHR ''<''" "c \<noteq> CHR ''>''" "c \<noteq> CHR ''/''" "c \<noteq> CHR ''!''" "c \<noteq> CHR ''?''"
    "c \<noteq> CHR ''=''"
  using assms by (auto simp: is_name_char_def is_alnum_def is_digit_def is_space_def)

lemma parse_name_append:
  assumes "valid_name n" "r = [] \<or> \<not> is_name_char (hd r)"
  shows "parse_name (n @ r) = Inr (n, r)"
proof -
  have all: "\<And>c. c \<in> set n \<Longrightarrow> is_name_char c" using assms by (auto simp: valid_name_def list_all_iff)
  have "takeWhile is_name_char r = []" "dropWhile is_name_char r = r" using assms(2) by (cases r; simp)+
  then show ?thesis using assms(1) all
    by (simp add: parse_name_def takeWhile_append2 dropWhile_append2 valid_name_def)
qed

lemma parse_entity_amp: "parse_entity (''&amp;'' @ r) = Inr (''&'', r)"
  by (simp add: parse_entity_def skip_semicolon_def)

lemma parse_entity_lt: "parse_entity (''&lt;'' @ r) = Inr (''<'', r)"
  by (simp add: parse_entity_def skip_semicolon_def)

lemma parse_entity_quot: "parse_entity (''&quot;'' @ r) = Inr ([CHR 0x22], r)"
  by (simp add: parse_entity_def skip_semicolon_def)

lemma parse_text_escape:
  "parse_text_until_open_brace (escape_text t @ CHR ''<'' # r) = (t, CHR ''<'' # r)"
proof (induction t)
  case (Cons c t)
  let ?s = "escape_text t @ CHR ''<'' # r"
  consider "c = CHR ''<''" | "c = CHR ''&''" | "c \<noteq> CHR ''<''" "c \<noteq> CHR ''&''" by blast
  then show ?case
  proof cases
    case 1
    then show ?thesis
      using parse_text_entity [of "''lt;'' @ ?s" "''<''" ?s] parse_entity_lt [of ?s] Cons
      by (simp add: escape_text_def escape_text_char_def)
  next
    case 2
    then show ?thesis
      using parse_text_entity [of "''amp;'' @ ?s" "''&''" ?s] parse_entity_amp [of ?s] Cons
      by (simp add: escape_text_def escape_text_char_def)
  next
    case 3
    then show ?thesis
      using parse_text_char [of c ?s] Cons by (simp add: escape_text_def escape_text_char_def)
  qed
qed (simp add: escape_text_def)

lemma parse_attr_escape:
  "parse_attr_value CHR 0x22 v (escape_attr w @ CHR 0x22 # r) = Inr (v @ w, r)"
proof (induction w arbitrary: v)
  case (Cons c w)
  let ?q = "CHR 0x22"
  let ?s = "escape_attr w @ ?q # r"
  have q: "?q \<noteq> CHR ''&''" by simp
  consider "c = ?q" | "c = CHR ''&''" | "c \<noteq> ?q" "c \<noteq> CHR ''&''" by blast
  then show ?case
  proof cases
    case 1
    then show ?thesis
      using parse_attr_value_entity [OF q, of "''quot;'' @ ?s" "[?q]" ?s v] parse_entity_quot [of ?s] Cons
      by (simp add: escape_attr_def escape_attr_char_def)
  next
    case 2
    then show ?thesis
      using parse_attr_value_entity [OF q, of "''amp;'' @ ?s" "''&''" ?s v] parse_entity_amp [of ?s] Cons q
      by (simp add: escape_attr_def escape_attr_char_def)
  next
    case 3
    then show ?thesis
      using parse_attr_value_char [of c ?q v ?s] Cons by (simp add: escape_attr_def escape_attr_char_def)
  qed
qed (simp add: escape_attr_def)

lemma skip_whitespace_nonspace [simp]: "\<not> is_space c \<Longrightarrow> skip_whitespace (c # r) = c # r"
  by (simp add: skip_whitespace_def)

lemma is_space_simps [simp]:
  "is_space CHR '' ''" "\<not> is_space CHR ''=''" "\<not> is_space CHR 0x22" "\<not> is_space CHR ''>''" "\<not> is_space CHR ''<''"
  by (simp_all add: is_space_def)

lemma parse_attribute_print:
  assumes "valid_name k"
  shows "parse_attribute (tl (print_attr (k, v)) @ r) = Inr ((k, v), r)"
proof -
  have "parse_name (k @ CHR ''='' # CHR 0x22 # escape_attr v @ CHR 0x22 # r)
      = Inr (k, CHR ''='' # CHR 0x22 # escape_attr v @ CHR 0x22 # r)"
    using assms by (intro parse_name_append) (auto simp: is_name_char_def is_alnum_def is_digit_def)
  then show ?thesis using parse_attr_escape [of "[]" v r] by (simp add: parse_attribute_def print_attr_def)
qed

lemma parse_attributes_print:
  assumes "list_all (\<lambda>kv. valid_name (fst kv)) as" "distinct (map fst (out @ as))"
  shows "parse_attributes_loop out (concat (map print_attr as) @ CHR ''>'' # r) = Inr (out @ as, CHR ''>'' # r)"
  using assms
proof (induction "as" arbitrary: out)
  case Nil
  then show ?case by (simp add: parse_attributes_loop.simps)
next
  case (Cons kv as)
  obtain k v where kv: "kv = (k, v)" by fastforce
  let ?rest = "concat (map print_attr as) @ CHR ''>'' # r"
  let ?s = "tl (print_attr (k, v)) @ ?rest"
  have k: "valid_name k" using Cons.prems kv by simp
  then obtain c k' where ck: "k = c # k'" "is_name_char c" by (cases k) (auto simp: valid_name_def)
  note sp = name_char_special [OF ck(2)]
  obtain u where u: "?s = c # u" using ck by (simp add: print_attr_def)
  have ws: "skip_whitespace (print_attr (k, v) @ ?rest) = c # u"
    using ck sp by (simp add: u [symmetric] print_attr_def skip_whitespace_def)
  have pa: "parse_attribute (c # u) = Inr ((k, v), ?rest)"
    using parse_attribute_print [OF k, of v ?rest] by (simp only: u)
  have new: "emplace out k v = out @ [(k, v)]"
    using Cons.prems(2) kv by (auto simp: emplace_def map_of_eq_None_iff)
  have "parse_attributes_loop out (print_attr (k, v) @ ?rest) = parse_attributes_loop (out @ [(k, v)]) ?rest"
    using sp by (subst parse_attributes_loop.simps) (simp add: ws pa new del: append_assoc)
  then show ?case using Cons.IH [of "out @ [(k, v)]"] Cons.prems kv by simp
qed

lemma skip_comments_tag:
  assumes "c \<noteq> CHR ''!''"
  shows "skip_whitespace_and_comments (CHR ''<'' # c # r) = CHR ''<'' # c # r"
  using assms by (subst skip_whitespace_and_comments.simps) simp

lemma print_node_start:
  assumes "valid_node x"
  obtains c r where "print_node x = CHR ''<'' # c # r" "is_name_char c"
proof -
  obtain n t ats cs where x: "x = XmlNode n t ats cs" by (cases x)
  with assms obtain c n' where "n = c # n'" "is_name_char c" by (cases n) (auto simp: valid_name_def)
  then show ?thesis using that x by simp
qed

lemma parse_children_print:
  assumes kids: "\<And>c m r. c \<in> set cs \<Longrightarrow> node_fuel c \<le> m \<Longrightarrow> parse_element m (print_node c @ r) = Some (Inr (c, r))"
    and valid: "list_all valid_node cs" "valid_name n"
    and fuel: "Suc (sum_list (map (\<lambda>c. Suc (node_fuel c)) cs)) \<le> m"
  shows "parse_children m (XmlNode n t as ds) (concat (map print_node cs) @ CHR ''<'' # CHR ''/'' # n @ CHR ''>'' # r)
       = Some (Inr (XmlNode n t as (ds @ cs), r))"
  using assms
proof (induction cs arbitrary: m ds)
  case Nil
  then obtain m' where "m = Suc m'" by (cases m) auto
  moreover have "parse_name (n @ CHR ''>'' # r) = Inr (n, CHR ''>'' # r)"
    using Nil by (intro parse_name_append) (auto simp: is_name_char_def is_alnum_def is_digit_def)
  ultimately show ?case by (simp add: skip_comments_tag)
next
  case (Cons c cs)
  obtain m' where m: "m = Suc m'" using Cons.prems(4) by (cases m) auto
  let ?rest = "concat (map print_node cs) @ CHR ''<'' # CHR ''/'' # n @ CHR ''>'' # r"
  obtain d r' where d: "print_node c = CHR ''<'' # d # r'" "is_name_char d"
    by (rule print_node_start [of c]) (use Cons.prems in simp)
  note sp = name_char_special [OF d(2)]
  have el: "parse_element m' (print_node c @ ?rest) = Some (Inr (c, ?rest))"
    using Cons.prems m by (intro Cons.prems(1)) auto
  have ws: "skip_whitespace_and_comments (print_node c @ ?rest) = print_node c @ ?rest"
    using d sp by (simp add: skip_comments_tag)
  have "parse_children m (XmlNode n t as ds) (print_node c @ ?rest)
      = parse_children m' (XmlNode n t as (ds @ [c])) ?rest"
    using d sp el unfolding m by (subst parse_children.simps, subst ws) simp
  also have "\<dots> = Some (Inr (XmlNode n t as ((ds @ [c]) @ cs), r))"
    using Cons.prems m by (intro Cons.IH) auto
  finally show ?case by simp
qed

lemma parse_element_print:
  "valid_node x \<Longrightarrow> node_fuel x \<le> m \<Longrightarrow> parse_element m (print_node x @ r) = Some (Inr (x, r))"
proof (induction x arbitrary: m r)
  case (XmlNode n t ats cs)
  obtain m' where m: "m = Suc m'" using XmlNode.prems(2) by (cases m) auto
  have n: "valid_name n" using XmlNode.prems by simp
  let ?kids = "concat (map print_node cs) @ CHR ''<'' # CHR ''/'' # n @ CHR ''>'' # r"
  let ?attrs = "concat (map print_attr ats) @ CHR ''>'' # escape_text t @ ?kids"
  have name: "parse_name (n @ ?attrs) = Inr (n, ?attrs)"
    using n by (intro parse_name_append)
      (cases ats; auto simp: print_attr_def is_name_char_def is_alnum_def is_digit_def)+
  have attrs: "parse_attributes ?attrs = Inr (ats, CHR ''>'' # escape_text t @ ?kids)"
    using parse_attributes_print [of ats "[]" "escape_text t @ ?kids"] XmlNode.prems
    by (simp add: parse_attributes_def)
  have body: "parse_text_until_open_brace (escape_text t @ ?kids) = (t, ?kids)"
  proof -
    have "\<exists>k. ?kids = CHR ''<'' # k"
    proof (cases cs)
      case (Cons c cs')
      then show ?thesis by (cases c) simp
    qed simp
    then show ?thesis using parse_text_escape [of t] by auto
  qed
  have kids: "parse_children m' (XmlNode n t ats []) ?kids = Some (Inr (XmlNode n t ats ([] @ cs), r))"
    using XmlNode m by (intro parse_children_print) (auto simp: list_all_iff)
  obtain c n' where "n = c # n'" "is_name_char c" using n by (cases n) (auto simp: valid_name_def)
  then have "n \<noteq> []" "hd n \<noteq> CHR ''/''" using name_char_special by auto
  then show ?case using m name attrs body kids by (simp add: Let_def)
qed

lemma node_fuel_length: "Suc (node_fuel x) \<le> length (print_node x)"
proof (induction x)
  case (XmlNode n t ats cs)
  have "sum_list (map (\<lambda>c. Suc (node_fuel c)) cs) \<le> sum_list (map (\<lambda>c. length (print_node c)) cs)"
    using XmlNode by (intro sum_list_mono) auto
  then show ?case by (simp add: length_concat comp_def)
qed

section \<open>Properties\<close>

text \<open>
  C40: the XML reader returns on every input: the fuel given to it, twice the length of the
  document, is never exhausted, because every element consumes input.
\<close>

theorem xml_reader_returns: "\<exists>r. parse_root src = Some r"
  by (rule parse_root_total)

text \<open>
  C17: printing any well-formed tree (names of name characters, distinct attribute keys,
  arbitrary text and attribute values, escaped) and reading it gives back that tree.
\<close>

theorem xml_roundtrip:
  assumes "valid_node x"
  shows "parse_root (print_node x) = Some (Inr x)"
proof -
  obtain c r where p: "print_node x = CHR ''<'' # c # r" "is_name_char c"
    using assms by (rule print_node_start)
  have start: "skip_prolog (skip_bom (skip_whitespace (print_node x))) = print_node x"
    using p name_char_special [OF p(2)]
    by (simp add: skip_bom_def skip_prolog.simps [of "CHR ''<'' # c # r"])
  have "node_fuel x \<le> element_fuel (print_node x)"
    using node_fuel_length [of x] by (simp add: element_fuel_def)
  from parse_element_print [OF assms this, of "[]"] show ?thesis
    using p start by (simp add: parse_root_def Let_def skip_whitespace_and_comments.simps)
qed

definition demo_node :: xml_node where
  "demo_node = XmlNode ''CheatTable'' [] [(''CheatEngineTableVersion'', ''42'')]
     [XmlNode ''Title'' ''a < b & c'' [] [], XmlNode ''Note'' ''x'' [(''q'', [CHR 0x22, CHR ''&''])] []]"

theorem xml_roundtrip_witness: "parse_root (print_node demo_node) = Some (Inr demo_node)"
  by (rule xml_roundtrip)
    (simp add: demo_node_def valid_name_def is_name_char_def is_alnum_def is_digit_def)

end
