(* ===== verification/Number_Text.thy ===== *)
theory Number_Text
  imports Prelude
begin

text \<open>
  \<open>std::stoll\<close>, used by the cheat-table and the JSON parser, modelled as \<open>strtoll\<close> of the C
  locale: leading white space, a sign, the prefixes of base 0 and base 16, the longest run of
  digits. No digit, or a value outside the 64-bit range, is an exception: \<open>None\<close>.
  \<open>std::stoul\<close> differs in the range check and in what a minus sign means.
\<close>

section \<open>Definitions\<close>

definition char_digit :: "char \<Rightarrow> nat" where
  "char_digit c = (if is_digit c then code_of c - 48
     else if 97 \<le> code_of c \<and> code_of c \<le> 122 then code_of c - 87
     else if 65 \<le> code_of c \<and> code_of c \<le> 90 then code_of c - 55
     else 99)"

fun base_value :: "nat \<Rightarrow> nat \<Rightarrow> string \<Rightarrow> nat" where
  "base_value b acc [] = acc"
| "base_value b acc (c # cs) = base_value b (b * acc + char_digit c) cs"

text \<open>The prefix of a hexadecimal literal counts only when a digit follows it.\<close>

fun has_hex_prefix :: "string \<Rightarrow> bool" where
  "has_hex_prefix (a # x # d # r) \<longleftrightarrow>
     a = CHR ''0'' \<and> (x = CHR ''x'' \<or> x = CHR ''X'') \<and> char_digit d < 16"
| "has_hex_prefix s \<longleftrightarrow> False"

text \<open>The sign and the magnitude of the number at the front of a text, if there is one.\<close>

definition strto :: "nat \<Rightarrow> string \<Rightarrow> (bool \<times> nat) option" where
  "strto base s0 =
     (let s = dropWhile is_space s0;
          neg = (s \<noteq> [] \<and> hd s = CHR ''-'');
          s1 = (if s \<noteq> [] \<and> (hd s = CHR ''-'' \<or> hd s = CHR ''+'') then tl s else s);
          hex = ((base = 0 \<or> base = 16) \<and> has_hex_prefix s1);
          b = (if base \<noteq> 0 then base else if hex then 16
               else if s1 \<noteq> [] \<and> hd s1 = CHR ''0'' then 8 else 10);
          digits = takeWhile (\<lambda>c. char_digit c < b) (if hex then drop 2 s1 else s1)
      in if digits = [] then None else Some (neg, base_value b 0 digits))"

definition stoll :: "nat \<Rightarrow> string \<Rightarrow> int option" where
  "stoll base s =
     (case strto base s of
        None \<Rightarrow> None
      | Some (neg, n) \<Rightarrow>
          (let v = (if neg then - int n else int n)
           in if v < - (2 ^ 63) \<or> 2 ^ 63 \<le> v then None else Some v))"

text \<open>\<open>std::stoul\<close> of a 64-bit \<open>unsigned long\<close>: a minus sign negates modulo \<open>2^64\<close>.\<close>

definition stoul :: "nat \<Rightarrow> string \<Rightarrow> u64 option" where
  "stoul base s =
     (case strto base s of
        None \<Rightarrow> None
      | Some (neg, n) \<Rightarrow>
          (if 2 ^ 64 \<le> n then None else Some (if neg then - of_nat n else of_nat n)))"

section \<open>Lemmas: numbers\<close>

lemma base_value_10: "\<forall>c \<in> set cs. is_digit c \<Longrightarrow> base_value 10 acc cs = digits_value acc cs"
  by (induction cs arbitrary: acc) (simp_all add: char_digit_def digit_val_def)

lemma show_nat_head: "0 < n \<Longrightarrow> hd (show_nat n) \<noteq> CHR ''0''"
proof (induction n rule: show_nat.induct)
  case (1 n)
  show ?case
  proof (cases "n < 10")
    case True
    then have "code_of (digit_char n) = 48 + n" by simp
    then have "digit_char n \<noteq> CHR ''0''" using 1 by auto
    then show ?thesis using True by (subst show_nat.simps) simp
  next
    case False
    then have "hd (show_nat (n div 10)) \<noteq> CHR ''0''" using 1 by simp
    then show ?thesis using False by (subst show_nat.simps) simp
  qed
qed

lemma digit_facts:
  assumes "is_digit c"
  shows "\<not> is_space c" "c \<noteq> CHR ''-''" "c \<noteq> CHR ''+''" "char_digit c < 10" "c \<noteq> CHR ''x''" "c \<noteq> CHR ''X''"
  using assms by (auto simp: is_digit_def is_space_def char_digit_def)

lemma show_nat_Cons: obtains c cs where "show_nat n = c # cs" "is_digit c" "\<forall>d \<in> set cs. is_digit d"
  using show_nat_digits [of n] by (cases "show_nat n") auto

lemma show_nat_0: "show_nat 0 = ''0''"
proof -
  have "code_of (digit_char 0) = code_of CHR ''0''" by simp
  then have "digit_char 0 = CHR ''0''" by (simp only: of_char_eq_iff)
  then show ?thesis by (subst show_nat.simps) simp
qed

lemma takeWhile_digits:
  assumes "b = 8 \<and> n = 0 \<or> b = (10 :: nat)"
  shows "takeWhile (\<lambda>c. char_digit c < b) (show_nat n) = show_nat n"
proof (cases "b = 10")
  case True
  then show ?thesis using show_nat_digits [of n] digit_facts(4) by (simp add: takeWhile_eq_all_conv)
next
  case False
  then show ?thesis using assms by (simp add: show_nat_0 char_digit_def is_digit_def)
qed

lemma no_hex_prefix: "\<not> has_hex_prefix (show_nat n)"
proof -
  obtain c cs where "show_nat n = c # cs" "\<forall>d \<in> set cs. is_digit d" by (rule show_nat_Cons)
  then show ?thesis using digit_facts(5,6) by (cases cs rule: list.exhaust; cases "tl cs"; auto)
qed

text \<open>What \<open>stoll\<close> reads of the decimal digits of a number, after an optional minus sign.\<close>

lemma stoll_show:
  assumes base: "base \<in> {0, 10}" and s: "s = (if neg then CHR ''-'' # show_nat n else show_nat n)"
    and v: "v = (if neg then - int n else int n)" and r: "- (2 ^ 63) \<le> v" "v < 2 ^ 63"
  shows "stoll base s = Some v"
proof -
  obtain c cs where c: "show_nat n = c # cs" "is_digit c" by (rule show_nat_Cons)
  note f = digit_facts [OF c(2)]
  define b where "b = (if base = 0 \<and> c = CHR ''0'' then 8 else 10 :: nat)"
  have zero: "c = CHR ''0'' \<Longrightarrow> n = 0" using show_nat_head [of n] c by fastforce
  have tw: "takeWhile (\<lambda>c. char_digit c < b) (show_nat n) = show_nat n"
    by (rule takeWhile_digits) (auto simp: b_def zero)
  have bv: "base_value b 0 (show_nat n) = n"
  proof (cases "b = 10")
    case True
    then show ?thesis using base_value_10 [OF show_nat_digits] digits_value_show_nat by simp
  next
    case False
    then show ?thesis using zero
      by (simp add: b_def show_nat_0 char_digit_def is_digit_def split: if_splits)
  qed
  have sp: "dropWhile is_space s = s" using s c f by (auto simp: is_space_def)
  have tl: "(if s \<noteq> [] \<and> (hd s = CHR ''-'' \<or> hd s = CHR ''+'') then tl s else s) = show_nat n"
    "(s \<noteq> [] \<and> hd s = CHR ''-'') = neg"
    using s c f by auto
  have hex: "((base = 0 \<or> base = 16) \<and> has_hex_prefix (show_nat n)) = False"
    using no_hex_prefix by simp
  have b: "(if base \<noteq> 0 then base
      else if show_nat n \<noteq> [] \<and> hd (show_nat n) = CHR ''0'' then 8 else 10) = b"
    using c base by (auto simp: b_def)
  have "stoll base s = (if v < - (2 ^ 63) \<or> 2 ^ 63 \<le> v then None else Some v)"
    unfolding stoll_def strto_def Let_def sp tl hex b if_False tw bv by (simp add: v)
  then show ?thesis using r by simp
qed

lemma stoll_range: "stoll b s = Some v \<Longrightarrow> - (2 ^ 63) \<le> v \<and> v < 2 ^ 63"
  by (auto simp: stoll_def Let_def split: option.splits if_splits)

end
