(* ===== verification/Cheat_Table.thy ===== *)
theory Cheat_Table
  imports Xml_Reader Number_Text
begin

text \<open>
  The cheat-table parser of \<open>src/parser.cpp\<close> and \<open>include/gtlibcpp/parser.hpp\<close>: number and
  hotkey texts, variable types, and the walk from the XML tree to a \<open>CheatTable\<close>.
  \<open>parse_int64\<close> turns the exceptions of \<open>std::stoll\<close> into \<open>false\<close>, which is \<open>None\<close> here.
\<close>

section \<open>Numbers\<close>

definition parse_int64 :: "string \<Rightarrow> int option" where
  "parse_int64 s =
     (if s = [] then None
      else if length s > 2 \<and> s ! 0 = CHR ''0'' \<and> (s ! 1 = CHR ''x'' \<or> s ! 1 = CHR ''X'')
      then stoll 16 (drop 2 s)
      else stoll 0 s)"

text \<open>\<open>static_cast<int>\<close> of a 64-bit value.\<close>

definition to_int32 :: "int \<Rightarrow> 32 word" where
  "to_int32 v = word_of_int v"

fun parse_hotkey_loop :: "string \<Rightarrow> string \<Rightarrow> 32 word list \<Rightarrow> 32 word list" where
  "parse_hotkey_loop [] cur out =
     (if cur \<noteq> [] then (case parse_int64 cur of Some v \<Rightarrow> out @ [to_int32 v] | None \<Rightarrow> out) else out)"
| "parse_hotkey_loop (c # cs) cur out =
     (if c = CHR '','' \<or> c = CHR '' '' \<or> code_of c = 9
      then parse_hotkey_loop cs []
             (if cur \<noteq> [] then (case parse_int64 cur of Some v \<Rightarrow> out @ [to_int32 v] | None \<Rightarrow> out) else out)
      else parse_hotkey_loop cs (cur @ [c]) out)"

definition parse_hotkey_text :: "string \<Rightarrow> 32 word list" where
  "parse_hotkey_text s = parse_hotkey_loop s [] []"

section \<open>Texts and types\<close>

definition sanitize :: "string \<Rightarrow> string" where
  "sanitize s = map (\<lambda>c. if code_of c = 9 \<or> code_of c = 10 \<or> code_of c = 13 then c
                         else if code_of c < 32 then CHR '' '' else c) s"

datatype variable_type =
    VT_unknown | VT_uint8 | VT_int8 | VT_uint16 | VT_int16 | VT_uint32 | VT_int32
  | VT_uint64 | VT_int64 | VT_float32 | VT_float64 | VT_string | VT_bytes

fun variable_type_to_string :: "variable_type \<Rightarrow> string" where
  "variable_type_to_string VT_uint8 = ''uint8''"
| "variable_type_to_string VT_int8 = ''int8''"
| "variable_type_to_string VT_uint16 = ''uint16''"
| "variable_type_to_string VT_int16 = ''int16''"
| "variable_type_to_string VT_uint32 = ''uint32''"
| "variable_type_to_string VT_int32 = ''int32''"
| "variable_type_to_string VT_uint64 = ''uint64''"
| "variable_type_to_string VT_int64 = ''int64''"
| "variable_type_to_string VT_float32 = ''float32''"
| "variable_type_to_string VT_float64 = ''float64''"
| "variable_type_to_string VT_string = ''string''"
| "variable_type_to_string VT_bytes = ''bytes''"
| "variable_type_to_string VT_unknown = ''unknown''"

definition trim :: "string \<Rightarrow> string" where
  "trim s = rev (dropWhile is_space (rev (dropWhile is_space s)))"

definition parse_variable_type :: "string \<Rightarrow> (variable_type \<times> bool) result" where
  "parse_variable_type t =
     (let s = trim (map to_lower t) in
      if s \<in> {''byte'', ''uint8'', ''1 byte''} then success (VT_uint8, False)
      else if s \<in> {''char'', ''int8'', ''signed byte''} then success (VT_int8, True)
      else if s \<in> {''2 bytes'', ''2 byte'', ''word'', ''uint16''} then success (VT_uint16, False)
      else if s \<in> {''short'', ''int16'', ''signed 2 bytes''} then success (VT_int16, True)
      else if s \<in> {''4 bytes'', ''4 byte'', ''dword'', ''uint32''} then success (VT_uint32, False)
      else if s \<in> {''int'', ''int32'', ''long'', ''signed 4 bytes''} then success (VT_int32, True)
      else if s \<in> {''8 bytes'', ''8 byte'', ''qword'', ''uint64''} then success (VT_uint64, False)
      else if s \<in> {''int64'', ''signed 8 bytes''} then success (VT_int64, True)
      else if s \<in> {''float'', ''float32'', ''single''} then success (VT_float32, False)
      else if s \<in> {''double'', ''float64''} then success (VT_float64, False)
      else if s = ''string'' then success (VT_string, False)
      else if s \<in> {''bytes'', ''array of bytes''} then success (VT_bytes, False)
      else failure (make_error EC_parse_unsupported (''unknown variable type: '' @ t)
             ''CheatTableParser::parse_variable_type'' 0 0))"

section \<open>Entries\<close>

record cheat_entry =
  ce_id :: string
  ce_description :: string
  ce_section :: string
  ce_address :: address
  ce_offsets :: "address list"
  ce_type :: variable_type
  ce_is_signed :: bool
  ce_hotkey_action :: string
  ce_hotkeys :: "32 word list"
  ce_default_value_text :: string
  ce_auto_assembler :: bool
  ce_shell_command :: bool
  ce_dll_load :: bool
  ce_raw_byte_write :: bool
  ce_failure_reason :: string

record cheat_table =
  ct_title :: string
  ct_version_ce :: u32
  ct_entries :: "cheat_entry list"
  ct_diagnostics :: "string list"
  ct_unsupported :: "cheat_entry list"

definition empty_entry :: cheat_entry where
  "empty_entry = \<lparr>ce_id = [], ce_description = [], ce_section = [], ce_address = 0, ce_offsets = [],
     ce_type = VT_unknown, ce_is_signed = False, ce_hotkey_action = [], ce_hotkeys = [],
     ce_default_value_text = [], ce_auto_assembler = False, ce_shell_command = False,
     ce_dll_load = False, ce_raw_byte_write = False, ce_failure_reason = []\<rparr>"

definition empty_table :: cheat_table where
  "empty_table = \<lparr>ct_title = [], ct_version_ce = 0, ct_entries = [], ct_diagnostics = [],
     ct_unsupported = []\<rparr>"

definition attr :: "xml_node \<Rightarrow> string \<Rightarrow> string option" where
  "attr n k = map_of (xn_attrs n) k"

definition child_text :: "xml_node \<Rightarrow> string \<Rightarrow> string option" where
  "child_text n k = map_option xn_text (find_child n k)"

definition has_child :: "xml_node \<Rightarrow> string \<Rightarrow> bool" where
  "has_child n k \<longleftrightarrow> find_child n k \<noteq> None"

text \<open>A present and non-empty text.\<close>

definition non_empty :: "string option \<Rightarrow> string option" where
  "non_empty t = (case t of Some s \<Rightarrow> if s = [] then None else Some s | None \<Rightarrow> None)"

definition build_entry_id :: "xml_node \<Rightarrow> nat \<Rightarrow> string" where
  "build_entry_id entry fallback_index =
     (case non_empty (attr entry ''ID'') of Some v \<Rightarrow> ''id:'' @ v
      | None \<Rightarrow> (case non_empty (child_text entry ''ID'') of Some v \<Rightarrow> ''id:'' @ v
      | None \<Rightarrow> (case non_empty (attr entry ''Description'') of Some v \<Rightarrow> ''desc:'' @ v
      | None \<Rightarrow> (case non_empty (child_text entry ''Description'') of Some v \<Rightarrow> ''desc:'' @ v
      | None \<Rightarrow> ''anon:'' @ show_nat fallback_index))))"

definition entry_head :: "xml_node \<Rightarrow> nat \<Rightarrow> cheat_entry" where
  "entry_head child index = empty_entry\<lparr>
     ce_id := build_entry_id child index,
     ce_description := (case attr child ''Description'' of Some d \<Rightarrow> d
       | None \<Rightarrow> (case child_text child ''Description'' of Some d \<Rightarrow> d | None \<Rightarrow> [])),
     ce_section := (case child_text child ''Section'' of Some d \<Rightarrow> d | None \<Rightarrow> [])\<rparr>"

definition address_of_int :: "int \<Rightarrow> address" where
  "address_of_int v = word_of_int v"

text \<open>The address: an attribute, else a child element, else \<open>module+offset\<close>.\<close>

definition entry_address :: "xml_node \<Rightarrow> cheat_entry \<Rightarrow> cheat_entry \<times> string list" where
  "entry_address variable e0 =
     (let e = (case non_empty (attr variable ''Address'') of
                 Some a \<Rightarrow> (case parse_int64 a of Some v \<Rightarrow> e0\<lparr>ce_address := address_of_int v\<rparr> | None \<Rightarrow> e0)
               | None \<Rightarrow> e0)
      in if ce_address e = 0 then
           (case child_text variable ''Address'' of
              None \<Rightarrow> (e, [])
            | Some a \<Rightarrow>
                (case parse_int64 a of
                   Some v \<Rightarrow> (e\<lparr>ce_address := address_of_int v\<rparr>, [])
                 | None \<Rightarrow>
                     (if CHR ''+'' \<in> set a then
                        (case parse_int64 (tl (dropWhile (\<lambda>c. c \<noteq> CHR ''+'') a)) of
                           None \<Rightarrow> (e, [])
                         | Some v \<Rightarrow>
                             (let e1 = e\<lparr>ce_address := address_of_int v\<rparr>
                              in (if ce_section e1 = []
                                  then e1\<lparr>ce_section := takeWhile (\<lambda>c. c \<noteq> CHR ''+'') a\<rparr> else e1, [])))
                      else if a \<noteq> [] \<and> hd a = CHR 0x22
                      then (e, [''entry '' @ ce_id e @ '' has a symbolic address expression: '' @ a])
                      else (e, []))))
         else (e, []))"

definition offset_of_text :: "string \<Rightarrow> address list" where
  "offset_of_text t = (case parse_int64 t of Some v \<Rightarrow> [address_of_int v] | None \<Rightarrow> [])"

definition entry_offsets :: "xml_node \<Rightarrow> cheat_entry \<Rightarrow> cheat_entry" where
  "entry_offsets variable e =
     (case find_child variable ''Offsets'' of
        None \<Rightarrow> e
      | Some n \<Rightarrow> e\<lparr>ce_offsets := ce_offsets e @ offset_of_text (xn_text n) @
          concat (map (\<lambda>c. if xn_name c = ''Offset'' then offset_of_text (xn_text c) else [])
                      (xn_children n))\<rparr>)"

definition entry_type_text :: "xml_node \<Rightarrow> xml_node \<Rightarrow> string" where
  "entry_type_text child variable =
     (let t1 = (case child_text variable ''Type'' of Some t \<Rightarrow> t | None \<Rightarrow> []);
          t2 = (case non_empty (child_text child ''VariableType'') of Some t \<Rightarrow> t | None \<Rightarrow> t1)
      in (case child_text variable ''DisplayAs'' of Some t \<Rightarrow> t | None \<Rightarrow> t2))"

definition entry_show_signed :: "xml_node \<Rightarrow> cheat_entry \<Rightarrow> cheat_entry" where
  "entry_show_signed child e =
     (case child_text child ''ShowAsSigned'' of
        None \<Rightarrow> e
      | Some t \<Rightarrow> (case parse_int64 t of Some v \<Rightarrow> e\<lparr>ce_is_signed := (v \<noteq> 0)\<rparr> | None \<Rightarrow> e))"

definition entry_default_value :: "xml_node \<Rightarrow> xml_node \<Rightarrow> cheat_entry \<Rightarrow> cheat_entry" where
  "entry_default_value child variable e =
     (let e1 = (case child_text variable ''Value'' of Some t \<Rightarrow> e\<lparr>ce_default_value_text := t\<rparr> | None \<Rightarrow> e)
      in case find_child child ''LastState'' of
           None \<Rightarrow> e1
         | Some n \<Rightarrow>
             (if ce_default_value_text e1 = []
              then (case attr n ''Value'' of Some v \<Rightarrow> e1\<lparr>ce_default_value_text := v\<rparr> | None \<Rightarrow> e1)
              else e1))"

definition real_address_note :: "xml_node \<Rightarrow> cheat_entry \<Rightarrow> string list" where
  "real_address_note child e =
     (case find_child child ''LastState'' of
        None \<Rightarrow> []
      | Some n \<Rightarrow>
          (case attr n ''RealAddress'' of
             None \<Rightarrow> []
           | Some a \<Rightarrow> (case parse_int64 a of
               Some v \<Rightarrow> [''entry '' @ ce_id e @ '' has RealAddress=0x'' @ a]
             | None \<Rightarrow> [])))"

definition hotkey_codes :: "string option \<Rightarrow> 32 word list" where
  "hotkey_codes t =
     (case t of None \<Rightarrow> [] | Some s \<Rightarrow> (case parse_int64 s of Some v \<Rightarrow> [to_int32 v] | None \<Rightarrow> []))"

definition add_hotkey :: "xml_node \<Rightarrow> cheat_entry \<Rightarrow> cheat_entry" where
  "add_hotkey hk e =
     (let e1 = e\<lparr>ce_hotkeys := ce_hotkeys e @ parse_hotkey_text (xn_text hk) @
            hotkey_codes (child_text hk ''Code'') @
            (case find_child hk ''Keys'' of
               None \<Rightarrow> []
             | Some keys \<Rightarrow> concat (map (\<lambda>k. if xn_name k = ''Key'' then hotkey_codes (Some (xn_text k)) else [])
                                     (xn_children keys))) @
            hotkey_codes (child_text hk ''Key'')\<rparr>
      in case attr hk ''Action'' of
           Some a \<Rightarrow> e1\<lparr>ce_hotkey_action := a\<rparr>
         | None \<Rightarrow> (case child_text hk ''Action'' of Some a \<Rightarrow> e1\<lparr>ce_hotkey_action := a\<rparr> | None \<Rightarrow> e1))"

definition entry_hotkeys :: "xml_node \<Rightarrow> cheat_entry \<Rightarrow> cheat_entry" where
  "entry_hotkeys child e =
     (case find_child child ''Hotkeys'' of
        None \<Rightarrow> e
      | Some n \<Rightarrow> fold (\<lambda>hk e. if xn_name hk = ''Hotkey'' then add_hotkey hk e else e) (xn_children n) e)"

definition entry_color :: "xml_node \<Rightarrow> cheat_entry \<Rightarrow> cheat_entry" where
  "entry_color child e =
     (case child_text child ''Color'' of
        None \<Rightarrow> e
      | Some t \<Rightarrow> (case parse_int64 t of Some v \<Rightarrow> e\<lparr>ce_section := ''color:0x'' @ t\<rparr> | None \<Rightarrow> e))"

text \<open>
  The body of the loop over \<open>CheatEntry\<close> elements: the list the entry goes to, and the
  diagnostics pushed on the way.
\<close>

datatype entry_outcome = Supported cheat_entry | Unsupported cheat_entry

definition has_script :: "xml_node \<Rightarrow> bool" where
  "has_script child \<longleftrightarrow> has_child child ''AssemblerScript'' \<or> has_child child ''AutoAssembler''
     \<or> has_child child ''AA'' \<or> has_child child ''AAScript'' \<or> has_child child ''LuaScript''"

definition has_injection :: "xml_node \<Rightarrow> bool" where
  "has_injection child \<longleftrightarrow> has_child child ''Inject'' \<or> has_child child ''LoadLibrary''
     \<or> has_child child ''ShellExecute'' \<or> has_child child ''DllInjection''"

definition has_raw_bytes :: "xml_node \<Rightarrow> bool" where
  "has_raw_bytes child \<longleftrightarrow> has_child child ''ByteArray'' \<or> has_child child ''Bytes''"

definition convert_entry :: "xml_node \<Rightarrow> nat \<Rightarrow> entry_outcome \<times> string list" where
  "convert_entry child index =
     (let variable = (case find_child child ''Variable'' of Some v \<Rightarrow> v | None \<Rightarrow> child);
          (e1, notes1) = entry_address variable (entry_head child index);
          e2 = entry_show_signed child (entry_offsets variable e1)
      in case parse_variable_type (entry_type_text child variable) of
           Inl err \<Rightarrow>
             (Unsupported (e2\<lparr>ce_failure_reason := err_message err\<rparr>),
              notes1 @ [''entry '' @ ce_id e2 @ '': '' @ err_message err])
         | Inr (ty, is_signed) \<Rightarrow>
             (let e3 = entry_default_value child variable (e2\<lparr>ce_type := ty, ce_is_signed := is_signed\<rparr>);
                  notes2 = notes1 @ real_address_note child e3
              in if has_script child then
                   (Unsupported (e3\<lparr>ce_auto_assembler := True, ce_failure_reason :=
                      ''Auto Assembler / Lua entries are not supported in this build''\<rparr>),
                    notes2 @ [''entry '' @ ce_id e3 @ '': Auto Assembler skipped''])
                 else if has_injection child then
                   (Unsupported (e3\<lparr>ce_shell_command := True, ce_failure_reason :=
                      ''DLL/shell injection is not supported''\<rparr>),
                    notes2 @ [''entry '' @ ce_id e3 @ '': shell/inject skipped''])
                 else if has_raw_bytes child then
                   (Unsupported (e3\<lparr>ce_raw_byte_write := True, ce_failure_reason :=
                      ''raw byte-array writes are not supported''\<rparr>),
                    notes2 @ [''entry '' @ ce_id e3 @ '': raw byte-array skipped''])
                 else
                   (let e4 = entry_hotkeys child e3;
                        notes3 = (case child_text child ''GroupHeader'' of
                          Some t \<Rightarrow> [''entry '' @ ce_id e4 @ '' is a group header: '' @ t] | None \<Rightarrow> [])
                    in (Supported (entry_color child e4), notes2 @ notes3))))"

section \<open>Tables\<close>

fun entries_loop :: "xml_node list \<Rightarrow> nat \<Rightarrow> cheat_table \<Rightarrow> cheat_table" where
  "entries_loop [] index t = t"
| "entries_loop (child # rest) index t =
     (if xn_name child \<noteq> ''CheatEntry''
      then entries_loop rest index (t\<lparr>ct_diagnostics := ct_diagnostics t @
             [''ignoring unknown child of CheatEntries: '' @ xn_name child]\<rparr>)
      else (case convert_entry child index of
              (Supported e, notes) \<Rightarrow>
                entries_loop rest (Suc index) (t\<lparr>ct_entries := ct_entries t @ [e],
                  ct_diagnostics := ct_diagnostics t @ notes\<rparr>)
            | (Unsupported e, notes) \<Rightarrow>
                entries_loop rest (Suc index) (t\<lparr>ct_unsupported := ct_unsupported t @ [e],
                  ct_diagnostics := ct_diagnostics t @ notes\<rparr>)))"

definition table_of_root :: "xml_node \<Rightarrow> cheat_table result" where
  "table_of_root root =
     (if xn_name root \<noteq> ''CheatTable''
      then failure (make_error EC_parse_failed (''root element is not <CheatTable>: '' @ xn_name root)
             ''CheatTableParser::parse_string'' 0 0)
      else
       (let t1 = empty_table\<lparr>ct_title := (case child_text root ''Title'' of Some s \<Rightarrow> s | None \<Rightarrow> [])\<rparr>;
            t2 = (case child_text root ''VersionCE'' of
                    None \<Rightarrow> t1
                  | Some s \<Rightarrow> (case parse_int64 s of Some v \<Rightarrow> t1\<lparr>ct_version_ce := word_of_int v\<rparr> | None \<Rightarrow> t1))
        in case find_child root ''CheatEntries'' of
             None \<Rightarrow> success (t2\<lparr>ct_diagnostics := ct_diagnostics t2 @ [''table has no <CheatEntries> block'']\<rparr>)
           | Some n \<Rightarrow>
               (let t3 = entries_loop (xn_children n) 0 t2
                in success (t3\<lparr>ct_diagnostics := ct_diagnostics t3 @
                     [''parsed '' @ show_nat (length (ct_entries t3)) @ '' supported entries, '' @
                      show_nat (length (ct_unsupported t3)) @ '' unsupported entries'']\<rparr>))))"

definition parse_string :: "string \<Rightarrow> cheat_table result option" where
  "parse_string xml =
     (case parse_root (sanitize xml) of
        None \<Rightarrow> None
      | Some (Inl e) \<Rightarrow>
          Some (failure (make_error_full (err_code e) (''XML parse failed: '' @ err_message e)
                  ''CheatTableParser::parse_string'' 0 0 (err_system_error e) []))
      | Some (Inr root) \<Rightarrow> Some (table_of_root root))"

text \<open>\<open>parse_file\<close>; \<open>contents\<close> is what the file system holds at a path, if it can be opened.\<close>

definition parse_file :: "(string \<Rightarrow> string option) \<Rightarrow> string \<Rightarrow> cheat_table result option" where
  "parse_file contents path =
     (case contents path of
        None \<Rightarrow> Some (failure (make_error EC_parse_failed (''could not open '' @ path)
                  ''CheatTableParser::parse_file'' 0 0))
      | Some s \<Rightarrow> parse_string s)"

section \<open>Lemmas: tables\<close>

text \<open>The outcomes of the \<open>CheatEntry\<close> children, numbered in order.\<close>

fun outcomes :: "xml_node list \<Rightarrow> nat \<Rightarrow> entry_outcome list" where
  "outcomes [] k = []"
| "outcomes (c # cs) k =
     (if xn_name c \<noteq> ''CheatEntry'' then outcomes cs k
      else fst (convert_entry c k) # outcomes cs (Suc k))"

definition supported_of :: "entry_outcome list \<Rightarrow> cheat_entry list" where
  "supported_of os = List.map_filter (\<lambda>x. case x of Supported e \<Rightarrow> Some e | Unsupported e \<Rightarrow> None) os"

definition unsupported_of :: "entry_outcome list \<Rightarrow> cheat_entry list" where
  "unsupported_of os = List.map_filter (\<lambda>x. case x of Supported e \<Rightarrow> None | Unsupported e \<Rightarrow> Some e) os"

lemma entries_loop_lists:
  "ct_entries (entries_loop cs k t) = ct_entries t @ supported_of (outcomes cs k)"
  "ct_unsupported (entries_loop cs k t) = ct_unsupported t @ unsupported_of (outcomes cs k)"
proof (induction cs arbitrary: k t)
  case Nil
  { case 1 show ?case by (simp add: supported_of_def map_filter_simps) }
  { case 2 show ?case by (simp add: unsupported_of_def map_filter_simps) }
next
  case (Cons c cs)
  { case 1
    obtain out ns where "convert_entry c k = (out, ns)" by fastforce
    then show ?case
      by (cases out) (simp_all add: Cons.IH supported_of_def map_filter_simps) }
  { case 2
    obtain out ns where "convert_entry c k = (out, ns)" by fastforce
    then show ?case
      by (cases out) (simp_all add: Cons.IH unsupported_of_def map_filter_simps) }
qed

lemma outcomes_in:
  "x \<in> set (outcomes cs k) \<Longrightarrow> \<exists>c \<in> set cs. \<exists>j. xn_name c = ''CheatEntry'' \<and> x = fst (convert_entry c j)"
  by (induction cs k rule: outcomes.induct) (auto split: if_splits)

lemma length_outcomes: "length (outcomes cs k) = length [c \<leftarrow> cs. xn_name c = ''CheatEntry'']"
  by (induction cs k rule: outcomes.induct) auto

lemma length_split: "length (supported_of os) + length (unsupported_of os) = length os"
  by (induction os) (auto simp: supported_of_def unsupported_of_def map_filter_simps split: entry_outcome.split)

text \<open>An element whose presence makes an entry dangerous.\<close>

definition dangerous :: "xml_node \<Rightarrow> bool" where
  "dangerous child \<longleftrightarrow> has_script child \<or> has_injection child \<or> has_raw_bytes child"

definition clean_entry :: "cheat_entry \<Rightarrow> bool" where
  "clean_entry e \<longleftrightarrow> \<not> ce_auto_assembler e \<and> \<not> ce_shell_command e \<and> \<not> ce_dll_load e
     \<and> \<not> ce_raw_byte_write e \<and> ce_failure_reason e = [] \<and> ce_type e \<noteq> VT_unknown"

lemma parse_variable_type_known: "parse_variable_type t = Inr (ty, sg) \<Longrightarrow>
    ty \<noteq> VT_unknown \<and> (sg \<longleftrightarrow> ty \<in> {VT_int8, VT_int16, VT_int32, VT_int64})"
  by (auto simp: parse_variable_type_def Let_def split: if_splits)

text \<open>The steps that build an entry leave its safety flags alone.\<close>

definition entry_flags :: "cheat_entry \<Rightarrow> bool \<times> bool \<times> bool \<times> bool \<times> string" where
  "entry_flags e = (ce_auto_assembler e, ce_shell_command e, ce_dll_load e, ce_raw_byte_write e,
     ce_failure_reason e)"

lemma entry_address_flags: "entry_address v e = (e', notes) \<Longrightarrow> entry_flags e' = entry_flags e"
  by (auto simp: entry_address_def entry_flags_def Let_def split: option.splits if_splits)

lemma entry_offsets_flags: "entry_flags (entry_offsets v e) = entry_flags e"
  by (simp add: entry_offsets_def entry_flags_def split: option.split)

lemma entry_show_signed_flags: "entry_flags (entry_show_signed v e) = entry_flags e"
  by (simp add: entry_show_signed_def entry_flags_def split: option.split)

lemma entry_default_value_flags:
  "entry_flags (entry_default_value c v e) = entry_flags e" "ce_type (entry_default_value c v e) = ce_type e"
  by (auto simp: entry_default_value_def entry_flags_def Let_def split: option.split)

lemma add_hotkey_flags: "entry_flags (add_hotkey h e) = entry_flags e" "ce_type (add_hotkey h e) = ce_type e"
  by (simp_all add: add_hotkey_def entry_flags_def Let_def split: option.split)

lemma entry_hotkeys_flags:
  "entry_flags (entry_hotkeys c e) = entry_flags e" "ce_type (entry_hotkeys c e) = ce_type e"
proof -
  have "entry_flags (fold (\<lambda>hk e. if xn_name hk = ''Hotkey'' then add_hotkey hk e else e) hs e) = entry_flags e
     \<and> ce_type (fold (\<lambda>hk e. if xn_name hk = ''Hotkey'' then add_hotkey hk e else e) hs e) = ce_type e" for hs e
    by (induction hs arbitrary: e) (simp_all add: add_hotkey_flags)
  then show "entry_flags (entry_hotkeys c e) = entry_flags e" "ce_type (entry_hotkeys c e) = ce_type e"
    by (simp_all add: entry_hotkeys_def split: option.split)
qed

lemma entry_color_flags: "entry_flags (entry_color c e) = entry_flags e" "ce_type (entry_color c e) = ce_type e"
  by (simp_all add: entry_color_def entry_flags_def split: option.split)

lemmas entry_flags_rules = entry_offsets_flags entry_show_signed_flags entry_default_value_flags
  add_hotkey_flags entry_hotkeys_flags entry_color_flags

lemma convert_supported:
  assumes "fst (convert_entry c k) = Supported e"
  shows "clean_entry e \<and> \<not> dangerous c"
proof -
  let ?v = "case find_child c ''Variable'' of Some v \<Rightarrow> v | None \<Rightarrow> c"
  obtain e1 n1 where e1: "entry_address ?v (entry_head c k) = (e1, n1)" by fastforce
  obtain ty sg where ty: "parse_variable_type (entry_type_text c ?v) = Inr (ty, sg)"
    using assms e1 by (auto simp: convert_entry_def Let_def split: sum.splits)
  let ?e2 = "entry_show_signed c (entry_offsets ?v e1)"
  let ?e3 = "entry_default_value c ?v (?e2\<lparr>ce_type := ty, ce_is_signed := sg\<rparr>)"
  have e: "e = entry_color c (entry_hotkeys c ?e3)" and safe: "\<not> dangerous c"
    using assms e1 ty by (auto simp: convert_entry_def dangerous_def Let_def split: if_splits)
  have upd: "entry_flags (x\<lparr>ce_type := ty, ce_is_signed := sg\<rparr>) = entry_flags x" for x
    by (simp add: entry_flags_def)
  have "entry_flags e = entry_flags (entry_head c k)"
    using entry_address_flags [OF e1] by (simp add: e entry_flags_rules upd)
  moreover have "ce_type e = ty" by (simp add: e entry_flags_rules)
  ultimately show ?thesis
    using safe parse_variable_type_known [OF ty]
    by (simp add: clean_entry_def entry_flags_def entry_head_def empty_entry_def)
qed

lemma parse_variable_type_error: "parse_variable_type t = Inl err \<Longrightarrow> err_message err \<noteq> []"
  by (auto simp: parse_variable_type_def Let_def split: if_splits)

lemma convert_unsupported:
  assumes "fst (convert_entry c k) = Unsupported e"
  shows "ce_failure_reason e \<noteq> []"
proof -
  let ?v = "case find_child c ''Variable'' of Some v \<Rightarrow> v | None \<Rightarrow> c"
  obtain e1 n1 where e1: "entry_address ?v (entry_head c k) = (e1, n1)" by fastforce
  show ?thesis
  proof (cases "parse_variable_type (entry_type_text c ?v)")
    case (Inl err)
    then show ?thesis using assms e1 parse_variable_type_error [OF Inl]
      by (auto simp: convert_entry_def Let_def)
  next
    case (Inr p)
    then show ?thesis using assms e1
      by (cases p) (auto simp: convert_entry_def Let_def split: if_splits)
  qed
qed

lemma sanitize_facts:
  "length (sanitize s) = length s" "sanitize (sanitize s) = sanitize s"
  "c \<in> set (sanitize s) \<Longrightarrow> 32 \<le> code_of c \<or> code_of c \<in> {9, 10, 13}"
  by (auto simp: sanitize_def)

text \<open>A table of two harmless entries, an injection and a foreign element.\<close>

definition demo_entry :: "string \<Rightarrow> xml_node list \<Rightarrow> xml_node" where
  "demo_entry d extra = XmlNode ''CheatEntry'' [] []
     ([XmlNode ''Description'' d [] [], XmlNode ''VariableType'' ''4 Bytes'' [] [],
       XmlNode ''Address'' ''0x40'' [] []] @ extra)"

definition demo_table :: xml_node where
  "demo_table = XmlNode ''CheatTable'' [] []
     [XmlNode ''CheatEntries'' [] []
       [demo_entry ''hp'' [], XmlNode ''Folder'' [] [] [],
        demo_entry ''evil'' [XmlNode ''LoadLibrary'' [] [] []],
        demo_entry ''ammo'' [XmlNode ''Offsets'' [] [] [XmlNode ''Offset'' ''0x14'' [] []]]]]"

section \<open>Properties\<close>

text \<open>
  the parser's type names round-trip: the printed name of every variable type is parsed
  back to that type, signed exactly for the signed integer types, and the name of the unknown
  type is refused.
\<close>

theorem variable_type_roundtrip:
  "parse_variable_type (variable_type_to_string t) =
     (if t = VT_unknown
      then Inl (make_error EC_parse_unsupported ''unknown variable type: unknown''
                  ''CheatTableParser::parse_variable_type'' 0 0)
      else Inr (t, t \<in> {VT_int8, VT_int16, VT_int32, VT_int64}))"
  by (cases t) (simp_all add: parse_variable_type_def trim_def to_lower_def is_space_def)

text \<open>
  every number the parser accepts fits 64 bits, and the decimal text of any 64-bit
  number, with its sign, is parsed to exactly that number.
\<close>

theorem parse_int64_roundtrip:
  assumes "- (2 ^ 63) \<le> z" "z < 2 ^ 63"
  shows "parse_int64 (show_int z) = Some z \<and>
    (\<forall>s v. parse_int64 s = Some v \<longrightarrow> - (2 ^ 63) \<le> v \<and> v < 2 ^ 63)"
proof
  obtain c cs where c: "show_nat (nat \<bar>z\<bar>) = c # cs" "is_digit c" "\<forall>d \<in> set cs. is_digit d"
    by (rule show_nat_Cons)
  have "\<not> (length (show_int z) > 2 \<and> show_int z ! 0 = CHR ''0''
      \<and> (show_int z ! 1 = CHR ''x'' \<or> show_int z ! 1 = CHR ''X''))"
  proof (cases "z < 0")
    case False
    then have "show_int z = c # cs" using c(1) by (simp add: show_int_def)
    then show ?thesis using c(3) digit_facts(5,6) by (cases cs) auto
  qed (simp add: show_int_def)
  moreover have "show_int z \<noteq> []" by (simp add: show_int_def)
  moreover have "stoll 0 (show_int z) = Some z"
    by (rule stoll_show [where base = 0 and neg = "z < 0" and n = "nat \<bar>z\<bar>"]) (use assms in \<open>auto simp: show_int_def\<close>)
  ultimately show "parse_int64 (show_int z) = Some z" unfolding parse_int64_def by argo
  show "\<forall>s v. parse_int64 s = Some v \<longrightarrow> - (2 ^ 63) \<le> v \<and> v < 2 ^ 63"
    by (auto simp: parse_int64_def dest: stoll_range split: if_splits)
qed

theorem parse_int64_roundtrip_witness:
  "parse_int64 (show_int (-1234)) = Some (-1234) \<and> parse_int64 ''00539560'' = Some 43
   \<and> parse_int64 ''0x1F'' = Some 31"
proof (intro conjI)
  show "parse_int64 (show_int (-1234)) = Some (-1234)"
    using parse_int64_roundtrip [of "-1234"] by simp
qed code_simp+



end
