(* ===== verification/Json.thy ===== *)
theory Json
  imports Core_Types Number_Text
begin

text \<open>
  The JSON values of \<open>include/gtlibcpp/agent.hpp\<close> and their encoder and decoder in
  \<open>src/agent.cpp\<close>. The parser's position is the suffix still to read. What the standard
  library does with \<open>double\<close> (stream output, \<open>std::stod\<close>, the cast to \<open>int64\<close>) is a record
  of functions over the type \<open>'r\<close> of reals. The mutually recursive readers carry fuel, which
  \<open>json_decode\<close> provides in sufficient amount (\<open>json_returns\<close>); \<open>None\<close> is running out.
\<close>

section \<open>Values\<close>

datatype 'r json =
    JNull | JBool bool | JInt int | JReal 'r | JString string
  | JArray "'r json list" | JObject "(string \<times> 'r json) list"

record 'r real_ops =
  real_show :: "'r \<Rightarrow> string"
  real_read :: "string \<Rightarrow> 'r option"  \<comment> \<open>\<open>None\<close> when \<open>std::stod\<close> throws\<close>
  real_to_int :: "'r \<Rightarrow> int"

definition json_error :: "string \<Rightarrow> string \<Rightarrow> error" where
  "json_error message method = make_error EC_parse_failed message (''JsonParser::'' @ method) 0 0"

section \<open>Encoding\<close>

definition hex_digit_char :: "nat \<Rightarrow> char" where
  "hex_digit_char n = (if n < 10 then char_of (48 + n) else char_of (87 + n))"

definition json_escape_char :: "char \<Rightarrow> string" where
  "json_escape_char c =
     (if c = CHR 0x22 then [CHR 0x5C, CHR 0x22]
      else if c = CHR 0x5C then [CHR 0x5C, CHR 0x5C]
      else if c = CHR 0x0A then [CHR 0x5C, CHR ''n'']
      else if c = CHR 0x0D then [CHR 0x5C, CHR ''r'']
      else if c = CHR 0x09 then [CHR 0x5C, CHR ''t'']
      else if code_of c < 32
      then CHR 0x5C # ''u00'' @ [hex_digit_char (code_of c div 16), hex_digit_char (code_of c mod 16)]
      else [c])"

definition json_escape :: "string \<Rightarrow> string" where
  "json_escape t = concat (map json_escape_char t)"

fun join_comma :: "string list \<Rightarrow> string" where
  "join_comma [] = []"
| "join_comma [x] = x"
| "join_comma (x # xs) = x @ CHR '','' # join_comma xs"

fun json_encode :: "'r real_ops \<Rightarrow> 'r json \<Rightarrow> string" where
  "json_encode ro JNull = ''null''"
| "json_encode ro (JBool b) = (if b then ''true'' else ''false'')"
| "json_encode ro (JInt i) = show_int i"
| "json_encode ro (JReal x) = real_show ro x"
| "json_encode ro (JString t) = CHR 0x22 # json_escape t @ [CHR 0x22]"
| "json_encode ro (JArray vs) = CHR ''['' # join_comma (map (json_encode ro) vs) @ '']''"
| "json_encode ro (JObject kvs) =
     CHR ''{'' # join_comma (map (\<lambda>(k, v). CHR 0x22 # k @ CHR 0x22 # CHR '':'' # json_encode ro v) kvs) @ ''}''"

section \<open>Decoding: leaves\<close>

definition skip_ws :: "string \<Rightarrow> string" where
  "skip_ws s = dropWhile is_space s"

definition unescape :: "char \<Rightarrow> char option" where
  "unescape e =
     (if e = CHR 0x22 then Some (CHR 0x22)
      else if e = CHR 0x5C then Some (CHR 0x5C)
      else if e = CHR ''/'' then Some (CHR ''/'')
      else if e = CHR ''n'' then Some (CHR 0x0A)
      else if e = CHR ''r'' then Some (CHR 0x0D)
      else if e = CHR ''t'' then Some (CHR 0x09)
      else if e = CHR ''b'' then Some (CHR 0x08)
      else if e = CHR ''f'' then Some (CHR 0x0C)
      else None)"

fun string_loop :: "string \<Rightarrow> string \<Rightarrow> (string \<times> string) result" where
  "string_loop out [] = failure (json_error ''unterminated string'' ''parse_string_value'')"
| "string_loop out (c # r) =
     (if c = CHR 0x22 then success (out, r)
      else if c = CHR 0x5C then
        (case r of
           [] \<Rightarrow> string_loop (out @ [c]) r
         | e # r' \<Rightarrow>
             (case unescape e of
                None \<Rightarrow> failure (json_error ''unsupported escape'' ''parse_string_value'')
              | Some x \<Rightarrow> string_loop (out @ [x]) r'))
      else string_loop (out @ [c]) r)"

definition parse_string_value :: "string \<Rightarrow> (string \<times> string) result" where
  "parse_string_value s =
     (if s = [] \<or> hd s \<noteq> CHR 0x22
      then failure (json_error (''expected '' @ [CHR 0x27, CHR 0x22, CHR 0x27] @ '' to start string'')
             ''parse_string_value'')
      else string_loop [] (tl s))"

definition parse_bool :: "string \<Rightarrow> ('r json \<times> string) result" where
  "parse_bool s =
     (if take 4 s = ''true'' then success (JBool True, drop 4 s)
      else if take 5 s = ''false'' then success (JBool False, drop 5 s)
      else failure (json_error ''expected boolean literal'' ''parse_bool''))"

definition parse_null :: "string \<Rightarrow> ('r json \<times> string) result" where
  "parse_null s =
     (if take 4 s = ''null'' then success (JNull, drop 4 s)
      else failure (json_error ''expected null literal'' ''parse_null''))"

definition is_sign :: "char \<Rightarrow> bool" where
  "is_sign c \<longleftrightarrow> c = CHR ''-'' \<or> c = CHR ''+''"

text \<open>The characters of a number after its sign, the rest, and whether a point or exponent was seen.\<close>

fun number_tail :: "bool \<Rightarrow> bool \<Rightarrow> string \<Rightarrow> string \<times> string \<times> bool" where
  "number_tail dot ex [] = ([], [], dot \<or> ex)"
| "number_tail dot ex (c # r) =
     (if is_digit c then (case number_tail dot ex r of (t, rest, real) \<Rightarrow> (c # t, rest, real))
      else if c = CHR ''.'' \<and> \<not> dot
      then (case number_tail True ex r of (t, rest, real) \<Rightarrow> (c # t, rest, real))
      else if (c = CHR ''e'' \<or> c = CHR ''E'') \<and> \<not> ex then
        (case r of
           [] \<Rightarrow> (case number_tail dot True r of (t, rest, real) \<Rightarrow> (c # t, rest, real))
         | d # r' \<Rightarrow>
             (if is_sign d
              then (case number_tail dot True r' of (t, rest, real) \<Rightarrow> (c # d # t, rest, real))
              else (case number_tail dot True r of (t, rest, real) \<Rightarrow> (c # t, rest, real))))
      else ([], c # r, dot \<or> ex))"

definition parse_number :: "'r real_ops \<Rightarrow> string \<Rightarrow> ('r json \<times> string) result" where
  "parse_number ro s =
     (let signed_part = (if s \<noteq> [] \<and> is_sign (hd s) then [hd s] else []);
          (t, rest, real) = number_tail False False (drop (length signed_part) s);
          token = signed_part @ t
      in if token = [] then failure (json_error ''expected number'' ''parse_number'')
         else if real then
           (case real_read ro token of
              Some x \<Rightarrow> success (JReal x, rest)
            | None \<Rightarrow> failure (json_error (''could not parse number '' @ token) ''parse_number''))
         else
           (case stoll 10 token of
              Some i \<Rightarrow> success (JInt i, rest)
            | None \<Rightarrow> failure (json_error (''could not parse number '' @ token) ''parse_number'')))"

section \<open>Decoding: values\<close>

text \<open>
  \<open>parse_value\<close>, the loop of \<open>parse_object\<close> after its opening brace (\<open>obj\<close> is what was read)
  and the loop of \<open>parse_array\<close>.
\<close>

fun parse_value :: "nat \<Rightarrow> 'r real_ops \<Rightarrow> string \<Rightarrow> ('r json \<times> string) result option"
  and parse_members :: "nat \<Rightarrow> 'r real_ops \<Rightarrow> (string \<times> 'r json) list \<Rightarrow> string
      \<Rightarrow> ('r json \<times> string) result option"
  and parse_elements :: "nat \<Rightarrow> 'r real_ops \<Rightarrow> 'r json list \<Rightarrow> string
      \<Rightarrow> ('r json \<times> string) result option" where
  "parse_value 0 ro s0 = None"
| "parse_value (Suc n) ro s0 =
     (case skip_ws s0 of
        [] \<Rightarrow> Some (failure (json_error ''unexpected end of input'' ''parse_value''))
      | c # r \<Rightarrow>
          (if c = CHR ''{'' then
             (let s = skip_ws r in
              if s \<noteq> [] \<and> hd s = CHR ''}'' then Some (success (JObject [], tl s))
              else parse_members n ro [] s)
           else if c = CHR ''['' then
             (let s = skip_ws r in
              if s \<noteq> [] \<and> hd s = CHR '']'' then Some (success (JArray [], tl s))
              else parse_elements n ro [] s)
           else if c = CHR 0x22 then
             Some (case parse_string_value (c # r) of
                     Inl e \<Rightarrow> failure e | Inr (t, rest) \<Rightarrow> success (JString t, rest))
           else if c = CHR ''t'' \<or> c = CHR ''f'' then Some (parse_bool (c # r))
           else if c = CHR ''n'' then Some (parse_null (c # r))
           else Some (parse_number ro (c # r))))"
| "parse_members 0 ro obj s0 = None"
| "parse_members (Suc n) ro obj s0 =
     (case parse_string_value (skip_ws s0) of
        Inl e \<Rightarrow> Some (failure e)
      | Inr (key, s1) \<Rightarrow>
          (let s2 = skip_ws s1 in
           if s2 = [] \<or> hd s2 \<noteq> CHR '':''
           then Some (failure (json_error (''expected '' @ [CHR 0x27, CHR '':'', CHR 0x27] @ '' after object key'')
                  ''parse_object''))
           else (case parse_value n ro (tl s2) of
                   None \<Rightarrow> None
                 | Some (Inl e) \<Rightarrow> Some (failure e)
                 | Some (Inr (v, s3)) \<Rightarrow>
                     (let obj' = obj @ [(key, v)]; s4 = skip_ws s3 in
                      if s4 \<noteq> [] \<and> hd s4 = CHR '','' then parse_members n ro obj' (tl s4)
                      else if s4 \<noteq> [] \<and> hd s4 = CHR ''}'' then Some (success (JObject obj', tl s4))
                      else Some (failure (json_error (''expected '' @ [CHR 0x27, CHR '','', CHR 0x27] @
                             '' or '' @ [CHR 0x27, CHR ''}'', CHR 0x27] @ '' in object'') ''parse_object''))))))"
| "parse_elements 0 ro arr s0 = None"
| "parse_elements (Suc n) ro arr s0 =
     (case parse_value n ro s0 of
        None \<Rightarrow> None
      | Some (Inl e) \<Rightarrow> Some (failure e)
      | Some (Inr (v, s1)) \<Rightarrow>
          (let arr' = arr @ [v]; s2 = skip_ws s1 in
           if s2 \<noteq> [] \<and> hd s2 = CHR '','' then parse_elements n ro arr' (tl s2)
           else if s2 \<noteq> [] \<and> hd s2 = CHR '']'' then Some (success (JArray arr', tl s2))
           else Some (failure (json_error (''expected '' @ [CHR 0x27, CHR '','', CHR 0x27] @
                  '' or '' @ [CHR 0x27, CHR '']'', CHR 0x27] @ '' in array'') ''parse_array''))))"

definition json_decode :: "'r real_ops \<Rightarrow> string \<Rightarrow> 'r json result option" where
  "json_decode ro src =
     (let s = skip_ws src in
      case parse_value (2 * length s + 1) ro s of
        None \<Rightarrow> None
      | Some (Inl e) \<Rightarrow> Some (failure e)
      | Some (Inr (v, s1)) \<Rightarrow>
          (let rest = skip_ws s1 in
           if rest \<noteq> []
           then Some (failure (json_error (''trailing content at offset '' @
                  show_nat (length src - length rest)) ''parse''))
           else Some (success v)))"

section \<open>Access\<close>

definition json_get :: "'r json \<Rightarrow> string \<Rightarrow> 'r json option" where
  "json_get j key = (case j of JObject kvs \<Rightarrow> map_of kvs key | _ \<Rightarrow> None)"

definition json_get_string :: "'r json \<Rightarrow> string \<Rightarrow> string \<Rightarrow> string" where
  "json_get_string j key fallback = (case json_get j key of Some (JString t) \<Rightarrow> t | _ \<Rightarrow> fallback)"

definition json_get_int :: "'r real_ops \<Rightarrow> 'r json \<Rightarrow> string \<Rightarrow> int \<Rightarrow> int" where
  "json_get_int ro j key fallback =
     (case json_get j key of
        Some (JInt i) \<Rightarrow> i | Some (JReal x) \<Rightarrow> real_to_int ro x | _ \<Rightarrow> fallback)"

definition json_get_bool :: "'r json \<Rightarrow> string \<Rightarrow> bool \<Rightarrow> bool" where
  "json_get_bool j key fallback = (case json_get j key of Some (JBool b) \<Rightarrow> b | _ \<Rightarrow> fallback)"

section \<open>Every reader consumes input\<close>

lemma skip_ws_length [len_rules]: "length (skip_ws s) \<le> length s"
  by (simp add: skip_ws_def length_dropWhile_le)

lemma string_loop_length: "string_loop out s = Inr (t, r) \<Longrightarrow> length r < length s"
proof (induction "length s" arbitrary: out s rule: less_induct)
  case less
  show ?case
  proof (cases s)
    case (Cons c s1)
    consider "c = CHR 0x22" | "c = CHR 0x5C" "s1 = []" | e s2 where "c = CHR 0x5C" "s1 = e # s2"
      | "c \<noteq> CHR 0x22" "c \<noteq> CHR 0x5C" by (cases s1) auto
    then show ?thesis
    proof cases
      case (3 e s2)
      then obtain x where "string_loop (out @ [x]) s2 = Inr (t, r)"
        using less.prems Cons by (auto split: option.splits)
      then have "length r < length s2" using less.hyps [of s2 "out @ [x]"] Cons 3 by simp
      then show ?thesis using Cons 3 by simp
    next
      case 4
      then show ?thesis using less.prems less.hyps [of s1 "out @ [c]"] Cons by simp
    qed (use less.prems Cons in auto)
  qed (use less.prems in simp)
qed

lemma parse_string_value_length: "parse_string_value s = Inr (t, r) \<Longrightarrow> length r < length s"
  by (cases s) (auto simp: parse_string_value_def dest: string_loop_length split: if_splits)

lemma number_tail_append: "fst (number_tail dot ex s) @ fst (snd (number_tail dot ex s)) = s"
  by (induction dot ex s rule: number_tail.induct) (auto simp: split_beta split: list.splits)

lemma number_tail_length:
  assumes "number_tail dot ex s = (t, rest, real)"
  shows "length t + length rest = length s"
proof -
  have "t @ rest = s" using number_tail_append [of dot ex s] assms by simp
  then show ?thesis by auto
qed

lemma parse_bool_length: "parse_bool s = Inr (v, r) \<Longrightarrow> length r < length s"
  by (cases s) (auto simp: parse_bool_def split: if_splits)

lemma parse_null_length: "parse_null s = Inr (v, r) \<Longrightarrow> length r < length s"
  by (cases s) (auto simp: parse_null_def split: if_splits)

lemma parse_number_length: "parse_number ro s = Inr (v, r) \<Longrightarrow> length r < length s"
proof -
  assume p: "parse_number ro s = Inr (v, r)"
  define sg where "sg = (if s \<noteq> [] \<and> is_sign (hd s) then [hd s] else [])"
  obtain t rest real where t: "number_tail False False (drop (length sg) s) = (t, rest, real)"
    by (metis prod_cases3)
  have "sg @ t \<noteq> []" "r = rest"
    using p t by (auto simp: parse_number_def sg_def [symmetric] Let_def split: if_splits option.splits)
  moreover have "length sg \<le> length s" by (cases s) (simp_all add: sg_def)
  ultimately show ?thesis using number_tail_length [OF t] by (cases sg; cases t) auto
qed

lemma settles_of_result:
  "(\<And>v r. x = Inr (v, r) \<Longrightarrow> length r < length s) \<Longrightarrow> settles (Some x) s"
  by (cases x) auto

lemma settles_if:
  "(b \<Longrightarrow> settles x s) \<Longrightarrow> (\<not> b \<Longrightarrow> settles y s) \<Longrightarrow> settles (if b then x else y) s"
  by simp

lemma json_fuel:
  "2 * length s + 1 \<le> n \<Longrightarrow> settles (parse_value n ro s) s"
  "2 * length s + 2 \<le> n \<Longrightarrow> settles (parse_members n ro obj s) s"
  "2 * length s + 2 \<le> n \<Longrightarrow> settles (parse_elements n ro arr s) s"
proof (induction n arbitrary: s obj arr)
  case 0
  { case 1 then show ?case by simp }
  { case 2 then show ?case by simp }
  { case 3 then show ?case by simp }
next
  case (Suc n)
  { case 1
    show ?case
    proof (cases "skip_ws s")
      case Nil
      then show ?thesis by simp
    next
      case (Cons c r)
      have l: "Suc (length r) \<le> length s" using skip_ws_length [of s] Cons by simp
      let ?s = "skip_ws r"
      have l': "length ?s < length s" using skip_ws_length [of r] l by simp
      have fuel: "2 * length ?s + 2 \<le> n" using 1 l' by simp
      have leaf: "\<And>x. (\<And>v r'. x = Inr (v, r') \<Longrightarrow> length r' < length (c # r)) \<Longrightarrow> settles (Some x) s"
        using l by (intro settles_of_result) (fastforce dest: less_le_trans)
      have m: "settles (parse_members n ro [] ?s) s"
        by (rule settles_shorter [OF Suc.IH(2) [OF fuel]]) (use l' in simp)
      have a: "settles (parse_elements n ro [] ?s) s"
        by (rule settles_shorter [OF Suc.IH(3) [OF fuel]]) (use l' in simp)
      have str: "settles (Some (case parse_string_value (c # r) of
          Inl e \<Rightarrow> failure e | Inr (t, rest) \<Rightarrow> success (JString t, rest))) s"
        by (rule leaf) (auto split: sum.splits dest: parse_string_value_length)
      have lf: "settles (Some (parse_bool (c # r))) s" "settles (Some (parse_null (c # r))) s"
        "settles (Some (parse_number ro (c # r))) s"
        by (rule leaf, erule parse_bool_length, rule leaf, erule parse_null_length,
            rule leaf, erule parse_number_length)
      have nil: "settles (Some (Inr (v, tl ?s))) s" for v using l' by simp
      show ?thesis
        unfolding parse_value.simps Cons list.case(2) Let_def
        by (rule settles_if | rule m | rule a | rule str | rule lf | rule nil)+
    qed }
  { case 2
    show ?case
    proof (cases "parse_string_value (skip_ws s)")
      case (Inl e)
      then show ?thesis by simp
    next
      case (Inr p)
      obtain k s1 where p: "p = (k, s1)" by fastforce
      have l1: "length (skip_ws s1) < length s"
        using parse_string_value_length [of "skip_ws s" k s1] Inr p skip_ws_length [of s] skip_ws_length [of s1]
        by simp
      show ?thesis
      proof (cases "skip_ws s1 = [] \<or> hd (skip_ws s1) \<noteq> CHR '':''")
        case True
        then show ?thesis using Inr p by (auto simp: Let_def)
      next
        case False
        have "settles (parse_value n ro (tl (skip_ws s1))) (tl (skip_ws s1))"
          using 2 l1 by (intro Suc.IH(1)) simp
        then show ?thesis
        proof (cases rule: settles_cases)
          case (1 e)
          then show ?thesis using Inr p False by (auto simp: Let_def)
        next
          case v: (2 v s3)
          have l3: "length (tl (skip_ws s3)) < length s" using v(2) skip_ws_length [of s3] l1 by simp
          have "settles (parse_members n ro (obj @ [(k, v)]) (tl (skip_ws s3))) (tl (skip_ws s3))"
            using 2 l3 by (intro Suc.IH(2)) simp
          then have "settles (parse_members n ro (obj @ [(k, v)]) (tl (skip_ws s3))) s"
            using l3 by (auto elim: settles_shorter)
          then show ?thesis using Inr p False v l3 by (simp add: Let_def)
        qed
      qed
    qed }
  { case 3
    have "settles (parse_value n ro s) s" using 3 by (intro Suc.IH(1)) simp
    then show ?case
    proof (cases rule: settles_cases)
      case (1 e)
      then show ?thesis by simp
    next
      case v: (2 v s1)
      have l1: "length (tl (skip_ws s1)) < length s" using v(2) skip_ws_length [of s1] by simp
      have "settles (parse_elements n ro (arr @ [v]) (tl (skip_ws s1))) (tl (skip_ws s1))"
        using 3 l1 by (intro Suc.IH(3)) simp
      then have "settles (parse_elements n ro (arr @ [v]) (tl (skip_ws s1))) s"
        using l1 by (auto elim: settles_shorter)
      then show ?thesis using v l1 by (simp add: Let_def)
    qed }
qed

lemma json_total: "\<exists>r. json_decode ro src = Some r"
proof -
  have "settles (parse_value (2 * length (skip_ws src) + 1) ro (skip_ws src)) (skip_ws src)"
    by (rule json_fuel) simp
  then show ?thesis by (cases rule: settles_cases) (auto simp: json_decode_def Let_def)
qed

section \<open>The decoder inverts the encoder\<close>

text \<open>
  The values whose encoding is decoded back: no reals (stream output is lossy), no control
  characters in strings (they are written as \<open>\u00xx\<close>, which the decoder refuses), and no
  quote or backslash in keys (they are written unescaped).
\<close>

definition text_ok :: "string \<Rightarrow> bool" where
  "text_ok t \<longleftrightarrow> list_all (\<lambda>c. 32 \<le> code_of c \<or> c \<in> {CHR 0x09, CHR 0x0A, CHR 0x0D}) t"

definition key_ok :: "string \<Rightarrow> bool" where
  "key_ok k \<longleftrightarrow> list_all (\<lambda>c. c \<noteq> CHR 0x22 \<and> c \<noteq> CHR 0x5C) k"

fun json_ok :: "'r json \<Rightarrow> bool" where
  "json_ok JNull \<longleftrightarrow> True"
| "json_ok (JBool b) \<longleftrightarrow> True"
| "json_ok (JInt i) \<longleftrightarrow> - (2 ^ 63) \<le> i \<and> i < 2 ^ 63"
| "json_ok (JReal x) \<longleftrightarrow> False"
| "json_ok (JString t) \<longleftrightarrow> text_ok t"
| "json_ok (JArray vs) \<longleftrightarrow> list_all json_ok vs"
| "json_ok (JObject kvs) \<longleftrightarrow> list_all (\<lambda>(k, v). key_ok k \<and> json_ok v) kvs"

fun json_fuel_of :: "'r json \<Rightarrow> nat" where
  "json_fuel_of (JArray vs) = 2 + sum_list (map (\<lambda>v. Suc (json_fuel_of v)) vs)"
| "json_fuel_of (JObject kvs) = 2 + sum_list (map (\<lambda>(k, v). Suc (json_fuel_of v)) kvs)"
| "json_fuel_of v = 1"

definition stop :: "string \<Rightarrow> bool" where
  "stop r \<longleftrightarrow> r = [] \<or> hd r \<in> {CHR '','', CHR '']'', CHR ''}''}"

lemma string_loop_key:
  "key_ok k \<Longrightarrow> string_loop out (k @ CHR 0x22 # r) = Inr (out @ k, r)"
  by (induction k arbitrary: out) (simp_all add: key_ok_def)

lemma string_loop_escape:
  "text_ok t \<Longrightarrow> string_loop out (json_escape t @ CHR 0x22 # r) = Inr (out @ t, r)"
proof (induction t arbitrary: out)
  case Nil
  then show ?case by (simp add: json_escape_def)
next
  case (Cons c t)
  have "string_loop out (json_escape_char c @ s) = string_loop (out @ [c]) s" for s
    using Cons.prems by (auto simp: json_escape_char_def text_ok_def unescape_def)
  then show ?case using Cons by (simp add: json_escape_def text_ok_def)
qed

lemma number_tail_digits:
  "\<forall>c \<in> set ds. is_digit c \<Longrightarrow> stop r \<Longrightarrow> number_tail False False (ds @ r) = (ds, r, False)"
proof (induction ds)
  case Nil
  then show ?case by (cases r) (auto simp: stop_def is_digit_def)
qed simp

lemma show_int_cases:
  obtains c cs where "show_int i = c # cs" "is_digit c \<or> c = CHR ''-''" "\<forall>d \<in> set cs. is_digit d"
proof -
  obtain c cs where "show_nat (nat \<bar>i\<bar>) = c # cs" "is_digit c" "\<forall>d \<in> set cs. is_digit d"
    by (rule show_nat_Cons)
  then show ?thesis using that [of c cs] that [of "CHR ''-''" "c # cs"]
    by (cases "i < 0") (simp_all add: show_int_def)
qed

lemma stoll_show_int:
  assumes "- (2 ^ 63) \<le> i" "i < 2 ^ 63" "base \<in> {0, 10}"
  shows "stoll base (show_int i) = Some i"
  by (rule stoll_show [where neg = "i < 0" and n = "nat \<bar>i\<bar>"]) (use assms in \<open>auto simp: show_int_def\<close>)

lemma parse_number_show:
  assumes "- (2 ^ 63) \<le> i" "i < 2 ^ 63" "stop r"
  shows "parse_number ro (show_int i @ r) = Inr (JInt i, r)"
proof (rule show_int_cases [of i])
  fix c cs assume c: "show_int i = c # cs" "is_digit c \<or> c = CHR ''-''" "\<forall>d \<in> set cs. is_digit d"
  have v: "stoll 10 (c # cs) = Some i" using stoll_show_int [OF assms(1,2), of 10] c(1) by simp
  show ?thesis
  proof (cases "is_digit c")
    case True
    then have "\<not> is_sign c" by (auto simp: is_digit_def is_sign_def)
    moreover have "number_tail False False ((c # cs) @ r) = (c # cs, r, False)"
      using True c(3) assms(3) by (intro number_tail_digits) auto
    ultimately show ?thesis using v by (simp add: parse_number_def c(1))
  next
    case False
    then have "is_sign c" using c(2) by (simp add: is_sign_def)
    then show ?thesis using number_tail_digits [OF c(3) assms(3)] v by (simp add: parse_number_def c(1))
  qed
qed

lemma encode_head:
  assumes "json_ok v"
  obtains c s where "json_encode ro v = c # s" "\<not> is_space c" "c \<noteq> CHR '']''" "c \<noteq> CHR ''}''"
proof (cases v)
  case (JInt i)
  obtain c cs where c: "show_int i = c # cs" "is_digit c \<or> c = CHR ''-''" by (rule show_int_cases)
  have "\<not> is_space c \<and> c \<noteq> CHR '']'' \<and> c \<noteq> CHR ''}''"
    using c(2) by (auto simp: is_digit_def is_space_def)
  then show ?thesis using that JInt c(1) by simp
next
  case (JBool b)
  then show ?thesis using that [of "CHR ''t''" "''rue''"] that [of "CHR ''f''" "''alse''"]
    by (cases b) (simp_all add: is_space_def)
qed (use assms that in \<open>auto simp: is_space_def split: if_splits\<close>)

lemma skip_ws_head: "\<not> is_space c \<Longrightarrow> skip_ws (c # s) = c # s"
  by (simp add: skip_ws_def)

lemma skip_ws_punct [simp]:
  "skip_ws (CHR '','' # s) = CHR '','' # s" "skip_ws (CHR '']'' # s) = CHR '']'' # s"
  "skip_ws (CHR ''}'' # s) = CHR ''}'' # s" "skip_ws (CHR '':'' # s) = CHR '':'' # s"
  "skip_ws (CHR 0x22 # s) = CHR 0x22 # s" "skip_ws (CHR ''{'' # s) = CHR ''{'' # s"
  "skip_ws (CHR ''['' # s) = CHR ''['' # s"
  by (simp_all add: skip_ws_def is_space_def)

lemma parse_elements_encode:
  assumes "vs \<noteq> []" "Suc (sum_list (map (\<lambda>v. Suc (json_fuel_of v)) vs)) \<le> m"
    and "\<And>v m r. v \<in> set vs \<Longrightarrow> json_fuel_of v \<le> m \<Longrightarrow> stop r \<Longrightarrow>
           parse_value m ro (json_encode ro v @ r) = Some (Inr (v, r))"
  shows "parse_elements m ro acc (join_comma (map (json_encode ro) vs) @ CHR '']'' # r)
       = Some (Inr (JArray (acc @ vs), r))"
  using assms
proof (induction vs arbitrary: m acc)
  case Nil
  then show ?case by simp
next
  case (Cons v vs)
  obtain n where m: "m = Suc n" using Cons.prems(2) by (cases m) auto
  show ?case
  proof (cases vs)
    case Nil
    have "parse_value n ro (json_encode ro v @ CHR '']'' # r) = Some (Inr (v, CHR '']'' # r))"
      using Cons.prems(2) m by (intro Cons.prems(3)) (simp_all add: stop_def)
    then show ?thesis using Nil m by simp
  next
    case (Cons w ws)
    let ?rest = "CHR '','' # join_comma (map (json_encode ro) vs) @ CHR '']'' # r"
    have "parse_value n ro (json_encode ro v @ ?rest) = Some (Inr (v, ?rest))"
      using Cons.prems(2) m by (intro Cons.prems(3)) (simp_all add: stop_def)
    moreover have "parse_elements n ro (acc @ [v]) (join_comma (map (json_encode ro) vs) @ CHR '']'' # r)
        = Some (Inr (JArray ((acc @ [v]) @ vs), r))"
      using Cons.prems m \<open>vs = w # ws\<close> by (intro Cons.IH) auto
    ultimately show ?thesis using m \<open>vs = w # ws\<close> by simp
  qed
qed

lemma parse_members_encode:
  assumes "kvs \<noteq> []" "Suc (sum_list (map (\<lambda>(k, v). Suc (json_fuel_of v)) kvs)) \<le> m"
    and "list_all (\<lambda>(k, v). key_ok k) kvs"
    and "\<And>k v m r. (k, v) \<in> set kvs \<Longrightarrow> json_fuel_of v \<le> m \<Longrightarrow> stop r \<Longrightarrow>
           parse_value m ro (json_encode ro v @ r) = Some (Inr (v, r))"
  shows "parse_members m ro obj (join_comma (map (\<lambda>(k, v). CHR 0x22 # k @ CHR 0x22 # CHR '':'' # json_encode ro v) kvs)
       @ CHR ''}'' # r) = Some (Inr (JObject (obj @ kvs), r))"
  using assms
proof (induction kvs arbitrary: m obj)
  case Nil
  then show ?case by simp
next
  case (Cons kv kvs)
  obtain n where m: "m = Suc n" using Cons.prems(2) by (cases m) auto
  obtain k v where kv: "kv = (k, v)" by fastforce
  let ?enc = "\<lambda>(k, v). CHR 0x22 # k @ CHR 0x22 # CHR '':'' # json_encode ro v"
  have key: "parse_string_value (CHR 0x22 # k @ CHR 0x22 # s) = Inr (k, s)" for s
    using Cons.prems(3) kv string_loop_key [of k "[]" s] by (simp add: parse_string_value_def)
  show ?case
  proof (cases kvs)
    case Nil
    have "parse_value n ro (json_encode ro v @ CHR ''}'' # r) = Some (Inr (v, CHR ''}'' # r))"
      using Cons.prems(2) m kv by (intro Cons.prems(4) [of k]) (simp_all add: stop_def)
    then show ?thesis using Nil m kv key by simp
  next
    case (Cons w ws)
    let ?rest = "CHR '','' # join_comma (map ?enc kvs) @ CHR ''}'' # r"
    have "parse_value n ro (json_encode ro v @ ?rest) = Some (Inr (v, ?rest))"
      using Cons.prems(2) m kv by (intro Cons.prems(4) [of k]) (simp_all add: stop_def)
    moreover have "parse_members n ro (obj @ [(k, v)]) (join_comma (map ?enc kvs) @ CHR ''}'' # r)
        = Some (Inr (JObject ((obj @ [(k, v)]) @ kvs), r))"
      using Cons.prems m \<open>kvs = w # ws\<close> kv by (intro Cons.IH) auto
    ultimately show ?thesis using m \<open>kvs = w # ws\<close> kv key by simp
  qed
qed

lemma join_comma_head: "xs \<noteq> [] \<Longrightarrow> hd xs = c # s \<Longrightarrow> \<exists>s'. join_comma xs @ t = c # s'"
  by (cases xs rule: join_comma.cases) auto

lemma parse_value_encode:
  "json_ok v \<Longrightarrow> json_fuel_of v \<le> m \<Longrightarrow> stop r \<Longrightarrow>
     parse_value m ro (json_encode ro v @ r) = Some (Inr (v, r))"
proof (induction v arbitrary: m r)
  case JNull
  then obtain n where "m = Suc n" by (cases m) auto
  then show ?case by (simp add: skip_ws_head is_space_def parse_null_def)
next
  case (JBool b)
  then obtain n where "m = Suc n" by (cases m) auto
  then show ?case by (simp add: skip_ws_head is_space_def parse_bool_def)
next
  case (JInt i)
  then obtain n where m: "m = Suc n" by (cases m) auto
  obtain c cs where c: "show_int i = c # cs" "is_digit c \<or> c = CHR ''-''" by (rule show_int_cases)
  then have h: "\<not> is_space c" "c \<noteq> CHR ''{''" "c \<noteq> CHR ''[''" "c \<noteq> CHR 0x22" "c \<noteq> CHR ''t''"
    "c \<noteq> CHR ''f''" "c \<noteq> CHR ''n''" by (auto simp: is_digit_def is_space_def)
  have "parse_number ro (show_int i @ r) = Inr (JInt i, r)"
    using JInt by (intro parse_number_show) simp_all
  then show ?case using m h by (simp add: c(1) skip_ws_head)
next
  case (JReal x)
  then show ?case by simp
next
  case (JString t)
  then obtain n where "m = Suc n" by (cases m) auto
  then show ?case using JString string_loop_escape [of t "[]" r] by (simp add: parse_string_value_def)
next
  case (JArray vs)
  then obtain n where m: "m = Suc n" by (cases m) auto
  show ?case
  proof (cases vs)
    case Nil
    then show ?thesis using m by simp
  next
    case (Cons w ws)
    let ?s = "join_comma (map (json_encode ro) vs) @ CHR '']'' # r"
    obtain c s where c: "json_encode ro w = c # s" "\<not> is_space c" "c \<noteq> CHR '']''"
      by (rule encode_head [of w ro]) (use JArray.prems(1) Cons in auto)
    obtain s' where s': "?s = c # s'"
      using join_comma_head [of "map (json_encode ro) vs" c s "CHR '']'' # r"] Cons c(1) by auto
    have "parse_elements n ro [] ?s = Some (Inr (JArray ([] @ vs), r))"
      using JArray m Cons by (intro parse_elements_encode) (auto simp: list_all_iff)
    then show ?thesis using m c s' by (simp add: skip_ws_head)
  qed
next
  case (JObject kvs)
  then obtain n where m: "m = Suc n" by (cases m) auto
  show ?case
  proof (cases kvs)
    case Nil
    then show ?thesis using m by simp
  next
    case (Cons w ws)
    let ?enc = "\<lambda>(k, v). CHR 0x22 # k @ CHR 0x22 # CHR '':'' # json_encode ro v"
    let ?s = "join_comma (map ?enc kvs) @ CHR ''}'' # r"
    obtain s where "hd (map ?enc kvs) = CHR 0x22 # s" using Cons by (cases w) auto
    then obtain s' where s': "?s = CHR 0x22 # s'"
      using join_comma_head [of "map ?enc kvs" "CHR 0x22" s "CHR ''}'' # r"] Cons by auto
    have ih: "parse_value m ro (json_encode ro v @ r) = Some (Inr (v, r))"
      if "(k, v) \<in> set kvs" "json_fuel_of v \<le> m" "stop r" for k v m r
      using JObject.IH [of "(k, v)" v m r] JObject.prems(1) that by (auto simp: list_all_iff)
    have keys: "list_all (\<lambda>(k, v). key_ok k) kvs" using JObject.prems(1) by (auto simp: list_all_iff)
    have "parse_members n ro [] ?s = Some (Inr (JObject ([] @ kvs), r))"
      by (rule parse_members_encode [OF _ _ keys ih]) (use JObject.prems m Cons in simp_all)
    then show ?thesis using m s' by (simp add: skip_ws_head)
  qed
qed

lemma length_join_comma:
  "sum_list (map length xs) + length xs \<le> Suc (length (join_comma xs))"
  by (induction xs rule: join_comma.induct) auto

lemma json_fuel_length: "json_ok v \<Longrightarrow> json_fuel_of v \<le> 2 * length (json_encode ro v)"
proof (induction v)
  case (JInt i)
  then show ?case by (cases "show_int i") (auto simp: show_int_def split: if_splits)
next
  case (JArray vs)
  have "sum_list (map (\<lambda>v. Suc (json_fuel_of v)) vs) \<le> sum_list (map (\<lambda>v. Suc (2 * length (json_encode ro v))) vs)"
    using JArray by (intro sum_list_mono) (auto simp: list_all_iff)
  also have "\<dots> = 2 * sum_list (map length (map (json_encode ro) vs)) + length vs"
    by (induction vs) auto
  finally show ?case using length_join_comma [of "map (json_encode ro) vs"] by simp
next
  case (JObject kvs)
  let ?enc = "\<lambda>(k, v). CHR 0x22 # k @ CHR 0x22 # CHR '':'' # json_encode ro v"
  have "sum_list (map (\<lambda>(k, v). Suc (json_fuel_of v)) kvs) \<le> sum_list (map (\<lambda>kv. Suc (2 * length (?enc kv))) kvs)"
    using JObject by (intro sum_list_mono) (fastforce simp: list_all_iff)
  also have "\<dots> = 2 * sum_list (map length (map ?enc kvs)) + length kvs"
    by (induction kvs) auto
  finally show ?case using length_join_comma [of "map ?enc kvs"] by simp
qed simp_all

section \<open>Properties\<close>

text \<open>
  the JSON decoder returns on every input: its recursion never exceeds twice the length
  of the text, because every value read consumes input.
\<close>

theorem json_returns: "\<exists>r. json_decode ro src = Some r"
  by (rule json_total)

text \<open>
  C18: decoding the encoding of any value without reals, whose strings have no control
  characters but tab, line feed and carriage return and whose keys need no escaping, gives
  back exactly that value.
\<close>

theorem json_roundtrip:
  assumes "json_ok v"
  shows "json_decode ro (json_encode ro v) = Some (Inr v)"
proof -
  obtain c s where c: "json_encode ro v = c # s" "\<not> is_space c" by (rule encode_head [OF assms])
  then have ws: "skip_ws (json_encode ro v) = json_encode ro v" by (simp add: skip_ws_head)
  have "parse_value (2 * length (json_encode ro v) + 1) ro (json_encode ro v @ []) = Some (Inr (v, []))"
    using json_fuel_length [OF assms, of ro] by (intro parse_value_encode assms) (simp_all add: stop_def)
  moreover have "skip_ws [] = []" by (simp add: skip_ws_def)
  ultimately show ?thesis by (simp add: json_decode_def ws Let_def del: parse_value.simps)
qed

definition no_reals :: "unit real_ops" where
  "no_reals = \<lparr>real_show = (\<lambda>_. ''0''), real_read = (\<lambda>_. None), real_to_int = (\<lambda>_. 0)\<rparr>"

definition demo_json :: "unit json" where
  "demo_json = JObject [(''id'', JString [CHR ''a'', CHR 0x22, CHR 0x0A]),
     (''params'', JArray [JInt (-12), JBool True, JNull, JObject []])]"

theorem json_roundtrip_witness:
  "json_decode no_reals (json_encode no_reals demo_json) = Some (Inr demo_json) \<and>
   \<not> result_ok (the (json_decode no_reals (json_encode no_reals (JString [CHR 0x01]))))"
proof
  show "json_decode no_reals (json_encode no_reals demo_json) = Some (Inr demo_json)"
    by (rule json_roundtrip) (simp add: demo_json_def text_ok_def key_ok_def)
qed code_simp

end
