(* ===== verification/Inproc_Transport.thy ===== *)
theory Inproc_Transport
  imports Core_Types
begin

text \<open>
  \<open>IAgentTransport\<close> of \<open>include/gtlibcpp/agent.hpp\<close> as an interface, and its in-process
  implementation (\<open>src/inproc_transport.cpp\<close>): a pair of queues, one per direction, with a
  flag that closes both. A call of \<open>receive\<close> waits up to 50 ms for a message or the close;
  the model is the state at the moment the wait ends. The locale \<open>transport\<close> states what the
  agent's server loop relies on: messages arrive once, in order, and a closed transport
  accepts nothing more but is still drained.
\<close>

section \<open>The interface\<close>

record 't transport_ops =
  tr_send :: "'t \<Rightarrow> string \<Rightarrow> unit result \<times> 't"
  tr_receive :: "'t \<Rightarrow> string result \<times> 't"
  tr_close :: "'t \<Rightarrow> 't"

locale transport =
  fixes tops :: "'t transport_ops"
    and inbox :: "'t \<Rightarrow> string list"
    and outbox :: "'t \<Rightarrow> string list"
    and is_open :: "'t \<Rightarrow> bool"
  assumes send_open: "is_open t \<Longrightarrow> fst (tr_send tops t x) = Inr ()"
    and send_outbox: "is_open t \<Longrightarrow> outbox (snd (tr_send tops t x)) = outbox t @ [x]"
    and send_inbox: "inbox (snd (tr_send tops t x)) = inbox t"
    and send_keeps_open: "is_open (snd (tr_send tops t x)) = is_open t"
    and send_closed: "\<not> is_open t \<Longrightarrow> snd (tr_send tops t x) = t \<and> \<not> result_ok (fst (tr_send tops t x))"
    and receive_message: "inbox t = x # xs \<Longrightarrow> fst (tr_receive tops t) = Inr x"
    and receive_inbox: "inbox (snd (tr_receive tops t)) = tl (inbox t)"
    and receive_outbox: "outbox (snd (tr_receive tops t)) = outbox t"
    and receive_keeps_open: "is_open (snd (tr_receive tops t)) = is_open t"
    and receive_empty: "inbox t = [] \<Longrightarrow> \<not> result_ok (fst (tr_receive tops t)) \<and> snd (tr_receive tops t) = t"
    and close_closes: "\<not> is_open (tr_close tops t)"
    and close_keeps: "inbox (tr_close tops t) = inbox t" "outbox (tr_close tops t) = outbox t"
begin

text \<open>Receiving everything that waits, by repeated calls.\<close>

fun drain :: "nat \<Rightarrow> 't \<Rightarrow> string list \<times> 't" where
  "drain 0 t = ([], t)"
| "drain (Suc n) t =
     (case tr_receive tops t of
        (Inl e, t') \<Rightarrow> drain n t'
      | (Inr x, t') \<Rightarrow> (case drain n t' of (xs, t'') \<Rightarrow> (x # xs, t'')))"

lemma drain_inbox:
  "fst (drain n t) = take n (inbox t)" "inbox (snd (drain n t)) = drop n (inbox t)"
proof (induction n arbitrary: t)
  case 0
  { case 1 show ?case by simp }
  { case 2 show ?case by simp }
next
  case (Suc n)
  { case 1 show ?case
    proof (cases "inbox t")
      case Nil
      obtain e where "tr_receive tops t = (Inl e, t)"
        using receive_empty [OF Nil] by (cases "tr_receive tops t"; cases "fst (tr_receive tops t)")
          (auto simp: result_ok_def)
      then show ?thesis using Suc.IH(1) [of t] Nil by simp
    next
      case (Cons x xs)
      obtain t' where "tr_receive tops t = (Inr x, t')"
        using receive_message [OF Cons] by (cases "tr_receive tops t") simp
      then show ?thesis using Suc.IH(1) [of t'] Cons receive_inbox [of t] by (simp split: prod.split) (metis fst_conv)
    qed }
  { case 2 show ?case
    proof (cases "inbox t")
      case Nil
      obtain e where "tr_receive tops t = (Inl e, t)"
        using receive_empty [OF Nil] by (cases "tr_receive tops t"; cases "fst (tr_receive tops t)")
          (auto simp: result_ok_def)
      then show ?thesis using Suc.IH(2) [of t] Nil by simp
    next
      case (Cons x xs)
      obtain t' where "tr_receive tops t = (Inr x, t')"
        using receive_message [OF Cons] by (cases "tr_receive tops t") simp
      then show ?thesis using Suc.IH(2) [of t'] Cons receive_inbox [of t] by (simp split: prod.split) (metis snd_conv)
    qed }
qed

end

section \<open>The in-process pair\<close>

record transport_pair =
  tp_client_to_server :: "string list"
  tp_server_to_client :: "string list"
  tp_closed :: bool

definition transport_pair_new :: transport_pair where
  "transport_pair_new = \<lparr>tp_client_to_server = [], tp_server_to_client = [], tp_closed = False\<rparr>"

text \<open>An \<open>InProcTransport\<close>: \<open>None\<close> is the null \<open>pair_\<close>, the flag is \<open>client_side_\<close>.\<close>

definition inproc_send ::
  "bool \<Rightarrow> transport_pair option \<Rightarrow> string \<Rightarrow> unit result \<times> transport_pair option" where
  "inproc_send client_side po json =
     (case po of
        None \<Rightarrow> (failure (make_error EC_not_connected ''transport detached'' ''InProcTransport::send'' 0 0), po)
      | Some p \<Rightarrow>
          (if tp_closed p
           then (failure (make_error EC_not_connected ''transport closed'' ''InProcTransport::send'' 0 0), po)
           else if client_side
           then (success (), Some (p\<lparr>tp_client_to_server := tp_client_to_server p @ [json]\<rparr>))
           else (success (), Some (p\<lparr>tp_server_to_client := tp_server_to_client p @ [json]\<rparr>))))"

definition inproc_receive ::
  "bool \<Rightarrow> transport_pair option \<Rightarrow> string result \<times> transport_pair option" where
  "inproc_receive client_side po =
     (case po of
        None \<Rightarrow> (failure (make_error EC_not_connected ''transport detached'' ''InProcTransport::receive'' 0 0), po)
      | Some p \<Rightarrow>
          (case (if client_side then tp_server_to_client p else tp_client_to_server p) of
             [] \<Rightarrow>
               (if tp_closed p
                then (failure (make_error EC_not_connected ''transport closed'' ''InProcTransport::receive'' 0 0), po)
                else (failure (make_error EC_timeout ''no message available'' ''InProcTransport::receive'' 0 0), po))
           | x # queue \<Rightarrow>
               (success x, Some (if client_side then p\<lparr>tp_server_to_client := queue\<rparr>
                                 else p\<lparr>tp_client_to_server := queue\<rparr>))))"

definition pair_close :: "transport_pair \<Rightarrow> transport_pair" where
  "pair_close p = p\<lparr>tp_closed := True\<rparr>"

definition inproc_close :: "transport_pair option \<Rightarrow> transport_pair option" where
  "inproc_close po = map_option pair_close po"

definition inproc_ops :: "bool \<Rightarrow> transport_pair option transport_ops" where
  "inproc_ops client_side = \<lparr>tr_send = inproc_send client_side, tr_receive = inproc_receive client_side,
     tr_close = inproc_close\<rparr>"

definition inproc_inbox :: "bool \<Rightarrow> transport_pair option \<Rightarrow> string list" where
  "inproc_inbox client_side po =
     (case po of None \<Rightarrow> [] | Some p \<Rightarrow> if client_side then tp_server_to_client p else tp_client_to_server p)"

definition inproc_outbox :: "bool \<Rightarrow> transport_pair option \<Rightarrow> string list" where
  "inproc_outbox client_side po = inproc_inbox (\<not> client_side) po"

definition inproc_is_open :: "transport_pair option \<Rightarrow> bool" where
  "inproc_is_open po = (case po of None \<Rightarrow> False | Some p \<Rightarrow> \<not> tp_closed p)"

lemmas inproc_defs = inproc_ops_def inproc_send_def inproc_receive_def inproc_close_def pair_close_def
  inproc_inbox_def inproc_outbox_def inproc_is_open_def result_ok_def

interpretation server: transport "inproc_ops False" "inproc_inbox False" "inproc_outbox False" inproc_is_open
  by unfold_locales (auto simp: inproc_defs split: option.splits list.splits)

interpretation client: transport "inproc_ops True" "inproc_inbox True" "inproc_outbox True" inproc_is_open
  by unfold_locales (auto simp: inproc_defs split: option.splits list.splits)

section \<open>Properties\<close>

text \<open>The client sends a list of messages, one after the other.\<close>

definition send_all :: "bool \<Rightarrow> string list \<Rightarrow> transport_pair option \<Rightarrow> transport_pair option" where
  "send_all client_side msgs po = fold (\<lambda>m po. snd (inproc_send client_side po m)) msgs po"

lemma send_all_server_inbox:
  "inproc_is_open po \<Longrightarrow> inproc_inbox False (send_all True msgs po) = inproc_inbox False po @ msgs"
proof (induction msgs arbitrary: po)
  case (Cons m msgs)
  let ?po = "snd (inproc_send True po m)"
  have "inproc_is_open ?po" "inproc_inbox False ?po = inproc_inbox False po @ [m]"
    using client.send_keeps_open [of po m] client.send_outbox [OF Cons.prems, of m] Cons.prems
    by (simp_all add: inproc_ops_def inproc_outbox_def)
  then show ?case using Cons.IH [of ?po] by (simp add: send_all_def)
qed (simp add: send_all_def)

text \<open>
  the in-process transport is a FIFO channel: what the client sends on an open pair the
  server receives once, in order and after what was already waiting, even if the pair is
  closed in between; after that it receives nothing more.
\<close>

theorem inproc_fifo:
  assumes "inproc_is_open po"
  shows "fst (server.drain n (inproc_close (send_all True msgs po))) = take n (inproc_inbox False po @ msgs)"
  using server.drain_inbox(1) [of n] server.close_keeps(1) [of "send_all True msgs po"]
    send_all_server_inbox [OF assms, of msgs]
  by (simp add: inproc_ops_def)

theorem inproc_fifo_witness:
  "fst (server.drain 5 (inproc_close (send_all True [''a'', ''b''] (Some transport_pair_new)))) = [''a'', ''b'']"
  using inproc_fifo [of "Some transport_pair_new" 5 "[''a'', ''b'']"]
  by (simp add: inproc_is_open_def transport_pair_new_def inproc_inbox_def)

end
