(* ===== verification/Agent.thy ===== *)
theory Agent
  imports Freeze Policy Cheat_Table Json Inproc_Transport
begin

text \<open>
  The agent service of \<open>src/agent.cpp\<close>: the JSON-RPC handlers over the memory session, the
  policy, the freeze manager (which shares the session) and the cheat-table parser; the
  dispatcher \<open>handle\<close>; and the server loop. What a call finds outside the service (readings of
  the clocks, whether a thread can be created, which workers run while a join waits) is a
  record \<open>call_env\<close>. An exception that leaves a handler is a value of \<open>outcome\<close>.
\<close>

section \<open>State\<close>

record 'b agent =
  ag_session :: "'b session"
  ag_policy :: policy
  ag_freeze :: freeze_manager
  ag_pending :: "string \<rightharpoonup> approval_token"

record call_env =
  env_clock :: clock_readings
  env_now :: int
  env_spawn :: "string option"
  env_sched :: "string list"

definition AgentService_new :: "'b session \<Rightarrow> policy \<Rightarrow> freeze_manager \<Rightarrow> 'b agent" where
  "AgentService_new s p f = \<lparr>ag_session = s, ag_policy = p, ag_freeze = f, ag_pending = Map.empty\<rparr>"

definition hex_encode_lower :: "u8 list \<Rightarrow> string" where
  "hex_encode_lower bs =
     concat (map (\<lambda>b. [hex_digit_char (unat (drop_bit 4 b AND 0xF)), hex_digit_char (unat (b AND 0xF))]) bs)"

section \<open>Envelopes\<close>

definition envelope :: "string \<Rightarrow> 'r json \<Rightarrow> 'r json" where
  "envelope rpc_method params =
     JObject [(''jsonrpc'', JString ''2.0''), (''method'', JString rpc_method), (''params'', params)]"

definition make_envelope :: "string \<Rightarrow> 'r json \<Rightarrow> 'r json" where
  "make_envelope request_id r =
     JObject [(''jsonrpc'', JString ''2.0''), (''id'', JString request_id), (''result'', r)]"

definition make_error_envelope :: "string \<Rightarrow> 'r json \<Rightarrow> 'r json" where
  "make_error_envelope request_id e =
     JObject [(''jsonrpc'', JString ''2.0''), (''id'', JString request_id), (''error'', e)]"

definition error_response :: "string \<Rightarrow> int \<Rightarrow> string \<Rightarrow> error option \<Rightarrow> 'r json" where
  "error_response request_id code message underlying =
     JObject [(''jsonrpc'', JString ''2.0''), (''id'', JString request_id),
       (''error'', JObject ([(''code'', JInt code), (''message'', JString message)] @
          (case underlying of None \<Rightarrow> []
           | Some e \<Rightarrow> [(''data'', JString (error_code_to_string (err_code e)))])))]"

text \<open>The form used for a failed result: its code, message and symbolic code.\<close>

definition error_of :: "string \<Rightarrow> error \<Rightarrow> 'r json" where
  "error_of request_id e = error_response request_id (error_code_num (err_code e)) (err_message e) (Some e)"

definition request_id_of :: "'r json \<Rightarrow> string" where
  "request_id_of params = json_get_string params ''request_id'' []"

definition json_address :: "'r real_ops \<Rightarrow> 'r json \<Rightarrow> string \<Rightarrow> address" where
  "json_address ro params key = word_of_int (json_get_int ro params key 0)"

definition json_size :: "'r real_ops \<Rightarrow> 'r json \<Rightarrow> string \<Rightarrow> int \<Rightarrow> size_t" where
  "json_size ro params key fallback = word_of_int (json_get_int ro params key fallback)"

section \<open>Reading handlers\<close>

definition build_capability_response :: "'b session \<Rightarrow> 'r json" where
  "build_capability_response s =
     (let i = ses_identity s in
      JObject [(''target'', JObject [(''pid'', JInt (uint (ti_pid i))),
           (''image_path'', JString (ti_image_path i)), (''image_sha256'', JString (ti_image_sha256 i)),
           (''architecture'', JString (architecture_to_string (ti_architecture i))),
           (''start_time'', JInt (sint (ti_start_time i)))]),
         (''capabilities'', JObject [(''read'', JBool True), (''write'', JBool False),
           (''freeze'', JBool False), (''rollback'', JBool False)])])"

definition on_inspect :: "'b agent \<Rightarrow> 'r json \<Rightarrow> 'r json \<times> 'b agent" where
  "on_inspect ag params = (build_capability_response (ag_session ag), ag)"

definition on_read :: "'b backend_ops \<Rightarrow> 'r real_ops \<Rightarrow> 'b agent \<Rightarrow> 'r json \<Rightarrow> 'r json \<times> 'b agent" where
  "on_read ops ro ag params =
     (let address = json_address ro params ''address''; n = json_size ro params ''size'' 4 in
      if \<not> session_is_alive ops (Some (ses_backend (ag_session ag)))
      then (error_response (request_id_of params) (error_code_num EC_target_dead) ''target is not alive'' None, ag)
      else (case read_bytes ops (ag_session ag) address n of
              (Inl e, s) \<Rightarrow> (error_of (request_id_of params) e, ag\<lparr>ag_session := s\<rparr>)
            | (Inr bs, s) \<Rightarrow>
                (JObject [(''address'', JInt (sint address)), (''size'', JInt (int (length bs))),
                   (''hex'', JString (hex_encode_lower bs))], ag\<lparr>ag_session := s\<rparr>)))"

definition json_offsets :: "'r json option \<Rightarrow> address list" where
  "json_offsets node =
     (case node of
        Some (JArray vs) \<Rightarrow> List.map_filter (\<lambda>v. case v of JInt i \<Rightarrow> Some (word_of_int i) | _ \<Rightarrow> None) vs
      | _ \<Rightarrow> [])"

definition on_resolve :: "'b backend_ops \<Rightarrow> 'r real_ops \<Rightarrow> 'b agent \<Rightarrow> 'r json \<Rightarrow> 'r json \<times> 'b agent" where
  "on_resolve ops ro ag params =
     (case resolve_pointer_chain ops (ag_session ag) (json_address ro params ''base'')
             (json_offsets (json_get params ''offsets'')) of
        (Inl e, s) \<Rightarrow> (error_of (request_id_of params) e, ag\<lparr>ag_session := s\<rparr>)
      | (Inr a, s) \<Rightarrow> (JObject [(''address'', JInt (sint a))], ag\<lparr>ag_session := s\<rparr>))"

definition on_verify :: "'b backend_ops \<Rightarrow> 'r real_ops \<Rightarrow> 'b agent \<Rightarrow> 'r json \<Rightarrow> 'r json \<times> 'b agent" where
  "on_verify ops ro ag params =
     (case read_bytes ops (ag_session ag) (json_address ro params ''address'')
             (json_size ro params ''size'' 4) of
        (Inl e, s) \<Rightarrow> (error_of (request_id_of params) e, ag\<lparr>ag_session := s\<rparr>)
      | (Inr bs, s) \<Rightarrow> (JObject [(''hex'', JString (hex_encode_lower bs))], ag\<lparr>ag_session := s\<rparr>))"

section \<open>Previewing and applying a mutation\<close>

definition make_request :: "'r real_ops \<Rightarrow> 'r json \<Rightarrow> string \<Rightarrow> mutation_request" where
  "make_request ro params rpc_method =
     (let cap = json_get_string params ''capability'' ''read'' in
      \<lparr>mr_request_id = request_id_of params,
       mr_target_alias = json_get_string params ''target_alias'' [],
       mr_capability =
         (if cap = ''read'' then cap_read else if cap = ''write'' then cap_write
          else if cap = ''freeze'' then cap_freeze else if cap = ''unfreeze'' then cap_unfreeze
          else if cap = ''rollback'' then cap_rollback else if cap = ''parse'' then cap_parse
          else cap_read),
       mr_preview = json_get_bool params ''preview'' False,
       mr_approved = json_get_bool params ''approved'' False,
       mr_expected_current_hash = json_get_string params ''expected_current_hash'' [],
       mr_address = json_address ro params ''address'',
       mr_size = json_size ro params ''size'' 0,
       mr_value_repr = json_get_string params ''value_repr'' rpc_method\<rparr>)"

definition on_preview :: "'r real_ops \<Rightarrow> call_env \<Rightarrow> 'b agent \<Rightarrow> 'r json \<Rightarrow> 'r json \<times> 'b agent" where
  "on_preview ro env ag params =
     (let r = (make_request ro params ''preview'')\<lparr>mr_preview := True\<rparr> in
      case authorize (ag_policy ag) (ses_identity (ag_session ag)) r (env_clock env) of
        (Inl e, p) \<Rightarrow> (error_of (mr_request_id r) e, ag\<lparr>ag_policy := p\<rparr>)
      | (Inr _, p) \<Rightarrow>
          (let pa = \<lparr>at_request_id = mr_request_id r, at_target_alias = mr_target_alias r,
                     at_issued_at_ms = env_now env, at_expires_at_ms = env_now env + 5 * 60 * 1000,
                     at_signature = []\<rparr>
           in (JObject [(''approval_token'', JString (mr_request_id r)),
                 (''issued_at_ms'', JInt (at_issued_at_ms pa)), (''expires_at_ms'', JInt (at_expires_at_ms pa)),
                 (''target'', JString (mr_target_alias r))],
               ag\<lparr>ag_policy := p, ag_pending := (ag_pending ag)(mr_request_id r \<mapsto> pa)\<rparr>)))"

text \<open>
  The bytes of \<open>value_hex\<close>: \<open>std::stoul\<close> on each two-character buffer (up to a NUL), cast to a
  byte; \<open>None\<close> when it throws.
\<close>

fun hex_pairs :: "string \<Rightarrow> u8 list option" where
  "hex_pairs (a # b # r) =
     (case stoul 16 (takeWhile (\<lambda>c. code_of c \<noteq> 0) [a, b]) of
        None \<Rightarrow> None
      | Some v \<Rightarrow> map_option (\<lambda>bs. ucast v # bs) (hex_pairs r))"
| "hex_pairs s = Some []"

definition on_apply ::
  "'b backend_ops \<Rightarrow> 'r real_ops \<Rightarrow> call_env \<Rightarrow> 'b agent \<Rightarrow> 'r json \<Rightarrow> 'r json outcome \<times> 'b agent" where
  "on_apply ops ro env ag params =
     (let r = make_request ro params ''apply''; rid = mr_request_id r in
      case ag_pending ag rid of
        None \<Rightarrow> (Returned (error_response rid (error_code_num EC_policy_denied) ''no pending approval'' None), ag)
      | Some token \<Rightarrow>
          (let ag1 = ag\<lparr>ag_pending := (ag_pending ag)(rid := None)\<rparr> in
           case authorize_with_token (ag_policy ag1) (ses_identity (ag_session ag1)) r (Some token) (env_clock env) of
             (Inl e, p) \<Rightarrow> (Returned (error_of rid e), ag1\<lparr>ag_policy := p\<rparr>)
           | (Inr _, p) \<Rightarrow>
               (let ag2 = ag1\<lparr>ag_policy := p\<rparr>; bytes_str = json_get_string params ''value_hex'' [] in
                if length bytes_str mod 2 \<noteq> 0
                then (Returned (error_response rid (error_code_num EC_invalid_string)
                        ''value_hex must have an even number of digits'' None), ag2)
                else (case hex_pairs bytes_str of
                        None \<Rightarrow> (Threw ''stoul'', ag2)
                      | Some bs \<Rightarrow>
                          (case write_bytes ops (ag_session ag2) (mr_address r) bs of
                             (Inl e, s) \<Rightarrow> (Returned (error_of rid e), ag2\<lparr>ag_session := s\<rparr>)
                           | (Inr n, s) \<Rightarrow>
                               (if n \<noteq> of_nat (length bs)
                                then (Returned (error_response rid (error_code_num EC_partial_write)
                                        ''partial write'' None), ag2\<lparr>ag_session := s\<rparr>)
                                else (Returned (JObject [(''bytes_written'', JInt (sint n)),
                                        (''address'', JInt (sint (mr_address r)))]), ag2\<lparr>ag_session := s\<rparr>)))))))"

section \<open>Freezing\<close>

definition with_freeze :: "'b agent \<Rightarrow> 'b freeze_state \<Rightarrow> 'b agent" where
  "with_freeze ag ms = ag\<lparr>ag_freeze := fst ms, ag_session := snd ms\<rparr>"

definition on_restore ::
  "'b backend_ops \<Rightarrow> call_env \<Rightarrow> 'b agent \<Rightarrow> 'r json \<Rightarrow> 'r json \<times> 'b agent" where
  "on_restore ops env ag params =
     (let i = json_get_string params ''freeze_id'' [] in
      if i = []
      then (error_response (request_id_of params) (error_code_num EC_invalid_entry_id) ''freeze_id is required'' None, ag)
      else (case restore ops (env_sched env) i (ag_freeze ag, ag_session ag) of
              (Inl e, ms) \<Rightarrow> (error_of (request_id_of params) e, with_freeze ag ms)
            | (Inr _, ms) \<Rightarrow> (JObject [(''restored'', JBool True)], with_freeze ag ms)))"

definition on_freeze ::
  "'b backend_ops \<Rightarrow> 'r real_ops \<Rightarrow> call_env \<Rightarrow> 'b agent \<Rightarrow> 'r json \<Rightarrow> 'r json \<times> 'b agent" where
  "on_freeze ops ro env ag params =
     (let fr = \<lparr>fr_id = json_get_string params ''id'' [],
                fr_address = json_address ro params ''address'',
                fr_type_name = json_get_string params ''type'' ''uint32'',
                fr_value_u64 = word_of_int (json_get_int ro params ''value'' 0),
                fr_interval = json_get_int ro params ''interval_ms'' 50,
                fr_size = json_size ro params ''size'' 0\<rparr>
      in case freeze ops (env_spawn env) fr (ag_freeze ag, ag_session ag) of
           (Inl e, ms) \<Rightarrow> (error_of (request_id_of params) e, with_freeze ag ms)
         | (Inr _, ms) \<Rightarrow>
             (JObject [(''active'', JBool True), (''id'', JString (fr_id fr))], with_freeze ag ms))"

definition on_unfreeze ::
  "'b backend_ops \<Rightarrow> call_env \<Rightarrow> 'b agent \<Rightarrow> 'r json \<Rightarrow> 'r json \<times> 'b agent" where
  "on_unfreeze ops env ag params =
     (case unfreeze ops (env_sched env) (json_get_string params ''id'' []) (ag_freeze ag, ag_session ag) of
        (Inl e, ms) \<Rightarrow> (error_of (request_id_of params) e, with_freeze ag ms)
      | (Inr _, ms) \<Rightarrow> (JObject [(''unfrozen'', JBool True)], with_freeze ag ms))"

definition status_json :: "freeze_status \<Rightarrow> 'r json" where
  "status_json st = JObject [(''id'', JString (fs_id st)), (''active'', JBool (fs_active st)),
     (''successful_rewrites'', JInt (sint (fs_successful_rewrites st))),
     (''failed_rewrites'', JInt (sint (fs_failed_rewrites st)))]"

definition on_status :: "'b agent \<Rightarrow> 'r json \<Rightarrow> 'r json \<times> 'b agent" where
  "on_status ag params =
     (let i = json_get_string params ''id'' [] in
      if i = []
      then (JObject [(''freezes'', JArray (map status_json (all_status (ag_freeze ag))))], ag)
      else (case freeze_status (ag_freeze ag) i of
              Inl e \<Rightarrow> (error_of (request_id_of params) e, ag)
            | Inr st \<Rightarrow> (JObject [(''freeze'', status_json st)], ag)))"

end
