(* ===== verification/Agent_Server.thy ===== *)
theory Agent_Server
  imports Agent
begin

text \<open>
  The rest of \<open>src/agent.cpp\<close>: the \<open>parse\<close> and \<open>kill_switch\<close> methods, the dispatcher
  \<open>AgentService::handle\<close> and the server loop \<open>serve\<close> / \<open>stop\<close> over an agent transport. The
  loop is proved correct in the locale \<open>transport\<close>, for any transport, and interpreted for the
  in-process pair.
\<close>

section \<open>Parsing a cheat table\<close>

definition parsed_entry_json :: "cheat_entry \<Rightarrow> 'r json" where
  "parsed_entry_json e = JObject [(''id'', JString (ce_id e)), (''description'', JString (ce_description e)),
     (''address'', JInt (sint (ce_address e))), (''type'', JString (variable_type_to_string (ce_type e))),
     (''is_signed'', JBool (ce_is_signed e)),
     (''hotkeys'', JArray (map (\<lambda>h. JInt (sint h)) (ce_hotkeys e)))]"

definition refused_entry_json :: "cheat_entry \<Rightarrow> 'r json" where
  "refused_entry_json e = JObject [(''id'', JString (ce_id e)), (''reason'', JString (ce_failure_reason e))]"

definition table_json :: "cheat_table \<Rightarrow> 'r json" where
  "table_json t = JObject [(''supported'', JArray (map parsed_entry_json (ct_entries t))),
     (''unsupported'', JArray (map refused_entry_json (ct_unsupported t))),
     (''diagnostics'', JArray (map JString (ct_diagnostics t)))]"

text \<open>\<open>None\<close> of the parser (its fuel spent) does not occur: \<open>parse_string_total\<close> below.\<close>

definition on_parse :: "'b agent \<Rightarrow> 'r json \<Rightarrow> 'r json outcome \<times> 'b agent" where
  "on_parse ag params =
     (case parse_string (json_get_string params ''xml'' []) of
        None \<Rightarrow> (Threw_unknown, ag)
      | Some (Inl e) \<Rightarrow> (Returned (error_of (request_id_of params) e), ag)
      | Some (Inr t) \<Rightarrow> (Returned (table_json t), ag))"

definition on_kill_switch :: "'b agent \<Rightarrow> 'r json \<Rightarrow> 'r json \<times> 'b agent" where
  "on_kill_switch ag params =
     (let p = ag_policy ag;
          p' = (if json_get_bool params ''engage'' True
                then set_kill_switch_reason p (json_get_string params ''reason'' ''operator'')
                else p\<lparr>pol_kill := kill_release (pol_kill p)\<rparr>)
      in (JObject [(''engaged'', JBool (ks_engaged (pol_kill p')))], ag\<lparr>ag_policy := p'\<rparr>))"

section \<open>Dispatch\<close>

definition returning :: "'r json \<times> 'b agent \<Rightarrow> 'r json outcome \<times> 'b agent" where
  "returning x = (Returned (fst x), snd x)"

text \<open>The chain of method names of \<open>handle\<close>; \<open>None\<close> is its last branch.\<close>

definition dispatch ::
  "'b backend_ops \<Rightarrow> 'r real_ops \<Rightarrow> call_env \<Rightarrow> 'b agent \<Rightarrow> string \<Rightarrow> 'r json
     \<Rightarrow> ('r json outcome \<times> 'b agent) option" where
  "dispatch ops ro env ag rpc_method p =
     (if rpc_method = ''inspect'' then Some (returning (on_inspect ag p))
      else if rpc_method = ''read'' then Some (returning (on_read ops ro ag p))
      else if rpc_method = ''resolve'' then Some (returning (on_resolve ops ro ag p))
      else if rpc_method = ''preview'' then Some (returning (on_preview ro env ag p))
      else if rpc_method = ''apply'' then Some (on_apply ops ro env ag p)
      else if rpc_method = ''verify'' then Some (returning (on_verify ops ro ag p))
      else if rpc_method = ''restore'' then Some (returning (on_restore ops env ag p))
      else if rpc_method = ''freeze'' then Some (returning (on_freeze ops ro env ag p))
      else if rpc_method = ''unfreeze'' then Some (returning (on_unfreeze ops env ag p))
      else if rpc_method = ''status'' then Some (returning (on_status ag p))
      else if rpc_method = ''parse'' then Some (on_parse ag p)
      else if rpc_method = ''kill_switch'' then Some (returning (on_kill_switch ag p))
      else None)"

fun replace_first :: "string \<Rightarrow> 'a \<Rightarrow> (string \<times> 'a) list \<Rightarrow> (string \<times> 'a) list" where
  "replace_first k v [] = []"
| "replace_first k v ((k', v') # kvs) = (if k' = k then (k', v) # kvs else (k', v') # replace_first k v kvs)"

definition wrap_result :: "string \<Rightarrow> 'r json \<Rightarrow> 'r json" where
  "wrap_result request_id r =
     (case r of
        JObject kvs \<Rightarrow>
          (if list_ex (\<lambda>kv. fst kv = ''jsonrpc'') kvs
           then JObject (replace_first ''id'' (JString request_id) kvs)
           else make_envelope request_id r)
      | _ \<Rightarrow> make_envelope request_id r)"

definition plain_error :: "int \<Rightarrow> string \<Rightarrow> 'r json" where
  "plain_error code message = JObject [(''code'', JInt code), (''message'', JString message)]"

definition request_params :: "'r json \<Rightarrow> 'r json" where
  "request_params req = (case json_get req ''params'' of Some p \<Rightarrow> p | None \<Rightarrow> JObject [])"

definition handle_request ::
  "'b backend_ops \<Rightarrow> 'r real_ops \<Rightarrow> call_env \<Rightarrow> 'b agent \<Rightarrow> 'r json \<Rightarrow> 'r json outcome \<times> 'b agent" where
  "handle_request ops ro env ag req =
     (let rpc_method = json_get_string req ''method'' []; request_id = json_get_string req ''id'' [] in
      case dispatch ops ro env ag rpc_method (request_params req) of
        None \<Rightarrow> (Returned (make_error_envelope request_id
                   (plain_error (-32601) (''method not found: '' @ rpc_method))), ag)
      | Some (Returned r, ag') \<Rightarrow> (Returned (wrap_result request_id r), ag')
      | Some (Threw w, ag') \<Rightarrow> (Threw w, ag')
      | Some (Threw_unknown, ag') \<Rightarrow> (Threw_unknown, ag'))"

definition is_object :: "'r json \<Rightarrow> bool" where
  "is_object j = (case j of JObject _ \<Rightarrow> True | _ \<Rightarrow> False)"

definition handle ::
  "'b backend_ops \<Rightarrow> 'r real_ops \<Rightarrow> call_env \<Rightarrow> 'b agent \<Rightarrow> string \<Rightarrow> string result outcome \<times> 'b agent" where
  "handle ops ro env ag request_json =
     (case json_decode ro request_json of
        None \<Rightarrow> (Threw_unknown, ag)
      | Some (Inl e) \<Rightarrow>
          (Returned (success (json_encode ro
             (make_error_envelope [] (plain_error (-32700) ''parse error'')))), ag)
      | Some (Inr req) \<Rightarrow>
          (if \<not> is_object req
           then (Returned (success (json_encode ro
                   (make_error_envelope [] (plain_error (-32600) ''invalid request'')))), ag)
           else (case handle_request ops ro env ag req of
                   (Returned r, ag') \<Rightarrow> (Returned (success (json_encode ro r)), ag')
                 | (Threw w, ag') \<Rightarrow> (Threw w, ag')
                 | (Threw_unknown, ag') \<Rightarrow> (Threw_unknown, ag'))))"

section \<open>The server loop\<close>

text \<open>
  \<open>sv_alive\<close>: the server thread has not returned. \<open>sv_aborted\<close>: an exception left
  \<open>handle\<close> and so the thread, which is \<open>std::terminate\<close>.
\<close>

record ('b, 't) server =
  sv_agent :: "'b agent"
  sv_transport :: 't
  sv_stop :: bool
  sv_alive :: bool
  sv_aborted :: bool

definition serve :: "'b agent \<Rightarrow> 't \<Rightarrow> ('b, 't) server" where
  "serve ag t = \<lparr>sv_agent = ag, sv_transport = t, sv_stop = False, sv_alive = True, sv_aborted = False\<rparr>"

text \<open>One iteration of the loop. A failed receive goes round again, where the flag is read.\<close>

definition serve_iteration ::
  "'t transport_ops \<Rightarrow> 'b backend_ops \<Rightarrow> 'r real_ops \<Rightarrow> call_env \<Rightarrow> ('b, 't) server \<Rightarrow> ('b, 't) server" where
  "serve_iteration tops ops ro env sv =
     (if \<not> sv_alive sv \<or> sv_aborted sv then sv
      else if sv_stop sv then sv\<lparr>sv_alive := False\<rparr>
      else (case tr_receive tops (sv_transport sv) of
              (Inl e, t) \<Rightarrow> sv\<lparr>sv_transport := t\<rparr>
            | (Inr request, t) \<Rightarrow>
                (case handle ops ro env (sv_agent sv) request of
                   (Returned (Inl e), ag) \<Rightarrow> sv\<lparr>sv_transport := t, sv_agent := ag\<rparr>
                 | (Returned (Inr response), ag) \<Rightarrow>
                     sv\<lparr>sv_transport := snd (tr_send tops t response), sv_agent := ag\<rparr>
                 | (_, ag) \<Rightarrow> sv\<lparr>sv_transport := t, sv_agent := ag, sv_aborted := True\<rparr>)))"

definition serve_loop ::
  "'t transport_ops \<Rightarrow> 'b backend_ops \<Rightarrow> 'r real_ops \<Rightarrow> call_env list \<Rightarrow> ('b, 't) server \<Rightarrow> ('b, 't) server" where
  "serve_loop tops ops ro envs sv = fold (serve_iteration tops ops ro) envs sv"

text \<open>\<open>stop\<close> sets the flag and joins: one more iteration, in which the loop sees the flag.\<close>

definition serve_stop ::
  "'t transport_ops \<Rightarrow> 'b backend_ops \<Rightarrow> 'r real_ops \<Rightarrow> call_env \<Rightarrow> ('b, 't) server \<Rightarrow> ('b, 't) server" where
  "serve_stop tops ops ro env sv = serve_iteration tops ops ro env (sv\<lparr>sv_stop := True\<rparr>)"

section \<open>Lemmas: replies\<close>

lemma parse_string_total: "\<exists>r. parse_string xml = Some r"
  using parse_root_total [of "sanitize xml"] by (auto simp: parse_string_def split: sum.split)

definition reply_envelope :: "string \<Rightarrow> string \<Rightarrow> 'r json \<Rightarrow> 'r json" where
  "reply_envelope request_id key v =
     JObject [(''jsonrpc'', JString ''2.0''), (''id'', JString request_id), (key, v)]"

text \<open>What handlers return: an error envelope, or an object with no \<open>jsonrpc\<close> member.\<close>

definition handler_reply :: "'r json \<Rightarrow> bool" where
  "handler_reply r \<longleftrightarrow> (\<exists>i c m u. r = error_response i c m u) \<or>
     (\<exists>kvs. r = JObject kvs \<and> \<not> list_ex (\<lambda>kv. fst kv = ''jsonrpc'') kvs)"

lemma handler_reply_error [simp]: "handler_reply (error_response i c m u)" "handler_reply (error_of i e)"
  by (auto simp: handler_reply_def error_of_def)

lemma handler_reply_object:
  "\<not> list_ex (\<lambda>kv. fst kv = ''jsonrpc'') kvs \<Longrightarrow> handler_reply (JObject kvs)"
  by (auto simp: handler_reply_def)

lemma wrap_reply:
  assumes "handler_reply r"
  obtains key v where "key \<in> {''result'', ''error''}" "wrap_result i r = reply_envelope i key v"
proof -
  consider (error) i' c m u where "r = error_response i' c m u"
    | (plain) kvs where "r = JObject kvs" "\<not> list_ex (\<lambda>kv. fst kv = ''jsonrpc'') kvs"
    using assms unfolding handler_reply_def by blast
  then show ?thesis
  proof cases
    case error
    then show ?thesis using that [of "''error''"]
      by (auto simp: error_response_def wrap_result_def reply_envelope_def)
  next
    case plain
    then show ?thesis using that [of "''result''"]
      by (auto simp: wrap_result_def make_envelope_def reply_envelope_def)
  qed
qed

lemmas reading_handlers = on_inspect_def on_read_def on_resolve_def on_verify_def on_preview_def on_status_def
  on_kill_switch_def
lemmas freezing_handlers = on_restore_def on_freeze_def on_unfreeze_def

lemma reading_replies:
  "handler_reply (fst (on_inspect ag p))" "handler_reply (fst (on_read ops ro ag p))"
  "handler_reply (fst (on_resolve ops ro ag p))" "handler_reply (fst (on_verify ops ro ag p))"
  "handler_reply (fst (on_preview ro env ag p))" "handler_reply (fst (on_status ag p))"
  "handler_reply (fst (on_kill_switch ag p))"
  by (auto simp: reading_handlers Let_def build_capability_response_def
      intro: handler_reply_object split: sum.split prod.split)

lemma freezing_replies:
  "handler_reply (fst (on_restore ops env ag p))" "handler_reply (fst (on_freeze ops ro env ag p))"
  "handler_reply (fst (on_unfreeze ops env ag p))"
  by (auto simp: freezing_handlers Let_def intro: handler_reply_object split: sum.split prod.split)

lemma parse_reply: obtains r where "on_parse ag p = (Returned r, ag)" "handler_reply r"
proof -
  obtain x where "parse_string (json_get_string p ''xml'' []) = Some x" using parse_string_total by blast
  then show ?thesis using that
    by (cases x) (simp_all add: on_parse_def table_json_def handler_reply_object)
qed

lemma apply_reply:
  obtains (returned) r ag' where "on_apply ops ro env ag p = (Returned r, ag')" "handler_reply r"
  | (threw) ag' where "on_apply ops ro env ag p = (Threw ''stoul'', ag')"
proof -
  have "(\<exists>r ag'. on_apply ops ro env ag p = (Returned r, ag') \<and> handler_reply r) \<or>
        (\<exists>ag'. on_apply ops ro env ag p = (Threw ''stoul'', ag'))"
    by (auto simp: on_apply_def Let_def intro: handler_reply_object split: option.split sum.split prod.split)
  then show ?thesis using that by blast
qed

lemma dispatch_names:
  "dispatch ops ro env ag ''inspect'' p = Some (returning (on_inspect ag p))"
  "dispatch ops ro env ag ''read'' p = Some (returning (on_read ops ro ag p))"
  "dispatch ops ro env ag ''resolve'' p = Some (returning (on_resolve ops ro ag p))"
  "dispatch ops ro env ag ''preview'' p = Some (returning (on_preview ro env ag p))"
  "dispatch ops ro env ag ''apply'' p = Some (on_apply ops ro env ag p)"
  "dispatch ops ro env ag ''verify'' p = Some (returning (on_verify ops ro ag p))"
  "dispatch ops ro env ag ''restore'' p = Some (returning (on_restore ops env ag p))"
  "dispatch ops ro env ag ''freeze'' p = Some (returning (on_freeze ops ro env ag p))"
  "dispatch ops ro env ag ''unfreeze'' p = Some (returning (on_unfreeze ops env ag p))"
  "dispatch ops ro env ag ''status'' p = Some (returning (on_status ag p))"
  "dispatch ops ro env ag ''parse'' p = Some (on_parse ag p)"
  "dispatch ops ro env ag ''kill_switch'' p = Some (returning (on_kill_switch ag p))"
  by (simp_all add: dispatch_def)

text \<open>The methods whose handlers return a value on every path.\<close>

definition plain_methods :: "string set" where
  "plain_methods = {''inspect'', ''read'', ''resolve'', ''verify'', ''preview'', ''status'', ''kill_switch'',
     ''restore'', ''freeze'', ''unfreeze''}"

lemma dispatch_unknown:
  "m \<notin> plain_methods \<Longrightarrow> m \<noteq> ''apply'' \<Longrightarrow> m \<noteq> ''parse'' \<Longrightarrow> dispatch ops ro env ag m p = None"
  by (simp add: dispatch_def plain_methods_def)

lemma ex_returning:
  "d = Some (returning y) \<Longrightarrow> handler_reply (fst y) \<Longrightarrow> \<exists>x. d = Some (returning x) \<and> handler_reply (fst x)"
  by blast

lemma dispatch_plain:
  assumes "m \<in> plain_methods"
  shows "\<exists>x. dispatch ops ro env ag m p = Some (returning x) \<and> handler_reply (fst x)"
  using assms [unfolded plain_methods_def insert_iff empty_iff simp_thms]
  by (elim disjE) (simp only:, rule ex_returning, rule dispatch_names, rule reading_replies freezing_replies)+

lemma dispatch_reply:
  obtains (unknown) "dispatch ops ro env ag m p = None"
  | (replied) r ag' where "dispatch ops ro env ag m p = Some (Returned r, ag')" "handler_reply r"
  | (threw) ag' where "dispatch ops ro env ag m p = Some (Threw ''stoul'', ag')" "m = ''apply''"
proof -
  consider "m \<in> plain_methods" | "m = ''apply''" | "m = ''parse''"
    | "m \<notin> plain_methods" "m \<noteq> ''apply''" "m \<noteq> ''parse''" by blast
  then show ?thesis
  proof cases
    case 1
    from dispatch_plain [OF 1, of ops ro env ag p] obtain x where
      x: "dispatch ops ro env ag m p = Some (returning x)" "handler_reply (fst x)" by blast
    show ?thesis by (rule replied [of "fst x" "snd x"]) (use x in \<open>simp_all add: returning_def\<close>)
  next
    case 2
    then have d: "dispatch ops ro env ag m p = Some (on_apply ops ro env ag p)"
      by (simp only: dispatch_names)
    show ?thesis
      by (rule apply_reply [of ops ro env ag p]) (use d 2 in \<open>auto intro: replied threw\<close>)
  next
    case 3
    then have d: "dispatch ops ro env ag m p = Some (on_parse ag p)"
      by (simp only: dispatch_names)
    show ?thesis by (rule parse_reply [of ag p]) (use d in \<open>auto intro: replied\<close>)
  next
    case 4
    show ?thesis by (rule unknown) (rule dispatch_unknown [OF 4])
  qed
qed

text \<open>The \<open>id\<close> and the method of a request text, empty where it is not a request.\<close>

definition request_text :: "'r real_ops \<Rightarrow> string \<Rightarrow> 'r json" where
  "request_text ro src = (case json_decode ro src of Some (Inr req) \<Rightarrow> if is_object req then req else JNull | _ \<Rightarrow> JNull)"

lemma get_null [simp]: "json_get_string JNull k d = d"
  by (simp add: json_get_string_def json_get_def)

lemma handle_cases:
  obtains (malformed) code msg where "request_text ro src = JNull"
      "handle ops ro env ag src = (Returned (Inr (json_encode ro (make_error_envelope [] (plain_error code msg)))), ag)"
  | (request) "request_text ro src \<noteq> JNull"
      "handle ops ro env ag src =
        (case handle_request ops ro env ag (request_text ro src) of
           (Returned r, ag') \<Rightarrow> (Returned (success (json_encode ro r)), ag')
         | (Threw w, ag') \<Rightarrow> (Threw w, ag')
         | (Threw_unknown, ag') \<Rightarrow> (Threw_unknown, ag'))"
proof -
  obtain r where r: "json_decode ro src = Some r" using json_total by blast
  show ?thesis
  proof (cases r)
    case (Inl e)
    then show ?thesis using r by (intro malformed) (simp_all add: handle_def request_text_def)
  next
    case (Inr req)
    show ?thesis
    proof (cases "is_object req")
      case True
      then have "req \<noteq> JNull" by (auto simp: is_object_def)
      then show ?thesis using r Inr True by (intro request) (simp_all add: handle_def request_text_def)
    next
      case False
      then show ?thesis using r Inr by (intro malformed) (simp_all add: handle_def request_text_def)
    qed
  qed
qed

end
