(* ===== verification/Agent_History.thy ===== *)
theory Agent_History
  imports Agent_Server
begin

text \<open>
  Histories of the agent service: sequences of requests and of steps of the freeze workers;
  how an \<open>apply\<close> ends; and, for every handler, the parts of the state it leaves alone (the
  pending approvals, the kill switch, the memory behind a lawful backend).
\<close>

section \<open>Histories\<close>

text \<open>
  What happens to the service: a request reaches a handler, or a freeze worker takes a step on
  the session it shares.
\<close>

datatype 'r event = Request call_env string "'r json" | Worker string

definition agent_event :: "'b backend_ops \<Rightarrow> 'r real_ops \<Rightarrow> 'b agent \<Rightarrow> 'r event \<Rightarrow> 'b agent" where
  "agent_event ops ro ag ev =
     (case ev of
        Request env m p \<Rightarrow> (case dispatch ops ro env ag m p of None \<Rightarrow> ag | Some x \<Rightarrow> snd x)
      | Worker i \<Rightarrow> with_freeze ag (worker_turn ops i (ag_freeze ag, ag_session ag)))"

definition run_events :: "'b backend_ops \<Rightarrow> 'r real_ops \<Rightarrow> 'b agent \<Rightarrow> 'r event list \<Rightarrow> 'b agent" where
  "run_events ops ro ag evs = foldl (agent_event ops ro) ag evs"

lemma run_events_simps [simp]:
  "run_events ops ro ag [] = ag"
  "run_events ops ro ag (ev # evs) = run_events ops ro (agent_event ops ro ag ev) evs"
  by (simp_all add: run_events_def)

text \<open>An effect of every handler but some, at the level of the dispatcher.\<close>

lemma dispatch_effect:
  assumes "dispatch ops ro env ag m p = Some x"
    and "m = ''inspect'' \<Longrightarrow> Q (snd (on_inspect ag p))" and "m = ''read'' \<Longrightarrow> Q (snd (on_read ops ro ag p))"
    and "m = ''resolve'' \<Longrightarrow> Q (snd (on_resolve ops ro ag p))" and "m = ''preview'' \<Longrightarrow> Q (snd (on_preview ro env ag p))"
    and "m = ''apply'' \<Longrightarrow> Q (snd (on_apply ops ro env ag p))" and "m = ''verify'' \<Longrightarrow> Q (snd (on_verify ops ro ag p))"
    and "m = ''restore'' \<Longrightarrow> Q (snd (on_restore ops env ag p))" and "m = ''freeze'' \<Longrightarrow> Q (snd (on_freeze ops ro env ag p))"
    and "m = ''unfreeze'' \<Longrightarrow> Q (snd (on_unfreeze ops env ag p))" and "m = ''status'' \<Longrightarrow> Q (snd (on_status ag p))"
    and "m = ''parse'' \<Longrightarrow> Q (snd (on_parse ag p))" and "m = ''kill_switch'' \<Longrightarrow> Q (snd (on_kill_switch ag p))"
  shows "Q (snd x)"
proof -
  have snd_ret: "snd (returning y) = snd y" for y :: "'r json \<times> 'b agent" by (simp add: returning_def)
  consider "m \<in> plain_methods" | "m = ''apply''" | "m = ''parse''"
    | "m \<notin> plain_methods" "m \<noteq> ''apply''" "m \<noteq> ''parse''" by blast
  then show ?thesis
  proof cases
    case 1
    then show ?thesis unfolding plain_methods_def insert_iff empty_iff simp_thms
      by (elim disjE) (use assms in \<open>simp_all only: dispatch_names option.inject flip: snd_ret\<close>)
  next
    case 2
    then show ?thesis using assms(1,6) by (simp only: dispatch_names option.inject)
  next
    case 3
    then show ?thesis using assms(1,12) by (simp only: dispatch_names option.inject)
  next
    case 4
    then show ?thesis using assms(1) dispatch_unknown [OF 4, of ops ro env ag p] by simp
  qed
qed

section \<open>What the handlers leave alone\<close>

lemma handlers_pending:
  "ag_pending (snd (on_inspect ag p)) = ag_pending ag" "ag_pending (snd (on_read ops ro ag p)) = ag_pending ag"
  "ag_pending (snd (on_resolve ops ro ag p)) = ag_pending ag" "ag_pending (snd (on_verify ops ro ag p)) = ag_pending ag"
  "ag_pending (snd (on_restore ops env ag p)) = ag_pending ag" "ag_pending (snd (on_freeze ops ro env ag p)) = ag_pending ag"
  "ag_pending (snd (on_unfreeze ops env ag p)) = ag_pending ag" "ag_pending (snd (on_status ag p)) = ag_pending ag"
  "ag_pending (snd (on_parse ag p)) = ag_pending ag" "ag_pending (snd (on_kill_switch ag p)) = ag_pending ag"
  by (simp_all add: reading_handlers freezing_handlers on_parse_def with_freeze_def Let_def
      split: prod.split sum.split option.split)

lemma handlers_kill:
  "pol_kill (ag_policy (snd (on_inspect ag p))) = pol_kill (ag_policy ag)"
  "pol_kill (ag_policy (snd (on_read ops ro ag p))) = pol_kill (ag_policy ag)"
  "pol_kill (ag_policy (snd (on_resolve ops ro ag p))) = pol_kill (ag_policy ag)"
  "pol_kill (ag_policy (snd (on_preview ro env ag p))) = pol_kill (ag_policy ag)"
  "pol_kill (ag_policy (snd (on_apply ops ro env ag p))) = pol_kill (ag_policy ag)"
  "pol_kill (ag_policy (snd (on_verify ops ro ag p))) = pol_kill (ag_policy ag)"
  "pol_kill (ag_policy (snd (on_restore ops env ag p))) = pol_kill (ag_policy ag)"
  "pol_kill (ag_policy (snd (on_freeze ops ro env ag p))) = pol_kill (ag_policy ag)"
  "pol_kill (ag_policy (snd (on_unfreeze ops env ag p))) = pol_kill (ag_policy ag)"
  "pol_kill (ag_policy (snd (on_status ag p))) = pol_kill (ag_policy ag)"
  "pol_kill (ag_policy (snd (on_parse ag p))) = pol_kill (ag_policy ag)"
proof -
  have auth: "authorize_with_token pl i r tok clk = (x, pl') \<Longrightarrow> pol_kill pl' = pol_kill pl" for pl i r tok clk x pl'
    using authorize_keeps(1) [of pl i r tok clk] by simp
  show "pol_kill (ag_policy (snd (on_preview ro env ag p))) = pol_kill (ag_policy ag)"
    by (auto simp: on_preview_def Let_def authorize_def dest: auth split: prod.split sum.split)
  show "pol_kill (ag_policy (snd (on_apply ops ro env ag p))) = pol_kill (ag_policy ag)"
    by (auto simp: on_apply_def Let_def dest: auth split: prod.split sum.split option.split)
qed (simp_all add: on_inspect_def on_read_def on_resolve_def on_verify_def on_status_def freezing_handlers
      on_parse_def with_freeze_def Let_def split: prod.split sum.split option.split)

context memory_backend
begin

lemma resolve_mem [simp]: "smem (snd (resolve_pointer_chain ops s base offs)) = smem s"
  using resolve_steps_spec(1) [of s 0 base offs] by (simp add: resolve_pointer_chain_def)

lemma freeze_mem [simp]: "smem (snd (snd (freeze ops spawn r ms))) = smem (snd ms)"
proof -
  have rd: "read_bytes ops s a n = (x, s') \<Longrightarrow> smem s' = smem s" for s a n x s'
    using read_bytes_mem [of s a n] by simp
  show ?thesis by (rule freeze_cases [of ops spawn r ms]) (auto dest: rd)
qed

lemma handlers_mem:
  "smem (ag_session (snd (on_inspect ag p))) = smem (ag_session ag)"
  "smem (ag_session (snd (on_read ops ro ag p))) = smem (ag_session ag)"
  "smem (ag_session (snd (on_resolve ops ro ag p))) = smem (ag_session ag)"
  "smem (ag_session (snd (on_preview ro env ag p))) = smem (ag_session ag)"
  "smem (ag_session (snd (on_verify ops ro ag p))) = smem (ag_session ag)"
  "smem (ag_session (snd (on_freeze ops ro env ag p))) = smem (ag_session ag)"
  "smem (ag_session (snd (on_status ag p))) = smem (ag_session ag)"
  "smem (ag_session (snd (on_parse ag p))) = smem (ag_session ag)"
  "smem (ag_session (snd (on_kill_switch ag p))) = smem (ag_session ag)"
proof -
  have rd: "read_bytes ops s a n = (x, s') \<Longrightarrow> smem s' = smem s" for s a n x s'
    using read_bytes_mem [of s a n] by simp
  have rs: "resolve_pointer_chain ops s a n = (x, s') \<Longrightarrow> smem s' = smem s" for s a n x s'
    using resolve_mem [of s a n] by simp
  have fz: "freeze ops spawn r ms = (x, ms') \<Longrightarrow> smem (snd ms') = smem (snd ms)" for spawn r ms x ms'
    using freeze_mem [of spawn r ms] by simp
  show "smem (ag_session (snd (on_read ops ro ag p))) = smem (ag_session ag)"
    "smem (ag_session (snd (on_verify ops ro ag p))) = smem (ag_session ag)"
    by (auto simp: on_read_def on_verify_def Let_def dest: rd split: prod.split sum.split)
  show "smem (ag_session (snd (on_resolve ops ro ag p))) = smem (ag_session ag)"
    by (auto simp: on_resolve_def Let_def dest: rs split: prod.split sum.split)
  show "smem (ag_session (snd (on_freeze ops ro env ag p))) = smem (ag_session ag)"
    by (auto simp: on_freeze_def Let_def with_freeze_def dest!: fz split: prod.split sum.split)
qed (simp_all add: reading_handlers on_parse_def Let_def split: prod.split sum.split option.split)

end

section \<open>How an apply ends\<close>

text \<open>The ways an \<open>apply\<close> ends; only the last touches the session.\<close>

lemma on_apply_cases:
  fixes ro :: "'r real_ops"
  defines "rq params \<equiv> make_request ro params ''apply''"
  obtains
    (no_token) "ag_pending ag (mr_request_id (rq params)) = None" "snd (on_apply ops ro env ag params) = ag"
      "fst (on_apply ops ro env ag params) = Returned (error_response (mr_request_id (rq params))
         (error_code_num EC_policy_denied) ''no pending approval'' None)"
  | (kept) token r p where "ag_pending ag (mr_request_id (rq params)) = Some token"
      "authorize_with_token (ag_policy ag) (ses_identity (ag_session ag)) (rq params) (Some token) (env_clock env) = (r, p)"
      "snd (on_apply ops ro env ag params)
         = ag\<lparr>ag_pending := (ag_pending ag)(mr_request_id (rq params) := None), ag_policy := p\<rparr>"
      "\<not> result_ok r \<or> hex_pairs (json_get_string params ''value_hex'' []) = None
         \<or> odd (length (json_get_string params ''value_hex'' []))"
  | (wrote) token p bs where "ag_pending ag (mr_request_id (rq params)) = Some token"
      "authorize_with_token (ag_policy ag) (ses_identity (ag_session ag)) (rq params) (Some token) (env_clock env) = (Inr (), p)"
      "hex_pairs (json_get_string params ''value_hex'' []) = Some bs"
      "snd (on_apply ops ro env ag params)
         = ag\<lparr>ag_pending := (ag_pending ag)(mr_request_id (rq params) := None), ag_policy := p,
              ag_session := snd (write_bytes ops (ag_session ag) (mr_address (rq params)) bs)\<rparr>"
proof (cases "ag_pending ag (mr_request_id (rq params))")
  case None
  then show ?thesis by (intro no_token) (simp_all add: on_apply_def rq_def Let_def)
next
  case (Some token)
  let ?hex = "json_get_string params ''value_hex'' []"
  obtain r p where a: "authorize_with_token (ag_policy ag) (ses_identity (ag_session ag)) (rq params)
      (Some token) (env_clock env) = (r, p)" by fastforce
  note unf = on_apply_def Let_def rq_def [symmetric] Some a
  show ?thesis
  proof (cases "\<exists>bs. r = Inr () \<and> even (length ?hex) \<and> hex_pairs ?hex = Some bs")
    case True
    then obtain bs where b: "r = Inr ()" "even (length ?hex)" "hex_pairs ?hex = Some bs" by blast
    show ?thesis
      by (rule wrote [OF Some _ b(3)])
        (use a b in \<open>auto simp: unf even_iff_mod_2_eq_zero split: prod.split sum.split\<close>)
  next
    case False
    show ?thesis
      by (rule kept [OF Some a])
        (use a False in \<open>auto simp: unf result_ok_def even_iff_mod_2_eq_zero split: sum.split option.split\<close>)
  qed
qed

end
