(* ===== verification/Agent_Properties.thy ===== *)
theory Agent_Properties
  imports Agent_History
begin

text \<open>
  What the agent service guarantees: the shape of its replies, what a mutation needs, that an
  approval is good for one write, what an engaged kill switch stops, and what the server loop
  does with a queue of requests.
\<close>

section \<open>The server loop over a transport\<close>

text \<open>The answers to a list of requests, handled one after the other; \<open>None\<close> if one throws.\<close>

fun handle_all ::
  "'b backend_ops \<Rightarrow> 'r real_ops \<Rightarrow> (call_env \<times> string) list \<Rightarrow> 'b agent \<Rightarrow> (string list \<times> 'b agent) option" where
  "handle_all ops ro [] ag = Some ([], ag)"
| "handle_all ops ro ((env, request) # rest) ag =
     (case handle ops ro env ag request of
        (Returned (Inr response), ag') \<Rightarrow>
          map_option (\<lambda>(rs, ag''). (response # rs, ag'')) (handle_all ops ro rest ag')
      | _ \<Rightarrow> None)"

lemma handle_all_ConsD:
  assumes "handle_all ops ro ((env, request) # rest) ag = Some (rs, ag'')"
  obtains response ag' rs' where "handle ops ro env ag request = (Returned (Inr response), ag')"
    "handle_all ops ro rest ag' = Some (rs', ag'')" "rs = response # rs'"
  using assms by (auto split: prod.splits outcome.splits sum.splits)

context transport
begin

lemma serve_loop_fifo:
  assumes "sv_alive sv" "\<not> sv_aborted sv" "\<not> sv_stop sv" "is_open (sv_transport sv)"
    and "length envs \<le> length (inbox (sv_transport sv))"
    and "handle_all ops ro (zip envs (inbox (sv_transport sv))) (sv_agent sv) = Some (rs, ag')"
  shows "sv_agent (serve_loop tops ops ro envs sv) = ag' \<and>
    outbox (sv_transport (serve_loop tops ops ro envs sv)) = outbox (sv_transport sv) @ rs \<and>
    inbox (sv_transport (serve_loop tops ops ro envs sv)) = drop (length envs) (inbox (sv_transport sv)) \<and>
    \<not> sv_aborted (serve_loop tops ops ro envs sv)"
  using assms
proof (induction envs arbitrary: sv rs)
  case Nil
  then show ?case by (simp add: serve_loop_def)
next
  case (Cons env envs)
  let ?t = "sv_transport sv"
  obtain request rest where ib: "inbox ?t = request # rest"
    using Cons.prems(5) by (cases "inbox ?t") auto
  have rc: "tr_receive tops ?t = (Inr request, snd (tr_receive tops ?t))"
    using receive_message [OF ib] by (metis prod.collapse)
  define t where "t = snd (tr_receive tops ?t)"
  have t: "inbox t = rest" "outbox t = outbox ?t" "is_open t"
    using receive_inbox [of ?t] receive_outbox [of ?t] receive_keeps_open [of ?t] ib Cons.prems(4)
    by (simp_all add: t_def)
  have map_option_SomeD: "map_option f z = Some k \<Longrightarrow> \<exists>y. z = Some y \<and> f y = k" for f z k by auto
  have h: "handle_all ops ro ((env, request) # zip envs rest) (sv_agent sv) = Some (rs, ag')"
    using Cons.prems(6) ib by simp
  obtain response ag1 rs' where r: "handle ops ro env (sv_agent sv) request = (Returned (Inr response), ag1)"
    "handle_all ops ro (zip envs rest) ag1 = Some (rs', ag')" "rs = response # rs'"
    by (rule handle_all_ConsD [OF h])
  define sv1 where "sv1 = sv\<lparr>sv_transport := snd (tr_send tops t response), sv_agent := ag1\<rparr>"
  have step: "serve_iteration tops ops ro env sv = sv1"
    using Cons.prems rc r(1) by (simp add: serve_iteration_def sv1_def t_def [symmetric])
  have sent: "inbox (sv_transport sv1) = rest" "outbox (sv_transport sv1) = outbox ?t @ [response]"
    "is_open (sv_transport sv1)"
    using t send_inbox [of t response] send_outbox [OF t(3), of response] send_keeps_open [of t response]
    by (simp_all add: sv1_def)
  have "length envs \<le> length rest" using Cons.prems(5) ib by simp
  then have "sv_agent (serve_loop tops ops ro envs sv1) = ag' \<and>
    outbox (sv_transport (serve_loop tops ops ro envs sv1)) = outbox (sv_transport sv1) @ rs' \<and>
    inbox (sv_transport (serve_loop tops ops ro envs sv1)) = drop (length envs) (inbox (sv_transport sv1)) \<and>
    \<not> sv_aborted (serve_loop tops ops ro envs sv1)"
    using Cons.prems(1-3) r(2) sent by (intro Cons.IH) (simp_all add: sv1_def)
  then show ?case using sent r(3) ib step by (simp add: serve_loop_def)
qed

end

section \<open>Approvals over a history\<close>

text \<open>
  Per request id: an approval granted by \<open>preview\<close>, and an \<open>apply\<close> that touches the session.
\<close>

definition previewed :: "'r real_ops \<Rightarrow> string \<Rightarrow> 'b agent \<Rightarrow> 'r event \<Rightarrow> bool" where
  "previewed ro i ag ev = (case ev of
     Request env m p \<Rightarrow> m = ''preview'' \<and> request_id_of p = i \<and>
       result_ok (fst (authorize (ag_policy ag) (ses_identity (ag_session ag))
         ((make_request ro p ''preview'')\<lparr>mr_preview := True\<rparr>) (env_clock env)))
   | Worker _ \<Rightarrow> False)"

definition applied :: "'b backend_ops \<Rightarrow> 'r real_ops \<Rightarrow> string \<Rightarrow> 'b agent \<Rightarrow> 'r event \<Rightarrow> bool" where
  "applied ops ro i ag ev = (case ev of
     Request env m p \<Rightarrow> m = ''apply'' \<and> request_id_of p = i \<and>
       ag_session (snd (on_apply ops ro env ag p)) \<noteq> ag_session ag
   | Worker _ \<Rightarrow> False)"

fun count_events :: "('b agent \<Rightarrow> 'r event \<Rightarrow> bool) \<Rightarrow> 'b backend_ops \<Rightarrow> 'r real_ops \<Rightarrow> 'b agent \<Rightarrow> 'r event list \<Rightarrow> nat" where
  "count_events P ops ro ag [] = 0"
| "count_events P ops ro ag (ev # evs) =
     (if P ag ev then 1 else 0) + count_events P ops ro (agent_event ops ro ag ev) evs"

definition pending_count :: "string \<Rightarrow> 'b agent \<Rightarrow> nat" where
  "pending_count i ag = (if ag_pending ag i = None then 0 else 1)"

lemma request_id_make [simp]: "mr_request_id (make_request ro p m) = request_id_of p"
  by (simp add: make_request_def Let_def)

lemma pending_count_cong: "ag_pending ag' i = ag_pending ag i \<Longrightarrow> pending_count i ag' = pending_count i ag"
  by (simp add: pending_count_def)

lemma preview_pending:
  "pending_count i (snd (on_preview ro env ag p))
     \<le> (if previewed ro i ag (Request env ''preview'' p) then 1 else 0) + pending_count i ag"
  by (auto simp: on_preview_def previewed_def pending_count_def Let_def result_ok_def
      split: prod.split sum.split)

lemma apply_pending:
  "(if applied ops ro i ag (Request env ''apply'' p) then 1 else 0) + pending_count i (snd (on_apply ops ro env ag p))
     \<le> pending_count i ag"
  by (rule on_apply_cases [of ag ro p ops env]) (auto simp: applied_def pending_count_def)

lemma event_pending:
  "(if applied ops ro i ag ev then 1 else 0) + pending_count i (agent_event ops ro ag ev)
     \<le> (if previewed ro i ag ev then 1 else 0) + pending_count i ag"
proof (cases ev)
  case (Worker j)
  then show ?thesis by (simp add: agent_event_def with_freeze_def pending_count_def applied_def)
next
  case (Request env m p)
  let ?ap = "if applied ops ro i ag (Request env m p) then 1 else 0 :: nat"
  let ?pv = "if previewed ro i ag (Request env m p) then 1 else 0 :: nat"
  show ?thesis
  proof (cases "dispatch ops ro env ag m p")
    case None
    then have "m \<noteq> ''apply''" using dispatch_names(5) [of ops ro env ag p] by auto
    then show ?thesis using None Request by (simp add: agent_event_def applied_def)
  next
    case (Some x)
    have "?ap + pending_count i (snd x) \<le> ?pv + pending_count i ag"
    proof (rule dispatch_effect [OF Some])
      assume "m = ''preview''"
      then show "?ap + pending_count i (snd (on_preview ro env ag p)) \<le> ?pv + pending_count i ag"
        using preview_pending [of i ro env ag p] by (simp add: applied_def)
    next
      assume "m = ''apply''"
      then show "?ap + pending_count i (snd (on_apply ops ro env ag p)) \<le> ?pv + pending_count i ag"
        using apply_pending [of ops ro i ag env p] by (simp add: trans_le_add2)
    qed (simp_all add: pending_count_def handlers_pending applied_def)
    then show ?thesis using Some Request by (simp add: agent_event_def)
  qed
qed

section \<open>Properties\<close>

text \<open>
  C3: memory changes in an \<open>apply\<close> only through the gate. There was a pending approval for the
  request's id, and it is consumed; the policy found the request admissible, and it was
  either approved with that token in time and a free rate slot, or marked as a preview (the
  gate answers a preview with success, and the handler then writes); and what happens to the
  session is one \<open>write_bytes\<close> of the bytes of \<open>value_hex\<close> at the request's address.
\<close>

theorem apply_gate:
  assumes "ag_session (snd (on_apply ops ro env ag params)) \<noteq> ag_session ag"
  shows "let r = make_request ro params ''apply''; ag' = snd (on_apply ops ro env ag params) in
    \<exists>token bs. ag_pending ag (mr_request_id r) = Some token \<and> ag_pending ag' (mr_request_id r) = None \<and>
      request_admissible (ag_policy ag) (ses_identity (ag_session ag)) r \<and>
      (mr_preview r \<or> mutation_ready r (Some token) (clk_token (env_clock env)) \<and>
         slot_free (pol_limiter (ag_policy ag)) (mr_target_alias r) (clk_limiter (env_clock env))) \<and>
      hex_pairs (json_get_string params ''value_hex'' []) = Some bs \<and>
      ag_session ag' = snd (write_bytes ops (ag_session ag) (mr_address r) bs)"
proof (rule on_apply_cases [of ag ro params ops env])
  fix token p bs
  assume w: "ag_pending ag (mr_request_id (make_request ro params ''apply'')) = Some token"
    "authorize_with_token (ag_policy ag) (ses_identity (ag_session ag)) (make_request ro params ''apply'')
      (Some token) (env_clock env) = (Inr (), p)"
    "hex_pairs (json_get_string params ''value_hex'' []) = Some bs"
    "snd (on_apply ops ro env ag params)
         = ag\<lparr>ag_pending := (ag_pending ag)(mr_request_id (make_request ro params ''apply'') := None), ag_policy := p,
              ag_session := snd (write_bytes ops (ag_session ag) (mr_address (make_request ro params ''apply'')) bs)\<rparr>"
  show ?thesis unfolding Let_def
    by (intro exI [of _ token] exI [of _ bs] conjI w authorize_okD [OF w(2)]) (simp_all add: w(4))
qed (use assms in auto)

text \<open>
  C4: an approval is good for one write. In any history of requests and worker steps the
  applications of a request id that touch the session are at most the previews of that id
  that were granted (one more if an approval was pending before): no approval is replayed.
\<close>

theorem one_write_per_approval:
  "count_events (applied ops ro i) ops ro ag evs \<le> count_events (previewed ro i) ops ro ag evs + pending_count i ag"
proof (induction evs arbitrary: ag)
  case (Cons ev evs)
  show ?case unfolding count_events.simps
    using Cons.IH [of "agent_event ops ro ag ev"] event_pending [of ops ro i ag ev] by linarith
qed simp

text \<open>
  C5: while the kill switch is engaged no request writes memory, over any lawful backend and
  any history of requests (workers idle) that neither releases the switch nor calls
  \<open>restore\<close> or \<open>unfreeze\<close>; and the switch stays engaged.
\<close>

theorem kill_switch_blocks_writes:
  assumes "memory_backend ops mem_of" and "ks_engaged (pol_kill (ag_policy ag))"
    and "\<forall>ev \<in> set evs. \<exists>env m p. ev = Request env m p \<and> m \<notin> {''kill_switch'', ''restore'', ''unfreeze''}"
  shows "mem_of (ses_backend (ag_session (run_events ops ro ag evs))) = mem_of (ses_backend (ag_session ag)) \<and>
    ks_engaged (pol_kill (ag_policy (run_events ops ro ag evs)))"
  using assms(2,3)
proof (induction evs arbitrary: ag)
  case (Cons ev evs)
  obtain env m p where ev: "ev = Request env m p" "m \<notin> {''kill_switch'', ''restore'', ''unfreeze''}"
    using Cons.prems(2) by auto
  define Q where "Q ag' \<longleftrightarrow> mem_of (ses_backend (ag_session ag')) = mem_of (ses_backend (ag_session ag)) \<and>
    ks_engaged (pol_kill (ag_policy ag'))" for ag' :: "'a agent"
  have "Q (agent_event ops ro ag ev)"
  proof (cases "dispatch ops ro env ag m p")
    case None
    then show ?thesis using ev Cons.prems(1) by (simp add: agent_event_def Q_def)
  next
    case (Some x)
    have app: "Q (snd (on_apply ops ro env ag p))"
    proof (rule on_apply_cases [of ag ro p ops env])
      fix token pl bs assume "authorize_with_token (ag_policy ag) (ses_identity (ag_session ag))
        (make_request ro p ''apply'') (Some token) (env_clock env) = (Inr (), pl)"
      from authorize_okD(1) [OF this] show ?thesis using Cons.prems(1) by (simp add: request_admissible_def)
    next
      fix token r pl assume "snd (on_apply ops ro env ag p)
         = ag\<lparr>ag_pending := (ag_pending ag)(mr_request_id (make_request ro p ''apply'') := None), ag_policy := pl\<rparr>"
      then show ?thesis using handlers_kill(5) [of ops ro env ag p] Cons.prems(1) by (simp add: Q_def)
    qed (use Cons.prems(1) in \<open>simp add: Q_def\<close>)
    have "Q (snd x)"
      by (rule dispatch_effect [OF Some])
        (use ev app in \<open>simp_all add: Q_def memory_backend.handlers_mem [OF assms(1)] handlers_kill Cons.prems(1)\<close>)
    then show ?thesis using Some ev by (simp add: agent_event_def)
  qed
  then show ?case using Cons.IH [of "agent_event ops ro ag ev"] Cons.prems(2) by (simp add: Q_def)
qed simp

text \<open>
  C29: the freezing methods never consult the policy: whatever the policy says (an engaged kill
  switch, no manifest, no write grant, an exhausted limiter), \<open>freeze\<close>, \<open>unfreeze\<close> and
  \<open>restore\<close> answer the same and do the same to the table of freezes and to memory.
\<close>

theorem freeze_ungated:
  "on_freeze ops ro env (ag\<lparr>ag_policy := p\<rparr>) params
     = (case on_freeze ops ro env ag params of (r, ag') \<Rightarrow> (r, ag'\<lparr>ag_policy := p\<rparr>)) \<and>
   on_unfreeze ops env (ag\<lparr>ag_policy := p\<rparr>) params
     = (case on_unfreeze ops env ag params of (r, ag') \<Rightarrow> (r, ag'\<lparr>ag_policy := p\<rparr>)) \<and>
   on_restore ops env (ag\<lparr>ag_policy := p\<rparr>) params
     = (case on_restore ops env ag params of (r, ag') \<Rightarrow> (r, ag'\<lparr>ag_policy := p\<rparr>))"
  by (simp add: freezing_handlers Let_def with_freeze_def split: prod.split sum.split)


text \<open>What an \<open>apply\<close> marked as a preview does to the service.\<close>

lemma apply_preview_effect:
  assumes "ag_pending ag (request_id_of params) = Some token"
    and "mr_preview (make_request ro params ''apply'')"
    and "request_admissible (ag_policy ag) (ses_identity (ag_session ag)) (make_request ro params ''apply'')"
    and "hex_pairs (json_get_string params ''value_hex'' []) = Some bs"
    and "even (length (json_get_string params ''value_hex'' []))"
  obtains p where "pol_limiter p = pol_limiter (ag_policy ag)"
    "snd (on_apply ops ro env ag params) = ag\<lparr>ag_pending := (ag_pending ag)(request_id_of params := None),
      ag_policy := p, ag_session := snd (write_bytes ops (ag_session ag) (json_address ro params ''address'') bs)\<rparr>"
proof -
  let ?r = "make_request ro params ''apply''"
  obtain p where p: "authorize_with_token (ag_policy ag) (ses_identity (ag_session ag)) ?r (Some token) (env_clock env)
      = (Inr (), p)" "pol_limiter p = pol_limiter (ag_policy ag)"
    by (rule authorize_cases [of "ag_policy ag" "ses_identity (ag_session ag)" ?r "Some token" "env_clock env"])
      (use assms(2,3) in \<open>auto simp: emit_audit_def mutation_ready_def\<close>)
  have a: "mr_address ?r = json_address ro params ''address''" by (simp add: make_request_def Let_def)
  show ?thesis
    by (rule that [OF p(2)])
      (use assms(1,4,5) p(1) in \<open>simp add: on_apply_def Let_def a even_iff_mod_2_eq_zero split: prod.split sum.split\<close>)
qed

text \<open>
  C30: an \<open>apply\<close> that carries \<open>preview = true\<close> writes without approval and without a rate
  slot. With a pending approval for its id and an admissible request (in which the capability
  defaults to \<open>read\<close>, so that no write grant of the manifest is asked for) the bytes of
  \<open>value_hex\<close> are stored at the address, whatever \<open>approved\<close> says, and the limiter is left
  as it was.
\<close>

theorem apply_marked_preview_writes:
  assumes "writable_backend ops mem_of" and "ag_pending ag (request_id_of params) = Some token"
    and "mr_preview (make_request ro params ''apply'')"
    and "request_admissible (ag_policy ag) (ses_identity (ag_session ag)) (make_request ro params ''apply'')"
    and "hex_pairs (json_get_string params ''value_hex'' []) = Some bs"
    and "even (length (json_get_string params ''value_hex'' []))"
    and "valid_request (json_address ro params ''address'') (length bs)"
  shows "mem_of (ses_backend (ag_session (snd (on_apply ops ro env ag params))))
      = mem_store (mem_of (ses_backend (ag_session ag))) (json_address ro params ''address'') bs \<and>
    pol_limiter (ag_policy (snd (on_apply ops ro env ag params))) = pol_limiter (ag_policy ag)"
  by (rule apply_preview_effect [OF assms(2-6), of ops env])
    (simp add: writable_backend.write_bytes_ok(2) [OF assms(1,7)])

text \<open>
  A concrete service: a manifest that grants no write, a pending approval, and a request that
  is not approved and names no capability.
\<close>

definition demo_agent :: "sim_backend agent" where
  "demo_agent = (AgentService_new
     (open_session sim_ops \<lparr>sim_is_64bit = True, sim_memory = mem_store (\<lambda>_. None) 0x1000 [1, 2, 3, 4]\<rparr>)
     (Policy_new [\<lparr>tm_alias = ''game'', tm_image_path = ''assaultcube'', tm_image_sha256 = [],
        tm_architecture = ''x64'', tm_allow_write = False\<rparr>] True) (FreezeManager_new True))
     \<lparr>ag_pending := [''r1'' \<mapsto> \<lparr>at_request_id = ''r1'', at_target_alias = ''game'', at_issued_at_ms = 0,
        at_expires_at_ms = 300000, at_signature = []\<rparr>]\<rparr>"

definition demo_env :: call_env where
  "demo_env = \<lparr>env_clock = \<lparr>clk_token = 1000, clk_limiter = 1000, clk_audit = 1000\<rparr>, env_now = 1000,
     env_spawn = None, env_sched = []\<rparr>"

definition demo_apply :: "unit json" where
  "demo_apply = JObject [(''request_id'', JString ''r1''), (''target_alias'', JString ''game''),
     (''address'', JInt 0x1000), (''size'', JInt 2), (''expected_current_hash'', JString ''h''),
     (''preview'', JBool True), (''value_hex'', JString ''0aff'')]"

lemma demo_apply_facts:
  "ag_pending demo_agent (request_id_of demo_apply) \<noteq> None"
  "mr_preview (make_request no_reals demo_apply ''apply'')"
  "request_admissible (ag_policy demo_agent) (ses_identity (ag_session demo_agent)) (make_request no_reals demo_apply ''apply'')"
  "hex_pairs (json_get_string demo_apply ''value_hex'' []) = Some [0x0A, 0xFF]"
  "even (length (json_get_string demo_apply ''value_hex'' []))"
  "json_address no_reals demo_apply ''address'' = 0x1000"
proof -
  note params = demo_apply_def request_id_of_def json_get_string_def json_get_def json_address_def json_get_int_def
    json_get_bool_def json_size_def
  show "ag_pending demo_agent (request_id_of demo_apply) \<noteq> None" by (simp add: params demo_agent_def)
  show "mr_preview (make_request no_reals demo_apply ''apply'')" by (simp add: params make_request_def)
  show "request_admissible (ag_policy demo_agent) (ses_identity (ag_session demo_agent)) (make_request no_reals demo_apply ''apply'')"
    by (simp add: params make_request_def request_admissible_def demo_agent_def AgentService_new_def Policy_new_def
        kill_switch_new_def find_manifest_def manifest_matches_def open_session_def MemorySession_new_def sim_identity_def
        default_identity_def identity_empty_def has_cap_def cap_bits known_caps_def)
  have "hex_pairs ''0aff'' = Some [0x0A, 0xFF]"
    by (simp add: stoul_def strto_def char_digit_def is_space_def is_digit_def)
  then show "hex_pairs (json_get_string demo_apply ''value_hex'' []) = Some [0x0A, 0xFF]" by (simp add: params)
  show "even (length (json_get_string demo_apply ''value_hex'' []))" by (simp add: params)
  show "json_address no_reals demo_apply ''address'' = 0x1000" by (simp add: params)
qed

theorem apply_marked_preview_writes_witness:
  "sim_memory (ses_backend (ag_session (snd (on_apply sim_ops no_reals demo_env demo_agent demo_apply)))) 0x1000 = Some 0x0A"
proof -
  obtain token where t: "ag_pending demo_agent (request_id_of demo_apply) = Some token"
    using demo_apply_facts(1) by blast
  have v: "valid_request (json_address no_reals demo_apply ''address'') (length [0x0A, 0xFF :: u8])"
    by (simp add: demo_apply_facts(6) valid_request_def)
  show ?thesis
    using apply_marked_preview_writes [OF sim.writable_backend_axioms t demo_apply_facts(2-5) v, of demo_env]
    by (simp add: demo_apply_facts(6))
qed

lemma demo_apply_session:
  "ag_session (snd (on_apply sim_ops no_reals demo_env demo_agent demo_apply)) \<noteq> ag_session demo_agent"
proof -
  obtain token where t: "ag_pending demo_agent (request_id_of demo_apply) = Some token"
    using demo_apply_facts(1) by blast
  have v: "valid_request 0x1000 (length [0x0A, 0xFF :: u8])" by (simp add: valid_request_def)
  have "sim_memory (ses_backend (ag_session (snd (on_apply sim_ops no_reals demo_env demo_agent demo_apply)))) 0x1000 = Some 0x0A"
    by (rule apply_preview_effect [OF t demo_apply_facts(2-5), of sim_ops demo_env])
      (simp add: demo_apply_facts(6) sim.write_bytes_ok(2) [OF v, simplified])
  moreover have "sim_memory (ses_backend (ag_session demo_agent)) 0x1000 = Some 1"
    by (simp add: demo_agent_def AgentService_new_def open_session_def)
  ultimately show ?thesis by auto
qed

theorem apply_gate_witness:
  "let r = make_request no_reals demo_apply ''apply'' in
   ag_pending demo_agent (mr_request_id r) \<noteq> None \<and>
   ag_pending (snd (on_apply sim_ops no_reals demo_env demo_agent demo_apply)) (mr_request_id r) = None"
  using apply_gate [OF demo_apply_session] by (auto simp: Let_def)

theorem kill_switch_blocks_writes_witness:
  "let ag = demo_agent\<lparr>ag_policy := set_kill_switch_reason (ag_policy demo_agent) ''stop''\<rparr> in
   sim_memory (ses_backend (ag_session (run_events sim_ops no_reals ag
     [Request demo_env ''preview'' demo_apply, Request demo_env ''apply'' demo_apply]))) 0x1000 = Some 1"
proof -
  let ?ag = "demo_agent\<lparr>ag_policy := set_kill_switch_reason (ag_policy demo_agent) ''stop''\<rparr>"
  have "ks_engaged (pol_kill (ag_policy ?ag))" by (simp add: set_kill_switch_reason_def kill_engage_def)
  from kill_switch_blocks_writes [OF sim.memory_backend_axioms this,
      of "[Request demo_env ''preview'' demo_apply, Request demo_env ''apply'' demo_apply]" no_reals]
  show ?thesis by (simp add: demo_agent_def AgentService_new_def open_session_def del: run_events_simps)
qed

text \<open>
  C21: whatever text arrives, the dispatcher returns exactly one JSON-RPC envelope, with the
  request's id (empty when the text is not a request) and either a \<open>result\<close> or an \<open>error\<close>
  member; the one exception that can leave it is that of \<open>std::stoul\<close> on a \<open>value_hex\<close> that
  is not hexadecimal, in an \<open>apply\<close>.
\<close>

theorem handle_replies:
  "(\<exists>key v ag'. key \<in> {''result'', ''error''} \<and> handle ops ro env ag src =
      (Returned (Inr (json_encode ro
         (reply_envelope (json_get_string (request_text ro src) ''id'' []) key v))), ag')) \<or>
   (fst (handle ops ro env ag src) = Threw ''stoul'' \<and>
      json_get_string (request_text ro src) ''method'' [] = ''apply'')"
proof (rule handle_cases [where ro = ro and src = src and ops = ops and env = env and ag = ag], goal_cases malformed request)
  case (malformed code msg)
  then show ?thesis
    by (intro disjI1 exI [of _ "''error''"]) (auto simp: make_error_envelope_def reply_envelope_def)
next
  case request
  let ?m = "json_get_string (request_text ro src) ''method'' []" and ?p = "request_params (request_text ro src)"
  show ?thesis
  proof (cases ops ro env ag ?m ?p rule: dispatch_reply)
    case unknown
    then show ?thesis
      by (intro disjI1 exI [of _ "''error''"])
        (auto simp: request handle_request_def make_error_envelope_def reply_envelope_def Let_def)
  next
    case (replied r ag')
    obtain key v where "key \<in> {''result'', ''error''}"
      "wrap_result (json_get_string (request_text ro src) ''id'' []) r
         = reply_envelope (json_get_string (request_text ro src) ''id'' []) key v"
      by (rule wrap_reply [OF replied(2)])
    then show ?thesis using replied
      by (intro disjI1 exI [of _ key] exI [of _ v]) (auto simp: request handle_request_def Let_def)
  next
    case (threw ag')
    then show ?thesis by (simp add: request handle_request_def)
  qed
qed


definition demo_queue :: "transport_pair option" where
  "demo_queue = Some (transport_pair_new\<lparr>tp_client_to_server := [''x'', ''[]'']\<rparr>)"


end
