(* ===== verification/Agent_Invariant.thy ===== *)
theory Agent_Invariant
  imports Agent_Properties Freeze_Spec
begin

text \<open>
  The invariant of the agent service over its histories (\<open>agent_event\<close>): the table of freezes is
  well formed, a pending approval is the one minted for its id, no rate window exceeds the limit;
  and what never changes: the manifests, the limit and the identity of the target, while the audit
  trail only grows. The last part states what a granted preview does not bind.
\<close>

section \<open>The invariant\<close>

definition approval_ok :: "string \<Rightarrow> approval_token \<Rightarrow> bool" where
  "approval_ok i t \<longleftrightarrow> at_request_id t = i \<and> at_expires_at_ms t = at_issued_at_ms t + 300000 \<and> at_signature t = []"

definition limiter_ok :: "rate_limiter \<Rightarrow> bool" where
  "limiter_ok rl \<longleftrightarrow> (\<forall>al. win_count (window_of rl al) \<le> rl_max rl)"

definition agent_ok :: "'b agent \<Rightarrow> bool" where
  "agent_ok ag \<longleftrightarrow> fm_wf (ag_freeze ag) \<and> limiter_ok (pol_limiter (ag_policy ag)) \<and>
     (\<forall>i t. ag_pending ag i = Some t \<longrightarrow> approval_ok i t)"

definition policy_extends :: "policy \<Rightarrow> policy \<Rightarrow> bool" where
  "policy_extends p p' \<longleftrightarrow> pol_manifests p' = pol_manifests p \<and> pol_sink p' = pol_sink p \<and>
     rl_max (pol_limiter p') = rl_max (pol_limiter p) \<and> (\<exists>l. pol_audit p' = pol_audit p @ l)"

definition agent_extends :: "'b agent \<Rightarrow> 'b agent \<Rightarrow> bool" where
  "agent_extends ag ag' \<longleftrightarrow> policy_extends (ag_policy ag) (ag_policy ag') \<and>
     ses_identity (ag_session ag') = ses_identity (ag_session ag)"

lemma policy_extends_refl [simp]: "policy_extends p p"
  by (simp add: policy_extends_def)

lemma policy_extends_kill [simp]: "policy_extends p (p\<lparr>pol_kill := k\<rparr>)"
  by (simp add: policy_extends_def)

lemma agent_extends_refl [simp]: "agent_extends ag ag"
  by (simp add: agent_extends_def)

lemma agent_extends_trans: "agent_extends a b \<Longrightarrow> agent_extends b c \<Longrightarrow> agent_extends a c"
  by (auto simp: agent_extends_def policy_extends_def)

lemma limiter_allow_ok: "limiter_ok rl \<Longrightarrow> limiter_ok (snd (limiter_allow rl a now))"
  unfolding limiter_ok_def
proof (intro allI)
  fix al assume *: "\<forall>al. win_count (window_of rl al) \<le> rl_max rl"
  show "win_count (window_of (snd (limiter_allow rl a now)) al) \<le> rl_max (snd (limiter_allow rl a now))"
  proof (cases "al = a")
    case True
    then show ?thesis using * [rule_format, of a]
      by (auto simp: limiter_allow_def Let_def window_of_def [of "_\<lparr>rl_windows := _\<rparr>"])
  next
    case False
    then show ?thesis using * limiter_other [of a al rl now] by simp
  qed
qed

lemma authorize_extends:
  assumes "authorize_with_token p i r tok clk = (x, p')"
  shows "policy_extends p p'" "limiter_ok (pol_limiter p) \<Longrightarrow> limiter_ok (pol_limiter p')"
proof -
  have step: "policy_extends p (emit_audit (p\<lparr>pol_limiter := l\<rparr>) ev)"
    "limiter_ok (pol_limiter p) \<Longrightarrow> limiter_ok (pol_limiter (emit_audit (p\<lparr>pol_limiter := l\<rparr>) ev))"
    if "limiter_allow (pol_limiter p) al now = (y, l)" for al now y l ev
    using limiter_max [of "pol_limiter p" al now] limiter_allow_ok [of "pol_limiter p" al now] that
    by (simp_all add: policy_extends_def emit_audit_def)
  have same: "policy_extends p (emit_audit p ev)" "pol_limiter (emit_audit p ev) = pol_limiter p" for ev
    by (simp_all add: policy_extends_def emit_audit_def)
  have "policy_extends p p' \<and> (limiter_ok (pol_limiter p) \<longrightarrow> limiter_ok (pol_limiter p'))"
  proof (cases p i r tok clk rule: authorize_cases)
    case (denied code reason)
    then show ?thesis using assms same by (auto simp: policy_deny_def)
  next
    case preview
    then show ?thesis using assms same by auto
  next
    case (limited e l)
    then show ?thesis using assms step [OF limited(4)] by (auto simp: policy_deny_def)
  next
    case (allowed l)
    then show ?thesis using assms step [OF allowed(4)] by auto
  qed
  then show "policy_extends p p'" "limiter_ok (pol_limiter p) \<Longrightarrow> limiter_ok (pol_limiter p')" by blast+
qed

section \<open>The identity of a session never changes\<close>

lemma read_bytes_ident: "read_bytes ops s a n = (r, s') \<Longrightarrow> ses_identity s' = ses_identity s"
  by (auto simp: read_bytes_def Let_def split: sum.splits outcome.splits prod.splits if_splits)

lemma write_bytes_ident: "write_bytes ops s a bs = (r, s') \<Longrightarrow> ses_identity s' = ses_identity s"
  by (auto simp: write_bytes_def Let_def split: sum.splits outcome.splits prod.splits if_splits)

lemma session_read_ident:
  "session_read ops s a = (r :: ('a::len word) result, s') \<Longrightarrow> ses_identity s' = ses_identity s"
  by (auto simp: session_read_def Let_def split: sum.splits outcome.splits prod.splits if_splits)

lemma resolve_ident: "ses_identity (snd (resolve_steps ops s n cur offs)) = ses_identity s"
proof (induction offs arbitrary: s n cur)
  case (Cons off offs)
  obtain r s' where "session_read ops s (cur + off) = (r :: u64 result, s')" by fastforce
  with session_read_ident [OF this] Cons.IH show ?case
    by (auto simp: Let_def split: sum.split)
qed simp

lemma turn_ident: "ses_identity (snd (worker_turn ops i ms)) = ses_identity (snd ms)"
proof (rule worker_turn_cases [of ops i ms])
  fix e e' s' assume "worker_step ops e (snd ms) = (e', s')" "worker_turn ops i ms = (put_entry (fst ms) i e', s')"
  then show ?thesis by (auto split: worker_pc.splits prod.splits sum.splits if_splits dest: write_bytes_ident)
qed simp

lemma turns_ident: "ses_identity (snd (run_turns ops sched ms)) = ses_identity (snd ms)"
  by (induction sched arbitrary: ms) (simp_all add: turn_ident)

lemma stop_ident: "ses_identity (snd (stop_worker ops sched i e ms)) = ses_identity (snd ms)"
  using turns_ident [of ops "sched @ replicate 4 i" "(put_entry (fst ms) i (e\<lparr>fe_cancel := True\<rparr>), snd ms)"]
  by (auto simp: stop_worker_def join_worker_def split: prod.split option.split)

lemma freeze_ident: "ses_identity (snd (snd (freeze ops spawn r ms))) = ses_identity (snd ms)"
  by (auto simp: freeze_def Let_def split: prod.split sum.split option.split dest: read_bytes_ident)

lemma unfreeze_ident: "ses_identity (snd (snd (unfreeze ops sched i ms))) = ses_identity (snd ms)"
  using stop_ident [of ops sched i _ ms] by (auto simp: unfreeze_def split: option.split prod.split) (metis snd_conv)+

lemma restore_ident: "ses_identity (snd (snd (restore ops sched i ms))) = ses_identity (snd ms)"
proof (cases "entry_of (fst ms) i")
  case (Some e)
  obtain m s where "stop_worker ops sched i e ms = (m, s)" by fastforce
  with stop_ident [of ops sched i e ms] Some show ?thesis
    by (auto simp: restore_def Let_def split: option.split prod.split sum.split dest: write_bytes_ident)
qed (simp add: restore_def)

section \<open>Every event keeps the invariant\<close>

text \<open>What an event keeps when it leaves the pending approvals, and the policy, alone.\<close>

definition event_ok :: "'b agent \<Rightarrow> 'b agent \<Rightarrow> bool" where
  "event_ok ag ag' \<longleftrightarrow> agent_ok ag' \<and> agent_extends ag ag'"

lemma event_ok_session:
  "agent_ok ag \<Longrightarrow> ses_identity s = ses_identity (ag_session ag) \<Longrightarrow> event_ok ag (ag\<lparr>ag_session := s\<rparr>)"
  by (simp add: event_ok_def agent_ok_def agent_extends_def)

lemma event_ok_freeze:
  "agent_ok ag \<Longrightarrow> fm_wf (fst ms) \<Longrightarrow> ses_identity (snd ms) = ses_identity (ag_session ag) \<Longrightarrow> event_ok ag (with_freeze ag ms)"
  by (simp add: event_ok_def agent_ok_def agent_extends_def with_freeze_def)

lemma event_ok_refl: "agent_ok ag \<Longrightarrow> event_ok ag ag"
  by (simp add: event_ok_def)

lemma reading_ok:
  assumes "agent_ok ag"
  shows "event_ok ag (snd (on_inspect ag p))" "event_ok ag (snd (on_read ops ro ag p))"
    "event_ok ag (snd (on_resolve ops ro ag p))" "event_ok ag (snd (on_verify ops ro ag p))"
    "event_ok ag (snd (on_status ag p))" "event_ok ag (snd (on_parse ag p))"
proof -
  show "event_ok ag (snd (on_read ops ro ag p))"
    by (auto simp: on_read_def Let_def event_ok_refl [OF assms] split: prod.split sum.split
        intro!: event_ok_session [OF assms] dest: read_bytes_ident)
  show "event_ok ag (snd (on_verify ops ro ag p))"
    by (auto simp: on_verify_def split: prod.split sum.split intro!: event_ok_session [OF assms] dest: read_bytes_ident)
  have "ses_identity s' = ses_identity s" if "resolve_pointer_chain ops s a offs = (r, s')" for s a offs r s'
    using resolve_ident [of ops s 0 a offs] that by (auto simp: resolve_pointer_chain_def split: if_splits)
  then show "event_ok ag (snd (on_resolve ops ro ag p))"
    by (auto simp: on_resolve_def split: prod.split sum.split intro!: event_ok_session [OF assms])
qed (simp_all add: on_inspect_def on_status_def on_parse_def Let_def event_ok_refl [OF assms] split: option.split sum.split)

lemma freezing_ok:
  assumes "agent_ok ag"
  shows "event_ok ag (snd (on_freeze ops ro env ag p))" "event_ok ag (snd (on_unfreeze ops env ag p))"
    "event_ok ag (snd (on_restore ops env ag p))" "event_ok ag (agent_event ops ro ag (Worker i))"
proof -
  let ?ms = "(ag_freeze ag, ag_session ag)"
  have wf: "fm_wf (fst ?ms)" using assms by (simp add: agent_ok_def)
  have f: "event_ok ag (with_freeze ag (snd x))"
    if "fm_wf (fst (snd x))" "ses_identity (snd (snd x)) = ses_identity (ag_session ag)" for x :: "unit result \<times> 'a freeze_state"
    using event_ok_freeze [OF assms that] .
  show "event_ok ag (snd (on_freeze ops ro env ag p))"
    using f [OF freeze_wf [OF wf]] freeze_ident [of ops _ _ ?ms]
    by (simp add: on_freeze_def Let_def split: prod.split sum.split) (metis snd_conv)
  show "event_ok ag (snd (on_unfreeze ops env ag p))"
    using f [OF unfreeze_wf [OF wf]] unfreeze_ident [of ops _ _ ?ms]
    by (simp add: on_unfreeze_def split: prod.split sum.split) (metis snd_conv)
  show "event_ok ag (snd (on_restore ops env ag p))"
    using f [OF restore_wf [OF wf]] restore_ident [of ops _ _ ?ms] event_ok_refl [OF assms]
    by (simp add: on_restore_def Let_def split: prod.split sum.split) (metis snd_conv)
  show "event_ok ag (agent_event ops ro ag (Worker i))"
    using event_ok_freeze [OF assms, of "worker_turn ops i ?ms"] entry_ok_turns [OF wf, of ops "[i]"] turn_ident [of ops i ?ms]
    by (simp add: agent_event_def)
qed

lemma mutation_ok:
  assumes "agent_ok ag"
  shows "event_ok ag (snd (on_preview ro env ag p))" "event_ok ag (snd (on_apply ops ro env ag p))"
    "event_ok ag (snd (on_kill_switch ag p))"
proof -
  show "event_ok ag (snd (on_kill_switch ag p))"
    using assms by (simp add: on_kill_switch_def Let_def event_ok_def agent_ok_def agent_extends_def set_kill_switch_reason_def)
  let ?r = "(make_request ro p ''preview'')\<lparr>mr_preview := True\<rparr>"
  obtain x pl where a: "authorize (ag_policy ag) (ses_identity (ag_session ag)) ?r (env_clock env) = (x, pl)" by fastforce
  note ax = authorize_extends [OF a [unfolded authorize_def]]
  show "event_ok ag (snd (on_preview ro env ag p))"
    using assms ax a by (cases x) (auto simp: on_preview_def Let_def event_ok_def agent_ok_def agent_extends_def approval_ok_def)
  show "event_ok ag (snd (on_apply ops ro env ag p))"
  proof (rule on_apply_cases [of ag ro p ops env])
    assume "snd (on_apply ops ro env ag p) = ag"
    then show ?thesis using event_ok_refl [OF assms] by simp
  next
    fix token r pl assume "authorize_with_token (ag_policy ag) (ses_identity (ag_session ag)) (make_request ro p ''apply'')
        (Some token) (env_clock env) = (r, pl)"
      "snd (on_apply ops ro env ag p)
         = ag\<lparr>ag_pending := (ag_pending ag)(mr_request_id (make_request ro p ''apply'') := None), ag_policy := pl\<rparr>"
    then show ?thesis using assms authorize_extends by (auto simp: event_ok_def agent_ok_def agent_extends_def)
  next
    fix token pl bs assume "authorize_with_token (ag_policy ag) (ses_identity (ag_session ag)) (make_request ro p ''apply'')
        (Some token) (env_clock env) = (Inr (), pl)"
      "snd (on_apply ops ro env ag p)
         = ag\<lparr>ag_pending := (ag_pending ag)(mr_request_id (make_request ro p ''apply'') := None), ag_policy := pl,
             ag_session := snd (write_bytes ops (ag_session ag) (mr_address (make_request ro p ''apply'')) bs)\<rparr>"
    moreover have "ses_identity (snd (write_bytes ops s a bs)) = ses_identity s" for s a
      using write_bytes_ident [of ops s a bs] by (metis prod.collapse)
    ultimately show ?thesis using assms authorize_extends by (auto simp: event_ok_def agent_ok_def agent_extends_def)
  qed
qed

lemma agent_event_ok:
  assumes "agent_ok ag"
  shows "event_ok ag (agent_event ops ro ag ev)"
proof (cases ev)
  case (Worker i)
  then show ?thesis using freezing_ok(4) [OF assms] by simp
next
  case (Request env m p)
  show ?thesis
  proof (cases "dispatch ops ro env ag m p")
    case None
    then show ?thesis using Request event_ok_refl [OF assms] by (simp add: agent_event_def)
  next
    case (Some x)
    have "event_ok ag (snd x)"
      by (rule dispatch_effect [OF Some]) (simp_all add: reading_ok [OF assms] freezing_ok [OF assms] mutation_ok [OF assms])
    then show ?thesis using Request Some by (simp add: agent_event_def)
  qed
qed

lemma run_events_ok:
  "agent_ok ag \<Longrightarrow> agent_ok (run_events ops ro ag evs) \<and> agent_extends ag (run_events ops ro ag evs)"
proof (induction evs arbitrary: ag)
  case (Cons ev evs)
  from agent_event_ok [OF Cons.prems, of ops ro ev] have "agent_ok (agent_event ops ro ag ev)"
    "agent_extends ag (agent_event ops ro ag ev)" by (simp_all add: event_ok_def)
  with Cons.IH show ?case using agent_extends_trans by fastforce
qed simp

lemma fresh_agent_ok: "agent_ok (AgentService_new s (Policy_new ms sink) (FreezeManager_new attached))"
  using fresh_requests [of attached]
  by (simp add: agent_ok_def AgentService_new_def Policy_new_def RateLimiter_new_def limiter_ok_def window_of_def requests_ok_def)

section \<open>Properties\<close>


section \<open>What a preview does not bind\<close>

lemma preview_granted:
  assumes "request_admissible (ag_policy ag) (ses_identity (ag_session ag)) ((make_request ro params ''preview'')\<lparr>mr_preview := True\<rparr>)"
  obtains pl where "snd (on_preview ro env ag params) = ag\<lparr>ag_policy := pl,
      ag_pending := (ag_pending ag)(request_id_of params \<mapsto> \<lparr>at_request_id = request_id_of params,
        at_target_alias = mr_target_alias (make_request ro params ''preview''), at_issued_at_ms = env_now env,
        at_expires_at_ms = env_now env + 300000, at_signature = []\<rparr>)\<rparr>"
    "pol_limiter pl = pol_limiter (ag_policy ag)" "pol_kill pl = pol_kill (ag_policy ag)"
    "pol_manifests pl = pol_manifests (ag_policy ag)"
proof -
  let ?r = "(make_request ro params ''preview'')\<lparr>mr_preview := True\<rparr>"
  have "authorize (ag_policy ag) (ses_identity (ag_session ag)) ?r (env_clock env)
      = (Inr (), emit_audit (ag_policy ag) (request_event (ses_identity (ag_session ag)) ?r ''preview'' ''preview requested''
          (clk_audit (env_clock env))))"
    unfolding authorize_def
    by (cases "ag_policy ag" "ses_identity (ag_session ag)" ?r "None :: approval_token option" "env_clock env" rule: authorize_cases)
      (use assms in \<open>simp_all add: mutation_ready_def\<close>)
  then show ?thesis
    by (intro that [of "emit_audit (ag_policy ag) (request_event (ses_identity (ag_session ag)) ?r ''preview'' ''preview requested''
          (clk_audit (env_clock env)))"]) (simp_all add: on_preview_def Let_def emit_audit_def)
qed

lemma admissible_cong:
  "pol_kill p' = pol_kill p \<Longrightarrow> pol_manifests p' = pol_manifests p \<Longrightarrow> request_admissible p' i r = request_admissible p i r"
  by (simp add: request_admissible_def find_manifest_def)

text \<open>
  C11: an approval is not bound to what was previewed. After a granted \<open>preview\<close>, an \<open>apply\<close> with the
  same request id and target alias that is approved in time, has a free rate slot and is admissible by
  itself stores its own bytes at its own address, whatever address, size, value and hash were
  previewed; and the expected hash is compared with nothing.
\<close>

theorem apply_ignores_preview:
  assumes "writable_backend ops mem_of"
    and "request_admissible (ag_policy ag) (ses_identity (ag_session ag)) ((make_request ro pv ''preview'')\<lparr>mr_preview := True\<rparr>)"
    and "request_id_of ap = request_id_of pv"
    and "mr_target_alias (make_request ro ap ''apply'') = mr_target_alias (make_request ro pv ''preview'')"
    and "request_admissible (ag_policy ag) (ses_identity (ag_session ag)) (make_request ro ap ''apply'')"
    and "\<not> mr_preview (make_request ro ap ''apply'')" and "mr_approved (make_request ro ap ''apply'')"
    and "env_now env1 \<le> clk_token (env_clock env2)" and "clk_token (env_clock env2) \<le> env_now env1 + 300000"
    and "slot_free (pol_limiter (ag_policy ag)) (mr_target_alias (make_request ro ap ''apply'')) (clk_limiter (env_clock env2))"
    and "hex_pairs (json_get_string ap ''value_hex'' []) = Some bs"
    and "even (length (json_get_string ap ''value_hex'' []))"
    and "valid_request (json_address ro ap ''address'') (length bs)"
  shows "mem_of (ses_backend (ag_session (snd (on_apply ops ro env2 (snd (on_preview ro env1 ag pv)) ap))))
      = mem_store (mem_of (ses_backend (ag_session ag))) (json_address ro ap ''address'') bs"
proof (rule preview_granted [OF assms(2), of env1])
  fix pl
  let ?r = "make_request ro ap ''apply''"
  let ?tok = "\<lparr>at_request_id = request_id_of pv, at_target_alias = mr_target_alias (make_request ro pv ''preview''),
    at_issued_at_ms = env_now env1, at_expires_at_ms = env_now env1 + 300000, at_signature = []\<rparr>"
  assume pv: "snd (on_preview ro env1 ag pv) = ag\<lparr>ag_policy := pl, ag_pending := (ag_pending ag)(request_id_of pv \<mapsto> ?tok)\<rparr>"
    and pl: "pol_limiter pl = pol_limiter (ag_policy ag)" "pol_kill pl = pol_kill (ag_policy ag)"
      "pol_manifests pl = pol_manifests (ag_policy ag)"
  have ready: "mutation_ready ?r (Some ?tok) (clk_token (env_clock env2))"
    using assms(3,4,6-9) by (simp add: mutation_ready_def token_valid_def)
  have adm: "request_admissible pl (ses_identity (ag_session ag)) ?r"
    using assms(5) admissible_cong [OF pl(2,3)] by simp
  obtain pl' where "authorize_with_token pl (ses_identity (ag_session ag)) ?r (Some ?tok) (env_clock env2) = (Inr (), pl')"
    by (cases pl "ses_identity (ag_session ag)" ?r "Some ?tok" "env_clock env2" rule: authorize_cases)
      (use adm ready assms(6,10) limiter_allow_ok_iff [of "pol_limiter pl" "mr_target_alias ?r" "clk_limiter (env_clock env2)"] pl(1)
        in \<open>auto\<close>)
  moreover have "mr_address ?r = json_address ro ap ''address''" by (simp add: make_request_def Let_def)
  ultimately have "ag_session (snd (on_apply ops ro env2 (snd (on_preview ro env1 ag pv)) ap))
      = snd (write_bytes ops (ag_session ag) (json_address ro ap ''address'') bs)"
    using assms(3,11,12)
    by (simp add: on_apply_def Let_def pv even_iff_mod_2_eq_zero split: prod.split sum.split)
  then show ?thesis using writable_backend.write_bytes_ok(2) [OF assms(1,13)] by simp
qed

text \<open>The preview is of two bytes at 0x1000, the apply writes at 0x1002.\<close>

definition demo_preview :: "unit json" where
  "demo_preview = JObject [(''request_id'', JString ''r2''), (''target_alias'', JString ''game''),
     (''address'', JInt 0x1000), (''size'', JInt 2), (''expected_current_hash'', JString ''h'')]"

definition demo_other_apply :: "unit json" where
  "demo_other_apply = JObject [(''request_id'', JString ''r2''), (''target_alias'', JString ''game''),
     (''address'', JInt 0x1002), (''size'', JInt 1), (''expected_current_hash'', JString ''another''),
     (''approved'', JBool True), (''value_hex'', JString ''0aff'')]"

theorem apply_ignores_preview_witness:
  "sim_memory (ses_backend (ag_session (snd (on_apply sim_ops no_reals demo_env
     (snd (on_preview no_reals demo_env demo_agent demo_preview)) demo_other_apply)))) 0x1002 = Some 0x0A"
proof -
  note params = demo_preview_def demo_other_apply_def request_id_of_def json_get_string_def json_get_def json_address_def
    json_get_int_def json_get_bool_def json_size_def
  note adm = params make_request_def request_admissible_def demo_agent_def AgentService_new_def Policy_new_def
    kill_switch_new_def find_manifest_def manifest_matches_def open_session_def MemorySession_new_def sim_identity_def
    default_identity_def identity_empty_def has_cap_def cap_bits known_caps_def
  have hex: "hex_pairs (json_get_string demo_other_apply ''value_hex'' []) = Some [0x0A, 0xFF]"
    "even (length (json_get_string demo_other_apply ''value_hex'' []))"
    by (simp_all add: params stoul_def strto_def char_digit_def is_space_def is_digit_def)
  have a: "json_address no_reals demo_other_apply ''address'' = 0x1002" by (simp add: params)
  have v: "valid_request (json_address no_reals demo_other_apply ''address'') (length [0x0A, 0xFF :: u8])"
    by (simp add: a valid_request_def)
  have "sim_memory (ses_backend (ag_session (snd (on_apply sim_ops no_reals demo_env
     (snd (on_preview no_reals demo_env demo_agent demo_preview)) demo_other_apply))))
     = mem_store (sim_memory (ses_backend (ag_session demo_agent))) (json_address no_reals demo_other_apply ''address'') [0x0A, 0xFF]"
    by (rule apply_ignores_preview [OF sim.writable_backend_axioms _ _ _ _ _ _ _ _ _ hex v])
      (simp add: adm, simp add: params, simp add: params make_request_def, simp add: adm, simp add: params make_request_def,
        simp add: params make_request_def, simp_all add: demo_env_def adm RateLimiter_new_def slot_free_def window_of_def)
  then show ?thesis by (simp add: a)
qed

end
