(* ===== verification/Trainer.thy ===== *)
theory Trainer
  imports Freeze Cheat_Table
begin

text \<open>
  The trainer of \<open>tools/gt_trainer_cli.cpp\<close>: the 32/64-bit pointer chains, the player state,
  the selection of entries of the cheat table, the set-up of \<open>main\<close> with its fallback to the
  simulated game, the three hotkey actions, the self-test and the two command loops. A
  \<open>float\<close> is its 32-bit pattern, and what the code computes with floats is the record
  \<open>float_ops\<close>. What is printed is in \<open>Trainer_Console\<close>. A backend found by the operating system and the
  simulated one share the type \<open>'b\<close>, as they share \<open>IMemoryBackend\<close>.
\<close>

section \<open>Hotkeys\<close>

definition hotkey_name :: "32 word \<Rightarrow> string" where
  "hotkey_name w =
     (let k = sint w in
      if k = 16 then ''Shift'' else if k = 17 then ''Ctrl'' else if k = 18 then ''Alt''
      else if k \<ge> 65 \<and> k \<le> 90 then [char_of (nat k)]
      else if k \<ge> 48 \<and> k \<le> 57 then [char_of (nat k)]
      else if k \<ge> 112 \<and> k \<le> 123 then ''F'' @ show_int (k - 111)
      else ''Key('' @ show_int k @ '')'')"

fun join_plus :: "string list \<Rightarrow> string" where
  "join_plus [] = []"
| "join_plus [x] = x"
| "join_plus (x # xs) = x @ ''+'' @ join_plus xs"

definition format_hotkey :: "32 word list \<Rightarrow> string" where
  "format_hotkey keys = (if keys = [] then ''None'' else join_plus (map hotkey_name keys))"

text \<open>\<open>is_combo_down\<close>; \<open>down\<close> is the high bit of \<open>GetAsyncKeyState\<close>.\<close>

definition is_combo_down :: "(32 word \<Rightarrow> bool) \<Rightarrow> 32 word list \<Rightarrow> bool" where
  "is_combo_down down keys \<longleftrightarrow> keys \<noteq> [] \<and> list_all down keys"

section \<open>Pointer chains\<close>

definition chain_is_64bit :: "'b backend_ops \<Rightarrow> 'b session \<Rightarrow> address \<Rightarrow> bool \<Rightarrow> bool" where
  "chain_is_64bit ops s base_addr force_64bit \<longleftrightarrow>
     force_64bit \<or> base_addr \<ge> 0x100000000 \<or> ti_architecture (be_identity ops (ses_backend s)) = Arch_x64"

text \<open>A pointer of the target's width at an address.\<close>

definition read_pointer :: "'b backend_ops \<Rightarrow> bool \<Rightarrow> 'b session \<Rightarrow> address \<Rightarrow> address result \<times> 'b session" where
  "read_pointer ops is_64bit s a =
     (if is_64bit then session_read ops s a
      else (case session_read ops s a of
              (Inl e, s') \<Rightarrow> (Inl e, s')
            | (Inr (v :: u32), s') \<Rightarrow> (Inr (ucast v), s')))"

fun chain_loop :: "'b backend_ops \<Rightarrow> bool \<Rightarrow> 'b session \<Rightarrow> address \<Rightarrow> address list \<Rightarrow> address result \<times> 'b session" where
  "chain_loop ops is_64bit s current [] = (success current, s)"
| "chain_loop ops is_64bit s current (off # offs) =
     (case read_pointer ops is_64bit s current of
        (Inl e, s') \<Rightarrow> (failure e, s')
      | (Inr v, s') \<Rightarrow> (if offs = [] then (success (v + off), s') else chain_loop ops is_64bit s' (v + off) offs))"

definition trainer_resolve_chain ::
  "'b backend_ops \<Rightarrow> 'b session \<Rightarrow> address \<Rightarrow> address list \<Rightarrow> bool \<Rightarrow> address result \<times> 'b session" where
  "trainer_resolve_chain ops s base_addr offsets force_64bit =
     (if offsets = [] then (success base_addr, s)
      else chain_loop ops (chain_is_64bit ops s base_addr force_64bit) s base_addr offsets)"

section \<open>The player\<close>

definition gun_names :: "string list" where
  "gun_names = [''Knife'', ''Pistol'', ''Carbine'', ''Shotgun'', ''Subgun'', ''Sniper Rifle'', ''Assault Rifle'',
     ''Grenade'', ''Akimbo'']"

record player_state =
  ps_health :: u32
  ps_armor :: u32
  ps_gun_id :: int
  ps_weapon_name :: string
  ps_clip_ammo :: u32
  ps_reserve_ammo :: u32
  ps_pos_x :: u32
  ps_pos_y :: u32
  ps_pos_z :: u32
  ps_valid :: bool

definition initial_player :: player_state where
  "initial_player = \<lparr>ps_health = 0, ps_armor = 0, ps_gun_id = -1, ps_weapon_name = ''Weapon'', ps_clip_ammo = 0,
     ps_reserve_ammo = 0, ps_pos_x = 0, ps_pos_y = 0, ps_pos_z = 0, ps_valid = False\<rparr>"

text \<open>The field offsets of the two layouts.\<close>

definition armor_offset :: "bool \<Rightarrow> address" where "armor_offset is_mac = (if is_mac then 0x104 else 0xF0)"

definition clip_address :: "bool \<Rightarrow> address \<Rightarrow> nat \<Rightarrow> address" where
  "clip_address is_mac player_base i = player_base + ((if is_mac then 0x13C else 0x128) + of_nat i * 4)"

definition reserve_address :: "bool \<Rightarrow> address \<Rightarrow> nat \<Rightarrow> address" where
  "reserve_address is_mac player_base i = player_base + ((if is_mac then 0x118 else 0x104) + of_nat i * 4)"

definition get_player_state ::
  "'b backend_ops \<Rightarrow> 'b session \<Rightarrow> address \<Rightarrow> address \<Rightarrow> address \<Rightarrow> address \<Rightarrow> bool \<Rightarrow> player_state \<times> 'b session" where
  "get_player_state ops s player_base fallback_health fallback_ammo fallback_zcord is_mac =
     (let st = initial_player in
      if player_base \<noteq> 0 then
        (let (hp, s) = session_read ops s (player_base + (if is_mac then 0x100 else 0xEC));
             (arm, s) = session_read ops s (player_base + armor_offset is_mac);
             (gun, s) = session_read ops s (player_base + (if is_mac then 0x108 else 0xFC));
             (px, s) = session_read ops s (player_base + (if is_mac then 0x8 else 0x2C));
             (py, s) = session_read ops s (player_base + (if is_mac then 0xC else 0x28));
             (pz, s) = session_read ops s (player_base + (if is_mac then 0x10 else 0x30));
             st = st\<lparr>ps_health := result_value_or hp (ps_health st), ps_armor := result_value_or arm (ps_armor st),
                    ps_pos_x := result_value_or px (ps_pos_x st), ps_pos_y := result_value_or py (ps_pos_y st),
                    ps_pos_z := result_value_or pz (ps_pos_z st)\<rparr>;
             gun_id = (case gun of Inr (g :: 32 word) \<Rightarrow> sint g | Inl _ \<Rightarrow> -1);
             (st, s) =
               (if 0 \<le> gun_id \<and> gun_id < 9 then
                  (let (clip, s) = session_read ops s (clip_address is_mac player_base (nat gun_id));
                       (res, s) = session_read ops s (reserve_address is_mac player_base (nat gun_id))
                   in (st\<lparr>ps_gun_id := gun_id, ps_weapon_name := gun_names ! nat gun_id,
                          ps_clip_ammo := result_value_or clip (ps_clip_ammo st),
                          ps_reserve_ammo := result_value_or res (ps_reserve_ammo st)\<rparr>, s))
                else
                  (let (a, s) = session_read ops s fallback_ammo
                   in (st\<lparr>ps_clip_ammo := result_value_or a (ps_clip_ammo st)\<rparr>, s)))
         in (st\<lparr>ps_valid := result_ok hp\<rparr>, s))
      else
        (let (hp, s) = session_read ops s fallback_health;
             (a, s) = session_read ops s fallback_ammo;
             (z, s) = session_read ops s fallback_zcord
         in (st\<lparr>ps_health := result_value_or hp (ps_health st), ps_clip_ammo := result_value_or a (ps_clip_ammo st),
                ps_pos_z := result_value_or z (ps_pos_z st), ps_valid := result_ok hp\<rparr>, s)))"

section \<open>Command line and table\<close>

datatype cli_command =
    Show_usage
  | Show_version
  | Unknown_option string
  | Run_trainer string bool bool  \<comment> \<open>table path, list mode, test mode\<close>

fun parse_args :: "string list \<Rightarrow> string \<Rightarrow> bool \<Rightarrow> bool \<Rightarrow> cli_command" where
  "parse_args [] table_path list_mode test_mode = Run_trainer table_path list_mode test_mode"
| "parse_args (arg # rest) table_path list_mode test_mode =
     (if arg = ''--help'' \<or> arg = ''-h'' then Show_usage
      else if arg = ''--version'' \<or> arg = ''-v'' then Show_version
      else if arg = ''--list'' then parse_args rest table_path True test_mode
      else if arg = ''--test'' then
        (case rest of
           [] \<Rightarrow> parse_args [] table_path list_mode True
         | nxt # rest' \<Rightarrow>
             (if nxt = [] \<or> hd nxt \<noteq> CHR ''-'' then parse_args rest' nxt list_mode True
              else parse_args (nxt # rest') table_path list_mode True))
      else if arg = ''--table'' then
        (case rest of
           [] \<Rightarrow> Unknown_option arg
         | nxt # rest' \<Rightarrow> parse_args rest' nxt list_mode test_mode)
      else Unknown_option arg)"

definition fallback_paths :: "string \<Rightarrow> string list" where
  "fallback_paths table_path = [''../'' @ table_path, ''CheatTable/assaultcube_mac.ct'',
     ''demos/CheatTable/assaultcube_mac.ct'', ''../demos/CheatTable/assaultcube_mac.ct'',
     ''CheatTable/assaultcube.ct'', ''demos/CheatTable/assaultcube.ct'', ''../demos/CheatTable/assaultcube.ct'']"

text \<open>
  The first path that parses, with its table; else the last failure and the first path.
  \<open>None\<close> (fuel of the XML reader spent) does not occur.
\<close>

fun try_paths ::
  "(string \<Rightarrow> string option) \<Rightarrow> string list \<Rightarrow> cheat_table result \<Rightarrow> string \<Rightarrow> (cheat_table result \<times> string) option" where
  "try_paths files [] r table_path = Some (r, table_path)"
| "try_paths files (alt # alts) r table_path =
     (case parse_file files alt of
        None \<Rightarrow> None
      | Some (Inr t) \<Rightarrow> Some (Inr t, alt)
      | Some (Inl e) \<Rightarrow> try_paths files alts (Inl e) table_path)"

definition load_table :: "(string \<Rightarrow> string option) \<Rightarrow> string \<Rightarrow> (cheat_table result \<times> string) option" where
  "load_table files table_path =
     (case parse_file files table_path of
        None \<Rightarrow> None
      | Some (Inr t) \<Rightarrow> Some (Inr t, table_path)
      | Some (Inl e) \<Rightarrow> try_paths files (fallback_paths table_path) (Inl e) table_path)"

record trainer_entries =
  te_health :: "cheat_entry option"
  te_armor :: "cheat_entry option"
  te_ammo :: "cheat_entry option"
  te_zcord :: "cheat_entry option"

definition pick_entry :: "cheat_entry \<Rightarrow> trainer_entries \<Rightarrow> trainer_entries" where
  "pick_entry e te =
     (if ce_description e = ''Health'' then te\<lparr>te_health := Some e\<rparr>
      else if ce_description e = ''Armor'' then te\<lparr>te_armor := Some e\<rparr>
      else if ce_description e = ''Assault Rifle Clip Ammo'' \<or> ce_description e = ''Weapon Ammo''
              \<or> ce_description e = ''Riffle Ammo''
      then (if te_ammo te = None then te\<lparr>te_ammo := Some e\<rparr> else te)
      else if ce_description e = ''ZCord'' then te\<lparr>te_zcord := Some e\<rparr>
      else te)"

definition pick_entries :: "cheat_table \<Rightarrow> trainer_entries" where
  "pick_entries t = fold pick_entry (ct_entries t)
     \<lparr>te_health = None, te_armor = None, te_ammo = None, te_zcord = None\<rparr>"

definition is_mac_target :: "string \<Rightarrow> trainer_entries \<Rightarrow> bool" where
  "is_mac_target table_path te \<longleftrightarrow> contains ''mac'' table_path \<or>
     (case te_health te of None \<Rightarrow> False | Some e \<Rightarrow> ce_section e = ''assaultcube'')"

section \<open>Resolving the addresses\<close>

definition default_mod_base :: "address \<Rightarrow> bool \<Rightarrow> address" where
  "default_mod_base live_mac_base is_mac =
     (if live_mac_base \<noteq> 0 then live_mac_base else if is_mac then 0x100000000 else 0x400000)"

definition compute_entry_base :: "address \<Rightarrow> bool \<Rightarrow> cheat_entry option \<Rightarrow> address \<Rightarrow> address" where
  "compute_entry_base live_mac_base is_mac entry fallback_off =
     (case entry of
        None \<Rightarrow> default_mod_base live_mac_base is_mac + fallback_off
      | Some e \<Rightarrow>
          (if ce_section e = ''assaultcube''
           then (if live_mac_base \<noteq> 0 then live_mac_base else 0x100000000) + ce_address e
           else if ce_section e = ''ac_client.exe'' then 0x400000 + ce_address e
           else if ce_address e \<ge> 0x100000000 \<and> live_mac_base = 0 then ce_address e
           else default_mod_base live_mac_base is_mac + ce_address e))"

definition player_pointer_offset :: "bool \<Rightarrow> address" where
  "player_pointer_offset is_mac = (if is_mac then 0x1CBD38 else 0x17E0A8)"

definition sim_entry_base :: "bool \<Rightarrow> cheat_entry option \<Rightarrow> address" where
  "sim_entry_base is_mac entry = (if is_mac then 0x100000000 else 0x400000) +
     (case entry of None \<Rightarrow> player_pointer_offset is_mac | Some e \<Rightarrow> ce_address e)"

definition entry_chain :: "cheat_entry option \<Rightarrow> address list \<Rightarrow> address list" where
  "entry_chain entry usual = (case entry of
     None \<Rightarrow> usual | Some e \<Rightarrow> if ce_offsets e \<noteq> [] then ce_offsets e else usual)"

record resolution =
  rs_health :: "address result"
  rs_armor :: "address result"
  rs_ammo :: "address result"
  rs_zcord :: "address result"

text \<open>The four chains, in the order of the source, from the bases \<open>base_of\<close> gives them.\<close>

definition resolve_entries ::
  "'b backend_ops \<Rightarrow> 'b session \<Rightarrow> bool \<Rightarrow> trainer_entries \<Rightarrow> (cheat_entry option \<Rightarrow> address)
     \<Rightarrow> resolution \<times> 'b session" where
  "resolve_entries ops s is_mac te base_of =
     (let (h, s) = trainer_resolve_chain ops s (base_of (te_health te))
            (entry_chain (te_health te) [if is_mac then 0x100 else 0xEC]) is_mac;
          (r, s) = trainer_resolve_chain ops s (base_of (te_armor te))
            (entry_chain (te_armor te) [armor_offset is_mac]) is_mac;
          (a, s) = trainer_resolve_chain ops s (base_of (te_ammo te))
            (entry_chain (te_ammo te) [if is_mac then 0x154 else 0x140]) is_mac;
          (z, s) = trainer_resolve_chain ops s (base_of (te_zcord te))
            (entry_chain (te_zcord te) [if is_mac then 0x10 else 0x30]) is_mac
      in (\<lparr>rs_health = h, rs_armor = r, rs_ammo = a, rs_zcord = z\<rparr>, s))"

text \<open>The pointer at the health base, kept only if it is read and not null.\<close>

definition read_player_base ::
  "'b backend_ops \<Rightarrow> 'b session \<Rightarrow> bool \<Rightarrow> address \<Rightarrow> address \<Rightarrow> address \<times> 'b session" where
  "read_player_base ops s is_mac base old =
     (case read_pointer ops is_mac s base of
        (Inr p, s') \<Rightarrow> (if p \<noteq> 0 then p else old, s')
      | (Inl e, s') \<Rightarrow> (old, s'))"

definition probe_resolution :: "'b backend_ops \<Rightarrow> 'b session \<Rightarrow> resolution \<Rightarrow> bool \<times> 'b session" where
  "probe_resolution ops s rs =
     (case (rs_health rs, rs_ammo rs, rs_zcord rs) of
        (Inr h, Inr a, Inr z) \<Rightarrow>
          (let (ph, s) = session_read ops s h; (pa, s) = session_read ops s a; (pz, s) = session_read ops s z
           in (result_ok (ph :: u32 result) \<and> result_ok (pa :: u32 result) \<and> result_ok (pz :: u32 result), s))
      | _ \<Rightarrow> (False, s))"

record trainer_env =
  ten_is_mac :: bool
  ten_player_base :: address
  ten_health :: address
  ten_armor :: "address result"
  ten_ammo :: address
  ten_zcord :: address

record 'b trainer =
  tr_session :: "'b session"
  tr_freeze :: freeze_manager
  tr_ammo_frozen :: bool

text \<open>
  The set-up of \<open>main\<close> from the choice of the backend on. \<open>live\<close> is the backend attached to a
  running game, if any, \<open>sim_of\<close> the simulated game; \<open>None\<close> is the exit with code 1.
\<close>

definition setup_trainer ::
  "'b backend_ops \<Rightarrow> (bool \<Rightarrow> 'b) \<Rightarrow> 'b option \<Rightarrow> address \<Rightarrow> trainer_entries \<Rightarrow> bool
     \<Rightarrow> (trainer_env \<times> 'b trainer) option" where
  "setup_trainer ops sim_of live live_mac_base te is_mac =
     (let backend = (case live of Some b \<Rightarrow> b | None \<Rightarrow> sim_of is_mac);
          s = open_session ops backend;
          base_of = (\<lambda>e. compute_entry_base live_mac_base is_mac e (player_pointer_offset is_mac));
          (rs, s) = resolve_entries ops s is_mac te base_of;
          (pb, s) = read_player_base ops s is_mac (base_of (te_health te)) 0;
          (resolution_valid, s) = probe_resolution ops s rs;
          (rs, pb, s) =
            (if resolution_valid then (rs, pb, s)
             else (let s = open_session ops (sim_of is_mac);
                       (rs, s) = resolve_entries ops s is_mac te (sim_entry_base is_mac);
                       (pb, s) = read_player_base ops s is_mac (sim_entry_base is_mac (te_health te)) pb
                   in (rs, pb, s)))
      in (case (rs_health rs, rs_ammo rs, rs_zcord rs) of
            (Inr h, Inr a, Inr z) \<Rightarrow>
              (let armor = (case rs_armor rs of
                     Inr x \<Rightarrow> Inr x
                   | Inl e \<Rightarrow> (if pb \<noteq> 0 then Inr (pb + armor_offset is_mac) else Inl e))
               in Some (\<lparr>ten_is_mac = is_mac, ten_player_base = pb, ten_health = h, ten_armor = armor, ten_ammo = a,
                         ten_zcord = z\<rparr>,
                        \<lparr>tr_session = s, tr_freeze = FreezeManager_new True, tr_ammo_frozen = False\<rparr>))
          | _ \<Rightarrow> None))"

section \<open>The actions\<close>

definition write32 :: "'b backend_ops \<Rightarrow> address \<Rightarrow> u32 \<Rightarrow> 'b trainer \<Rightarrow> 'b trainer" where
  "write32 ops a v tr = tr\<lparr>tr_session := snd (session_write ops (tr_session tr) a v)\<rparr>"

text \<open>A failed health write is tried once more, for the text of its error.\<close>

definition trigger_health :: "'b backend_ops \<Rightarrow> trainer_env \<Rightarrow> 'b trainer \<Rightarrow> 'b trainer" where
  "trigger_health ops te tr =
     (case session_write ops (tr_session tr) (ten_health te) (100 :: u32) of
        (r, s) \<Rightarrow>
          (let tr1 = tr\<lparr>tr_session := s\<rparr>;
               tr2 = (case ten_armor te of
                        Inr a \<Rightarrow> write32 ops a 100 tr1
                      | Inl _ \<Rightarrow>
                          (if ten_player_base te \<noteq> 0
                           then write32 ops (ten_player_base te + armor_offset (ten_is_mac te)) 100 tr1 else tr1))
           in if result_ok r then tr2 else write32 ops (ten_health te) 100 tr2))"

definition refill_weapon :: "'b backend_ops \<Rightarrow> trainer_env \<Rightarrow> u32 \<Rightarrow> nat \<Rightarrow> 'b trainer \<Rightarrow> 'b trainer" where
  "refill_weapon ops te amount i tr =
     write32 ops (reserve_address (ten_is_mac te) (ten_player_base te) i) amount
       (write32 ops (clip_address (ten_is_mac te) (ten_player_base te) i) amount tr)"

definition refill_all_weapons :: "'b backend_ops \<Rightarrow> trainer_env \<Rightarrow> u32 \<Rightarrow> 'b trainer \<Rightarrow> 'b trainer" where
  "refill_all_weapons ops te amount tr =
     write32 ops (ten_ammo te) amount
       (if ten_player_base te \<noteq> 0 then fold (refill_weapon ops te amount) [0..<9] tr else tr)"

definition ammo_request :: "trainer_env \<Rightarrow> freeze_request" where
  "ammo_request te = \<lparr>fr_id = ''ammo_freeze_primary'', fr_address = ten_ammo te, fr_type_name = ''uint32'',
     fr_value_u64 = 999, fr_interval = 20, fr_size = 4\<rparr>"

text \<open>\<open>spawn\<close> and \<open>sched\<close>: whether the worker thread starts, and what runs while it is joined.\<close>

definition trigger_ammo ::
  "'b backend_ops \<Rightarrow> string option \<Rightarrow> string list \<Rightarrow> trainer_env \<Rightarrow> 'b trainer \<Rightarrow> 'b trainer" where
  "trigger_ammo ops spawn sched te tr =
     (if \<not> tr_ammo_frozen tr
      then (case freeze ops spawn (ammo_request te) (tr_freeze tr, tr_session tr) of
              (r, (m, s)) \<Rightarrow>
                (let tr' = refill_all_weapons ops te 999 (tr\<lparr>tr_freeze := m, tr_session := s\<rparr>)
                 in if result_ok r then tr'\<lparr>tr_ammo_frozen := True\<rparr> else tr'))
      else (case unfreeze ops sched ''ammo_freeze_primary'' (tr_freeze tr, tr_session tr) of
              (r, (m, s)) \<Rightarrow> tr\<lparr>tr_freeze := m, tr_session := s, tr_ammo_frozen := False\<rparr>))"

text \<open>What the trainer computes with floats: \<open>x + 10.0f\<close> and \<open>after - before < 9.9f\<close>.\<close>

record float_ops =
  fl_add10 :: "u32 \<Rightarrow> u32"
  fl_jump_short :: "u32 \<Rightarrow> u32 \<Rightarrow> bool"

definition trigger_high_jump :: "'b backend_ops \<Rightarrow> float_ops \<Rightarrow> trainer_env \<Rightarrow> 'b trainer \<Rightarrow> 'b trainer" where
  "trigger_high_jump ops fl te tr =
     (case session_read ops (tr_session tr) (ten_zcord te) of
        (Inl e, s) \<Rightarrow> tr\<lparr>tr_session := s\<rparr>
      | (Inr cur, s) \<Rightarrow> write32 ops (ten_zcord te) (fl_add10 fl cur) (tr\<lparr>tr_session := s\<rparr>))"

definition read_state :: "'b backend_ops \<Rightarrow> trainer_env \<Rightarrow> 'b trainer \<Rightarrow> player_state \<times> 'b trainer" where
  "read_state ops te tr =
     (case get_player_state ops (tr_session tr) (ten_player_base te) (ten_health te) (ten_ammo te) (ten_zcord te)
             (ten_is_mac te) of
        (st, s) \<Rightarrow> (st, tr\<lparr>tr_session := s\<rparr>))"

definition read32 :: "'b backend_ops \<Rightarrow> address \<Rightarrow> 'b trainer \<Rightarrow> u32 result \<times> 'b trainer" where
  "read32 ops a tr = (case session_read ops (tr_session tr) a of (r, s) \<Rightarrow> (r, tr\<lparr>tr_session := s\<rparr>))"

section \<open>The self-test\<close>

text \<open>The workers' turns while \<open>main\<close> sleeps.\<close>

definition workers_run :: "'b backend_ops \<Rightarrow> string list \<Rightarrow> 'b trainer \<Rightarrow> 'b trainer" where
  "workers_run ops sched tr =
     (case run_turns ops sched (tr_freeze tr, tr_session tr) of (m, s) \<Rightarrow> tr\<lparr>tr_freeze := m, tr_session := s\<rparr>)"

definition restore_state :: "'b backend_ops \<Rightarrow> trainer_env \<Rightarrow> player_state \<Rightarrow> 'b trainer \<Rightarrow> 'b trainer" where
  "restore_state ops te orig tr =
     (if \<not> ps_valid orig then tr
      else
        (let tr = write32 ops (ten_health te) (ps_health orig) tr;
             tr = (case ten_armor te of
                     Inr a \<Rightarrow> write32 ops a (ps_armor orig) tr
                   | Inl _ \<Rightarrow>
                       (if ten_player_base te \<noteq> 0
                        then write32 ops (ten_player_base te + armor_offset (ten_is_mac te)) (ps_armor orig) tr
                        else tr));
             tr = write32 ops (ten_ammo te) (ps_clip_ammo orig) tr;
             tr = write32 ops (ten_zcord te) (ps_pos_z orig) tr
         in if ten_player_base te \<noteq> 0 \<and> 0 \<le> ps_gun_id orig \<and> ps_gun_id orig < 9
            then write32 ops (reserve_address (ten_is_mac te) (ten_player_base te) (nat (ps_gun_id orig)))
                   (ps_reserve_ammo orig)
                   (write32 ops (clip_address (ten_is_mac te) (ten_player_base te) (nat (ps_gun_id orig)))
                      (ps_clip_ammo orig) tr)
            else tr))"

text \<open>
  The three tests; the result is the exit code and the state at the \<open>return\<close>. \<open>sleep_sched\<close>:
  the workers' turns in the 60 ms of the second test.
\<close>

definition run_test ::
  "'b backend_ops \<Rightarrow> float_ops \<Rightarrow> string option \<Rightarrow> string list \<Rightarrow> string list \<Rightarrow> trainer_env \<Rightarrow> 'b trainer
     \<Rightarrow> int \<times> 'b trainer" where
  "run_test ops fl spawn sleep_sched sched te tr =
     (let (shown, tr) = read_state ops te tr;
          (orig, tr) = read_state ops te tr;
          tr = write32 ops (ten_health te) 35 tr;
          tr = trigger_health ops te tr;
          (h, tr) = read32 ops (ten_health te) tr
      in if h \<noteq> Inr 100 then (1, tr)
         else
          (let tr = trigger_ammo ops spawn sched te tr;
               tr = workers_run ops sleep_sched tr;
               (a, tr) = read32 ops (ten_ammo te) tr
           in if a \<noteq> Inr 999 then (1, tr)
              else
               (let tr = trigger_ammo ops spawn sched te tr;
                    (z1, tr) = read32 ops (ten_zcord te) tr;
                    tr = trigger_high_jump ops fl te tr;
                    (z2, tr) = read32 ops (ten_zcord te) tr
                in (case (z1, z2) of
                      (Inr before, Inr after) \<Rightarrow>
                        (if fl_jump_short fl after before then (1, tr)
                         else (0, snd (read_state ops te (restore_state ops te orig tr))))
                    | _ \<Rightarrow> (1, tr)))))"

section \<open>The command loops\<close>

datatype trainer_action = Act_health | Act_ammo | Act_jump | Act_status | Act_quit | Act_none

definition line_action :: "string \<Rightarrow> trainer_action" where
  "line_action line =
     (if line = [] then Act_none
      else (let cmd = hd line in
        if cmd = CHR ''q'' \<or> cmd = CHR ''Q'' then Act_quit
        else if cmd = CHR ''h'' \<or> cmd = CHR ''H'' then Act_health
        else if cmd = CHR ''a'' \<or> cmd = CHR ''A'' then Act_ammo
        else if cmd = CHR ''z'' \<or> cmd = CHR ''Z'' then Act_jump
        else if cmd = CHR ''s'' \<or> cmd = CHR ''S'' then Act_status
        else Act_none))"

definition perform ::
  "'b backend_ops \<Rightarrow> float_ops \<Rightarrow> string option \<Rightarrow> string list \<Rightarrow> trainer_env \<Rightarrow> trainer_action \<Rightarrow> 'b trainer
     \<Rightarrow> 'b trainer" where
  "perform ops fl spawn sched te act tr =
     (case act of
        Act_health \<Rightarrow> trigger_health ops te tr
      | Act_ammo \<Rightarrow> trigger_ammo ops spawn sched te tr
      | Act_jump \<Rightarrow> trigger_high_jump ops fl te tr
      | Act_status \<Rightarrow> snd (read_state ops te tr)
      | Act_quit \<Rightarrow> tr
      | Act_none \<Rightarrow> tr)"

text \<open>The loop over piped input; it ends at \<open>q\<close> or at the end of the input.\<close>

fun command_loop ::
  "'b backend_ops \<Rightarrow> float_ops \<Rightarrow> string option \<Rightarrow> string list \<Rightarrow> trainer_env \<Rightarrow> string list \<Rightarrow> 'b trainer \<Rightarrow> 'b trainer" where
  "command_loop ops fl spawn sched te [] tr = tr"
| "command_loop ops fl spawn sched te (line # lines) tr =
     (if line_action line = Act_quit then tr
      else command_loop ops fl spawn sched te lines (perform ops fl spawn sched te (line_action line) tr))"

text \<open>A key of the polling loop: \<open>q\<close>, Ctrl+C and Escape quit; the bindings are in this order.\<close>

definition key_action :: "int \<Rightarrow> trainer_action" where
  "key_action ch =
     (if ch = 113 \<or> ch = 81 \<or> ch = 3 \<or> ch = 27 then Act_quit
      else if ch = 115 \<or> ch = 83 then Act_status
      else if ch = 104 \<or> ch = 72 \<or> ch = 8 then Act_health
      else if ch = 97 \<or> ch = 65 \<or> ch = 1 then Act_ammo
      else if ch = 122 \<or> ch = 90 \<or> ch = 26 then Act_jump
      else Act_none)"

text \<open>A binding of the global hotkeys of Windows: its keys, its action, its previous state.\<close>

record hotkey_binding =
  hb_keys :: "32 word list"
  hb_action :: trainer_action
  hb_prev_down :: bool

definition trainer_bindings :: "trainer_entries \<Rightarrow> hotkey_binding list" where
  "trainer_bindings te =
     [\<lparr>hb_keys = (case te_health te of Some e \<Rightarrow> ce_hotkeys e | None \<Rightarrow> [17, 72]), hb_action = Act_health,
       hb_prev_down = False\<rparr>,
      \<lparr>hb_keys = (case te_ammo te of Some e \<Rightarrow> ce_hotkeys e | None \<Rightarrow> [17, 65]), hb_action = Act_ammo,
       hb_prev_down = False\<rparr>,
      \<lparr>hb_keys = (case te_zcord te of Some e \<Rightarrow> ce_hotkeys e | None \<Rightarrow> [17, 90]), hb_action = Act_jump,
       hb_prev_down = False\<rparr>]"

text \<open>One pass over the bindings: the actions to trigger and the bindings' new states.\<close>

fun scan_bindings :: "(32 word \<Rightarrow> bool) \<Rightarrow> hotkey_binding list \<Rightarrow> trainer_action list \<times> hotkey_binding list" where
  "scan_bindings down [] = ([], [])"
| "scan_bindings down (b # bs) =
     (case scan_bindings down bs of
        (acts, bs') \<Rightarrow>
          (if hb_keys b = [] then (acts, b # bs')
           else (let d = is_combo_down down (hb_keys b)
                 in ((if d \<and> \<not> hb_prev_down b then [hb_action b] else []) @ acts,
                     b\<lparr>hb_prev_down := d\<rparr> # bs'))))"

text \<open>The once-a-second tick: with the freeze on, the clip of the selected gun is refilled.\<close>

definition status_tick :: "'b backend_ops \<Rightarrow> trainer_env \<Rightarrow> 'b trainer \<Rightarrow> 'b trainer" where
  "status_tick ops te tr =
     (case read_state ops te tr of
        (st, tr) \<Rightarrow>
          (if tr_ammo_frozen tr \<and> ten_player_base te \<noteq> 0 \<and> 0 \<le> ps_gun_id st \<and> ps_gun_id st < 9
           then write32 ops (clip_address (ten_is_mac te) (ten_player_base te) (nat (ps_gun_id st))) 999 tr
           else tr))"

definition close_trainer :: "'b backend_ops \<Rightarrow> (string \<Rightarrow> string list) \<Rightarrow> 'b trainer \<Rightarrow> 'b trainer" where
  "close_trainer ops sched tr =
     (case cancel_all ops sched (tr_freeze tr, tr_session tr) of
        (m, s) \<Rightarrow> tr\<lparr>tr_freeze := m, tr_session := s\<rparr>)"

end
