(* ===== verification/Trainer_Properties.thy ===== *)
theory Trainer_Properties
  imports Trainer Sim_Backend
begin

text \<open>
  What the trainer does to a lawful memory: its pointer chains are the walk they should be, the
  self-test passes and what it leaves behind, and what becomes of the ammo freeze when it is
  toggled.
\<close>

section \<open>Words in memory\<close>

abbreviation store32 :: "mem \<Rightarrow> address \<Rightarrow> u32 \<Rightarrow> mem" where
  "store32 m a v \<equiv> mem_store m a (bytes_of_word v)"

definition apart :: "address \<Rightarrow> address \<Rightarrow> bool" where
  "apart a b \<longleftrightarrow> addr_range a 4 \<inter> addr_range b 4 = {}"

lemma apart_sym: "apart a b \<longleftrightarrow> apart b a"
  by (auto simp: apart_def)

lemma word_store_same [simp]: "mem_word (store32 m a v) a = Some (v :: u32)"
  by (rule mem_word_store) simp

lemma word_store_apart: "apart a b \<Longrightarrow> mem_word (store32 m b v) a = (mem_word m a :: u32 option)"
  by (simp add: mem_word_def apart_def mem_slice_store_disjoint)

lemma word_mapped_iff:
  "mem_word m a \<noteq> (None :: u32 option) \<longleftrightarrow> addr_range a 4 \<subseteq> dom m"
  using mem_slice_defined_iff [of m a 4] by (auto simp: mem_word_def)

lemma word_store_mapped: "mem_word m a \<noteq> (None :: u32 option) \<Longrightarrow> mem_word (store32 m b v) a \<noteq> (None :: u32 option)"
  unfolding word_mapped_iff by (auto simp: mem_store_dom)

lemma fields_apart:
  assumes "c + 4 \<le> d \<or> d + 4 \<le> c" "c < 2 ^ 63" "d < 2 ^ 63"
  shows "apart (p + of_nat c) (p + of_nat d)"
proof -
  have "False" if "p + of_nat c + of_nat i = p + of_nat d + of_nat j" "i < 4" "j < 4" for i j :: nat
  proof -
    have "(of_nat (c + i) :: u64) = of_nat (d + j)" using that(1) by (simp add: add.assoc)
    then have "c + i = d + j" using assms(2,3) that(2,3) by (subst (asm) of_nat_inj_u64) simp_all
    then show False using assms(1) that(2,3) by linarith
  qed
  then show ?thesis by (auto simp: apart_def addr_range_def)
qed

lemma clip_address_nat: "clip_address mac p i = p + of_nat ((if mac then 316 else 296) + 4 * i)"
  by (simp add: clip_address_def mult.commute)

lemma reserve_address_nat: "reserve_address mac p i = p + of_nat ((if mac then 280 else 260) + 4 * i)"
  by (simp add: reserve_address_def mult.commute)

lemma weapon_apart:
  assumes "i < 9" "j < 9"
  shows "i \<noteq> j \<Longrightarrow> apart (clip_address mac p i) (clip_address mac p j)"
    "i \<noteq> j \<Longrightarrow> apart (reserve_address mac p i) (reserve_address mac p j)"
    "apart (clip_address mac p i) (reserve_address mac p j)"
    "apart (reserve_address mac p i) (clip_address mac p j)"
  unfolding clip_address_nat reserve_address_nat
  using assms by - (rule fields_apart; auto)+

section \<open>What the actions do to a lawful memory\<close>

lemma write32_frame [simp]:
  "tr_freeze (write32 ops a v tr) = tr_freeze tr" "tr_ammo_frozen (write32 ops a v tr) = tr_ammo_frozen tr"
  by (simp_all add: write32_def)

lemma read_state_frame [simp]:
  "tr_freeze (snd (read_state ops te tr)) = tr_freeze tr" "tr_ammo_frozen (snd (read_state ops te tr)) = tr_ammo_frozen tr"
  by (simp_all add: read_state_def split: prod.split)

lemma read32_frame [simp]:
  "tr_freeze (snd (read32 ops a tr)) = tr_freeze tr" "tr_ammo_frozen (snd (read32 ops a tr)) = tr_ammo_frozen tr"
  by (simp_all add: read32_def split: prod.split)

lemma refill_frame [simp]:
  "tr_freeze (refill_all_weapons ops te v tr) = tr_freeze tr"
  "tr_ammo_frozen (refill_all_weapons ops te v tr) = tr_ammo_frozen tr"
proof -
  have "tr_freeze (fold (refill_weapon ops te v) is tr) = tr_freeze tr \<and>
      tr_ammo_frozen (fold (refill_weapon ops te v) is tr) = tr_ammo_frozen tr" for "is"
    by (induction "is" arbitrary: tr) (simp_all add: refill_weapon_def)
  then show "tr_freeze (refill_all_weapons ops te v tr) = tr_freeze tr"
    "tr_ammo_frozen (refill_all_weapons ops te v tr) = tr_ammo_frozen tr"
    by (simp_all add: refill_all_weapons_def)
qed

text \<open>The memory after a refill of the weapons \<open>ns\<close>.\<close>

definition refilled :: "trainer_env \<Rightarrow> u32 \<Rightarrow> mem \<Rightarrow> nat list \<Rightarrow> mem" where
  "refilled te v m ns = fold (\<lambda>i m. store32 (store32 m (clip_address (ten_is_mac te) (ten_player_base te) i) v)
     (reserve_address (ten_is_mac te) (ten_player_base te) i) v) ns m"

context memory_backend
begin

abbreviation tmem :: "'b trainer \<Rightarrow> mem" where
  "tmem tr \<equiv> mem_of (ses_backend (tr_session tr))"

lemma read32_ok:
  assumes "valid_request a 4" "mem_word (tmem tr) a = Some v"
  shows "fst (read32 ops a tr) = Inr v"
  using session_read_ok_iff [where ?'a = 32, of "tr_session tr" a v] assms
  by (cases "session_read ops (tr_session tr) a :: u32 result \<times> 'b session") (simp add: read32_def)

lemma session_read_keeps:
  "session_read ops s a = (r :: ('a::len word) result, s') \<Longrightarrow> smem s' = smem s"
  using session_read_mem [of s a, where ?'a = 'a] by simp

lemma read32_mem [simp]: "tmem (snd (read32 ops a tr)) = tmem tr"
  by (auto simp: read32_def dest: session_read_keeps split: prod.split)

lemma get_player_state_mem: "smem (snd (get_player_state ops s pb h a z mac)) = smem s"
  by (simp add: get_player_state_def Let_def case_prod_beta)

lemma get_player_state_gun:
  assumes "pb \<noteq> 0" "valid_request (pb + (if mac then 0x108 else 0xFC)) 4"
    "mem_word (smem s) (pb + (if mac then 0x108 else 0xFC)) = Some (g :: 32 word)" "0 \<le> sint g" "sint g < 9"
  shows "ps_gun_id (fst (get_player_state ops s pb h a z mac)) = sint g"
proof -
  have "fst (session_read ops t (pb + (if mac then 0x108 else 0xFC))) = Inr g" if "smem t = smem s" for t
    using session_read_ok_iff [where ?'a = 32, of t "pb + (if mac then 0x108 else 0xFC)" g] assms(2,3) that by simp
  then show ?thesis using assms(1,4,5) by (simp add: get_player_state_def Let_def case_prod_beta)
qed

lemma read_state_mem [simp]: "tmem (snd (read_state ops te tr)) = tmem tr"
  using get_player_state_mem [of "tr_session tr"] by (simp add: read_state_def split: prod.split) (metis snd_conv)

end

context writable_backend
begin

lemma write32_mem:
  "valid_request a 4 \<Longrightarrow> tmem (write32 ops a v tr) = store32 (tmem tr) a v"
  using session_write_ok(2) [where ?'a = 32, of a "tr_session tr" v] by (simp add: write32_def)

lemma trigger_health_mem:
  assumes "valid_request (ten_health te) 4" "ten_armor te = Inr a" "valid_request a 4"
  shows "tmem (trigger_health ops te tr) = store32 (store32 (tmem tr) (ten_health te) 100) a 100"
    "tr_freeze (trigger_health ops te tr) = tr_freeze tr"
    "tr_ammo_frozen (trigger_health ops te tr) = tr_ammo_frozen tr"
proof -
  have "trigger_health ops te tr = write32 ops a 100 (write32 ops (ten_health te) 100 tr)"
    using session_write_ok(1) [where ?'a = 32, of "ten_health te" "tr_session tr" 100] assms
    by (cases "session_write ops (tr_session tr) (ten_health te) (100 :: u32)")
      (simp add: trigger_health_def write32_def result_ok_def Let_def)
  then show "tmem (trigger_health ops te tr) = store32 (store32 (tmem tr) (ten_health te) 100) a 100"
    "tr_freeze (trigger_health ops te tr) = tr_freeze tr"
    "tr_ammo_frozen (trigger_health ops te tr) = tr_ammo_frozen tr"
    using assms by (simp_all add: write32_mem)
qed

lemma weapon_mem:
  assumes "valid_request (clip_address (ten_is_mac te) (ten_player_base te) i) 4"
    "valid_request (reserve_address (ten_is_mac te) (ten_player_base te) i) 4"
  shows "tmem (refill_weapon ops te v i tr) = store32 (store32 (tmem tr)
      (clip_address (ten_is_mac te) (ten_player_base te) i) v) (reserve_address (ten_is_mac te) (ten_player_base te) i) v"
  unfolding refill_weapon_def write32_mem [OF assms(2)] write32_mem [OF assms(1)] ..

lemma weapons_mem:
  assumes "\<And>i. i \<in> set ns \<Longrightarrow> valid_request (clip_address (ten_is_mac te) (ten_player_base te) i) 4"
    "\<And>i. i \<in> set ns \<Longrightarrow> valid_request (reserve_address (ten_is_mac te) (ten_player_base te) i) 4"
  shows "tmem (fold (refill_weapon ops te v) ns tr) = refilled te v (tmem tr) ns"
  using assms
proof (induction ns arbitrary: tr)
  case Nil
  show ?case by (simp add: refilled_def)
next
  case (Cons i ns)
  have "tmem (fold (refill_weapon ops te v) ns (refill_weapon ops te v i tr)) = refilled te v (tmem (refill_weapon ops te v i tr)) ns"
    by (rule Cons.IH) (use Cons.prems in simp_all)
  also have "tmem (refill_weapon ops te v i tr) = store32 (store32 (tmem tr)
      (clip_address (ten_is_mac te) (ten_player_base te) i) v) (reserve_address (ten_is_mac te) (ten_player_base te) i) v"
    by (rule weapon_mem) (use Cons.prems in simp_all)
  finally show ?case by (simp only: refilled_def fold_Cons comp_apply)
qed

lemma refill_mem:
  assumes "ten_player_base te \<noteq> 0" "valid_request (ten_ammo te) 4"
    and "\<And>i. i < 9 \<Longrightarrow> valid_request (clip_address (ten_is_mac te) (ten_player_base te) i) 4 \<and>
           valid_request (reserve_address (ten_is_mac te) (ten_player_base te) i) 4"
  shows "tmem (refill_all_weapons ops te v tr) = store32 (refilled te v (tmem tr) [0..<9]) (ten_ammo te) v"
proof -
  have "tmem (fold (refill_weapon ops te v) [0..<9] tr) = refilled te v (tmem tr) [0..<9]"
    by (rule weapons_mem; drule set_upt [THEN equalityD1, THEN subsetD]; rule assms(3) [THEN conjunct1] assms(3) [THEN conjunct2]; simp)
  then show ?thesis
    by (simp only: refill_all_weapons_def if_P [OF assms(1)] write32_mem [OF assms(2)])
qed


end

text \<open>Workers that write what memory already holds.\<close>

definition workers_idle :: "freeze_manager \<Rightarrow> mem \<Rightarrow> bool" where
  "workers_idle m M \<longleftrightarrow> (\<forall>i e. entry_of m i = Some e \<longrightarrow>
     valid_request (fr_address (fe_request e)) (length (frozen_bytes e)) \<and>
     mem_slice M (fr_address (fe_request e)) (length (frozen_bytes e)) = Some (frozen_bytes e))"

lemma workers_idle_core:
  assumes "workers_idle m M" "\<And>i. map_option entry_core (entry_of m' i) = map_option entry_core (entry_of m i)"
  shows "workers_idle m' M"
  unfolding workers_idle_def
proof (intro allI impI)
  fix i e assume "entry_of m' i = Some e"
  then obtain e1 where "entry_of m i = Some e1" "fe_request e1 = fe_request e"
    using assms(2) [of i] by (cases "entry_of m i") (auto simp: entry_core_def)
  then show "valid_request (fr_address (fe_request e)) (length (frozen_bytes e)) \<and>
      mem_slice M (fr_address (fe_request e)) (length (frozen_bytes e)) = Some (frozen_bytes e)"
    using assms(1) by (fastforce simp: workers_idle_def frozen_bytes_def)
qed

lemma workers_idle_put:
  "workers_idle m M \<Longrightarrow> entry_of m i = Some e \<Longrightarrow> fe_request e' = fe_request e \<Longrightarrow> workers_idle (put_entry m i e') M"
  by (auto simp: workers_idle_def frozen_bytes_def)

lemma unat_numeral_4: "unat (4 :: u64) = 4" by simp

context writable_backend
begin

lemma worker_turn_idle:
  assumes "workers_idle (fst ms) (smem (snd ms))"
  shows "smem (snd (worker_turn ops i ms)) = smem (snd ms)"
proof (rule worker_turn_cases [of ops i ms])
  fix e e' s' assume e: "entry_of (fst ms) i = Some e" "worker_step ops e (snd ms) = (e', s')"
    "worker_turn ops i ms = (put_entry (fst ms) i e', s')"
  have idle: "valid_request (fr_address (fe_request e)) (length (frozen_bytes e))"
    "mem_slice (smem (snd ms)) (fr_address (fe_request e)) (length (frozen_bytes e)) = Some (frozen_bytes e)"
    using assms e(1) by (auto simp: workers_idle_def)
  have "smem (snd (write_bytes ops (snd ms) (fr_address (fe_request e)) (frozen_bytes e))) = smem (snd ms)"
    using write_bytes_ok(2) [OF idle(1)] mem_store_slice_id [OF idle(2)] by simp
  then have "smem s' = smem (snd ms)"
    using e(2) by (auto split: worker_pc.splits prod.splits sum.splits if_splits)
  then show ?thesis using e(3) by simp
qed simp

lemma run_turns_idle:
  "workers_idle (fst ms) (smem (snd ms)) \<Longrightarrow> smem (snd (run_turns ops sched ms)) = smem (snd ms) \<and>
     workers_idle (fst (run_turns ops sched ms)) (smem (snd ms))"
proof (induction sched arbitrary: ms)
  case (Cons i sched)
  have m: "smem (snd (worker_turn ops i ms)) = smem (snd ms)" by (rule worker_turn_idle [OF Cons.prems])
  have "workers_idle (fst (worker_turn ops i ms)) (smem (snd ms))"
    by (rule workers_idle_core [OF Cons.prems worker_turn_core])
  then show ?case using Cons.IH [of "worker_turn ops i ms"] m by simp
qed simp

lemma unfreeze_idle:
  assumes "workers_idle (fst ms) (smem (snd ms))"
  shows "smem (snd (snd (unfreeze ops sched i ms))) = smem (snd ms)"
proof (cases "entry_of (fst ms) i")
  case None
  then show ?thesis by (simp add: unfreeze_def)
next
  case (Some e)
  have idle: "workers_idle (put_entry (fst ms) i (e\<lparr>fe_cancel := True\<rparr>)) (smem (snd ms))"
    by (rule workers_idle_put [OF assms Some]) simp
  have "smem (snd (stop_worker ops sched i e ms)) = smem (snd ms)"
    using run_turns_idle [of "(put_entry (fst ms) i (e\<lparr>fe_cancel := True\<rparr>), snd ms)" "sched @ replicate 4 i"] idle
    by (auto simp: stop_worker_def join_worker_def split: prod.split option.split)
  then show ?thesis by (auto intro: unfreeze_eq [OF Some, of ops sched])
qed

text \<open>Switching the ammo freeze on, from a manager without entries.\<close>

lemma trigger_ammo_on:
  assumes "\<not> tr_ammo_frozen tr" "tr_freeze tr = FreezeManager_new True" "ten_ammo te \<noteq> 0"
    and "valid_request (ten_ammo te) 4" "mem_word (tmem tr) (ten_ammo te) \<noteq> (None :: u32 option)"
    and "ten_player_base te \<noteq> 0"
    and "\<And>i. i < 9 \<Longrightarrow> valid_request (clip_address (ten_is_mac te) (ten_player_base te) i) 4 \<and>
           valid_request (reserve_address (ten_is_mac te) (ten_player_base te) i) 4"
  defines "M \<equiv> store32 (refilled te 999 (tmem tr) [0..<9]) (ten_ammo te) 999"
  shows "tmem (trigger_ammo ops None sched te tr) = M"
    "workers_idle (tr_freeze (trigger_ammo ops None sched te tr)) M"
    "tr_ammo_frozen (trigger_ammo ops None sched te tr)"
proof -
  let ?ms = "(tr_freeze tr, tr_session tr)"
  have eff: "effective_request (ammo_request te) = ammo_request te"
    by (simp add: effective_request_def ammo_request_def Let_def)
  obtain bs where bs: "mem_slice (tmem tr) (ten_ammo te) 4 = Some bs"
    using assms(5) by (auto simp: mem_word_def)
  obtain s' where rd: "read_bytes ops (tr_session tr) (ten_ammo te) 4 = (Inr bs, s')" "smem s' = tmem tr"
    using read_bytes_ok_iff [of "tr_session tr" "ten_ammo te" 4 bs] read_bytes_mem [of "tr_session tr" "ten_ammo te" 4]
      assms(4) bs by (metis prod.collapse unat_numeral_4)
  obtain s'' e where f: "freeze ops None (ammo_request te) ?ms = (Inr (), (put_entry (tr_freeze tr) ''ammo_freeze_primary'' e, s''))"
    "fe_request e = ammo_request te" "smem s'' = tmem tr"
    using rd assms(2,3)
    by (simp add: freeze_def ammo_request_def invalid_address_def FreezeManager_new_def entry_of_def new_entry_def)
  have fb: "frozen_bytes e = bytes_of_word (999 :: u32)"
    by (simp add: frozen_bytes_def f(2) ammo_request_def u64_to_bytes_def bytes_of_word_def upt_rec)
  have t: "trigger_ammo ops None sched te tr = (refill_all_weapons ops te 999
      (tr\<lparr>tr_freeze := put_entry (tr_freeze tr) ''ammo_freeze_primary'' e, tr_session := s''\<rparr>))\<lparr>tr_ammo_frozen := True\<rparr>"
    using assms(1) f(1) by (simp add: trigger_ammo_def result_ok_def Let_def)
  show "tr_ammo_frozen (trigger_ammo ops None sched te tr)" by (simp add: t)
  show "tmem (trigger_ammo ops None sched te tr) = M"
    using refill_mem [OF assms(6,4,7)] f(3) by (simp add: t M_def)
  have "mem_slice M (ten_ammo te) 4 = Some (bytes_of_word (999 :: u32))"
    using mem_slice_store [of "bytes_of_word (999 :: u32)"] by (simp add: M_def)
  then show "workers_idle (tr_freeze (trigger_ammo ops None sched te tr)) M"
    using assms(2,4) by (auto simp: t workers_idle_def FreezeManager_new_def entry_of_def put_entry_def fb f(2)
        ammo_request_def split: if_splits)
qed

lemma trigger_ammo_off:
  assumes "tr_ammo_frozen tr" "workers_idle (tr_freeze tr) (tmem tr)"
  shows "tmem (trigger_ammo ops spawn sched te tr) = tmem tr"
  using unfreeze_idle [of "(tr_freeze tr, tr_session tr)" sched "''ammo_freeze_primary''"] assms
  by (simp add: trigger_ammo_def case_prod_beta)

lemma workers_run_idle:
  assumes "workers_idle (tr_freeze tr) (tmem tr)"
  shows "tmem (workers_run ops sched tr) = tmem tr"
    "workers_idle (tr_freeze (workers_run ops sched tr)) (tmem tr)"
    "tr_ammo_frozen (workers_run ops sched tr) = tr_ammo_frozen tr"
  using run_turns_idle [of "(tr_freeze tr, tr_session tr)" sched] assms
  by (simp_all add: workers_run_def case_prod_beta)

lemma trigger_high_jump_mem:
  assumes "valid_request (ten_zcord te) 4" "mem_word (tmem tr) (ten_zcord te) = Some x"
  shows "tmem (trigger_high_jump ops fl te tr) = store32 (tmem tr) (ten_zcord te) (fl_add10 fl x)"
proof -
  obtain s where "session_read ops (tr_session tr) (ten_zcord te) = (Inr x, s)" "smem s = tmem tr"
    by (rule session_read_cases [where ?'a = 32, of "tr_session tr" "ten_zcord te"]) (use assms in auto)
  then show ?thesis using assms(1) by (simp add: trigger_high_jump_def write32_mem)
qed

lemma write32_apart:
  "valid_request a 4 \<Longrightarrow> apart c a \<Longrightarrow> mem_word (tmem (write32 ops a v tr)) c = (mem_word (tmem tr) c :: u32 option)"
  by (simp add: write32_mem word_store_apart)

lemma restore_state_apart:
  assumes "valid_request (ten_health te) 4" "ten_armor te = Inr a" "valid_request a 4" "valid_request (ten_ammo te) 4"
    "valid_request (ten_zcord te) 4"
    and w: "\<And>i. i < 9 \<Longrightarrow> valid_request (clip_address (ten_is_mac te) (ten_player_base te) i) 4 \<and>
           valid_request (reserve_address (ten_is_mac te) (ten_player_base te) i) 4"
    and "apart c (ten_health te)" "apart c a" "apart c (ten_ammo te)" "apart c (ten_zcord te)"
    and g: "\<And>g. g < 9 \<Longrightarrow> ps_gun_id orig = int g \<Longrightarrow> apart c (clip_address (ten_is_mac te) (ten_player_base te) g) \<and>
           apart c (reserve_address (ten_is_mac te) (ten_player_base te) g)"
  shows "mem_word (tmem (restore_state ops te orig tr)) c = (mem_word (tmem tr) c :: u32 option)"
proof -
  define tr1 where "tr1 = write32 ops (ten_zcord te) (ps_pos_z orig) (write32 ops (ten_ammo te) (ps_clip_ammo orig)
    (write32 ops a (ps_armor orig) (write32 ops (ten_health te) (ps_health orig) tr)))"
  have t1: "mem_word (tmem tr1) c = (mem_word (tmem tr) c :: u32 option)"
    using assms by (simp add: tr1_def write32_apart)
  show ?thesis
  proof (cases "ps_valid orig \<and> ten_player_base te \<noteq> 0 \<and> 0 \<le> ps_gun_id orig \<and> ps_gun_id orig < 9")
    case True
    then obtain n where n: "n < 9" "ps_gun_id orig = int n"
      by (metis nat_less_iff nat_0_le nat_numeral zless_nat_eq_int_zless int_nat_eq)
    then show ?thesis using True t1 w [OF n(1)] g [OF n]
      by (simp add: restore_state_def assms(2) Let_def write32_apart flip: tr1_def)
  next
    case False
    then show ?thesis using t1 by (auto simp: restore_state_def assms(2) Let_def simp flip: tr1_def)
  qed
qed

end

text \<open>What the trainer needs of its addresses: valid, the ammo and the height mapped, fields apart.\<close>

definition trainer_ready :: "trainer_env \<Rightarrow> mem \<Rightarrow> bool" where
  "trainer_ready te M \<longleftrightarrow> ten_player_base te \<noteq> 0 \<and> ten_ammo te \<noteq> 0 \<and>
     (\<exists>a. ten_armor te = Inr a \<and> valid_request a 4 \<and> apart (ten_health te) a \<and> apart (ten_zcord te) a) \<and>
     valid_request (ten_health te) 4 \<and> valid_request (ten_ammo te) 4 \<and> valid_request (ten_zcord te) 4 \<and>
     (\<forall>i < 9. valid_request (clip_address (ten_is_mac te) (ten_player_base te) i) 4 \<and>
        valid_request (reserve_address (ten_is_mac te) (ten_player_base te) i) 4 \<and>
        apart (ten_zcord te) (clip_address (ten_is_mac te) (ten_player_base te) i) \<and>
        apart (ten_zcord te) (reserve_address (ten_is_mac te) (ten_player_base te) i)) \<and>
     apart (ten_zcord te) (ten_health te) \<and> apart (ten_zcord te) (ten_ammo te) \<and>
     mem_word M (ten_ammo te) \<noteq> (None :: u32 option) \<and> mem_word M (ten_zcord te) \<noteq> (None :: u32 option)"

lemma refilled_apart:
  assumes "\<And>i. i \<in> set ns \<Longrightarrow> apart c (clip_address (ten_is_mac te) (ten_player_base te) i) \<and>
      apart c (reserve_address (ten_is_mac te) (ten_player_base te) i)"
  shows "mem_word (refilled te v m ns) c = (mem_word m c :: u32 option)"
  using assms by (induction ns arbitrary: m) (simp_all add: refilled_def word_store_apart)

lemma refilled_weapon:
  assumes "i \<in> set ns" "\<And>j. j \<in> set ns \<Longrightarrow> j < 9"
  shows "mem_word (refilled te v m ns) (clip_address (ten_is_mac te) (ten_player_base te) i) = Some (v :: u32)"
  using assms
proof (induction ns arbitrary: m)
  case (Cons j ns)
  let ?m = "store32 (store32 m (clip_address (ten_is_mac te) (ten_player_base te) j) v)
     (reserve_address (ten_is_mac te) (ten_player_base te) j) v"
  have r: "refilled te v m (j # ns) = refilled te v ?m ns" by (simp add: refilled_def)
  show ?case
  proof (cases "i \<in> set ns")
    case True
    then show ?thesis using Cons.IH [of ?m] Cons.prems(2) r by simp
  next
    case False
    then have ij: "i = j" using Cons.prems(1) by simp
    have i9: "i < 9" using Cons.prems by blast
    have "mem_word (refilled te v ?m ns) (clip_address (ten_is_mac te) (ten_player_base te) i)
        = (mem_word ?m (clip_address (ten_is_mac te) (ten_player_base te) i) :: u32 option)"
    proof (rule refilled_apart)
      fix k assume "k \<in> set ns"
      then have "k < 9" "i \<noteq> k" using Cons.prems(2) False by auto
      then show "apart (clip_address (ten_is_mac te) (ten_player_base te) i) (clip_address (ten_is_mac te) (ten_player_base te) k) \<and>
          apart (clip_address (ten_is_mac te) (ten_player_base te) i) (reserve_address (ten_is_mac te) (ten_player_base te) k)"
        using weapon_apart [OF i9] by blast
    qed
    also have "\<dots> = Some v"
      unfolding ij by (simp add: word_store_apart [OF weapon_apart(3) [OF i9 i9, unfolded ij]])
    finally show ?thesis by (simp only: r)
  qed
qed simp

context writable_backend
begin

lemma self_test:
  assumes ready: "trainer_ready te (tmem tr)" and "tr_freeze tr = FreezeManager_new True" "\<not> tr_ammo_frozen tr"
    and x: "mem_word (tmem tr) (ten_zcord te) = Some x" "\<not> fl_jump_short fl (fl_add10 fl x) x"
  shows "fst (run_test ops fl None sleep_sched sched te tr) = 0"
    "i < 9 \<Longrightarrow> int i \<noteq> ps_gun_id (fst (read_state ops te (snd (read_state ops te tr)))) \<Longrightarrow>
     c = clip_address (ten_is_mac te) (ten_player_base te) i \<Longrightarrow> ten_armor te = Inr a \<Longrightarrow>
     apart c (ten_health te) \<Longrightarrow> apart c a \<Longrightarrow> apart c (ten_ammo te) \<Longrightarrow> apart c (ten_zcord te) \<Longrightarrow>
     mem_word (tmem (snd (run_test ops fl None sleep_sched sched te tr))) c = Some (999 :: u32)"
proof -
  obtain b where b: "ten_armor te = Inr b" "valid_request b 4" "apart (ten_health te) b" "apart (ten_zcord te) b"
    using ready by (auto simp: trainer_ready_def)
  note R = ready [unfolded trainer_ready_def]
  have w: "i < 9 \<Longrightarrow> valid_request (clip_address (ten_is_mac te) (ten_player_base te) i) 4 \<and>
           valid_request (reserve_address (ten_is_mac te) (ten_player_base te) i) 4" for i using R by blast
  define orig where "orig = fst (read_state ops te (snd (read_state ops te tr)))"
  define t1 where "t1 = snd (read_state ops te (snd (read_state ops te tr)))"
  define t2 where "t2 = trigger_health ops te (write32 ops (ten_health te) 35 t1)"
  have m2: "tmem t2 = store32 (store32 (store32 (tmem tr) (ten_health te) 35) (ten_health te) 100) b 100"
    "tr_freeze t2 = FreezeManager_new True" "\<not> tr_ammo_frozen t2"
    using trigger_health_mem [OF _ b(1,2), of "write32 ops (ten_health te) 35 t1"] R assms(2,3)
    by (simp_all add: t2_def t1_def write32_mem)
  have h: "fst (read32 ops (ten_health te) t2) = Inr 100"
    using R b(3) by (intro read32_ok) (simp_all add: m2(1) word_store_apart)
  define t3 where "t3 = snd (read32 ops (ten_health te) t2)"
  have z3: "mem_word (tmem t3) (ten_zcord te) = Some x" and a3: "mem_word (tmem t3) (ten_ammo te) \<noteq> (None :: u32 option)"
    using R b(4) x(1) by (simp_all add: t3_def m2(1) word_store_apart word_store_mapped)
  define M where "M = store32 (refilled te 999 (tmem t3) [0..<9]) (ten_ammo te) 999"
  define t4 where "t4 = trigger_ammo ops None sched te t3"
  have t4: "tmem t4 = M" "workers_idle (tr_freeze t4) M" "tr_ammo_frozen t4"
    unfolding t4_def M_def using R m2 a3 w by (intro trigger_ammo_on; simp add: t3_def)+
  define t5 where "t5 = workers_run ops sleep_sched t4"
  have t5: "tmem t5 = M" "workers_idle (tr_freeze t5) M" "tr_ammo_frozen t5"
    using workers_run_idle [of t4 sleep_sched] t4 by (simp_all add: t5_def)
  have a: "fst (read32 ops (ten_ammo te) t5) = Inr 999"
    using R by (intro read32_ok) (simp_all add: t5(1) M_def)
  define t6 where "t6 = trigger_ammo ops None sched te (snd (read32 ops (ten_ammo te) t5))"
  have t6: "tmem t6 = M"
    using trigger_ammo_off [of "snd (read32 ops (ten_ammo te) t5)" None sched te] t5 by (simp add: t6_def)
  have zM: "mem_word M (ten_zcord te) = Some x"
  proof -
    have "mem_word (refilled te 999 (tmem t3) [0..<9]) (ten_zcord te) = (mem_word (tmem t3) (ten_zcord te) :: u32 option)"
      by (rule refilled_apart) (use R in auto)
    then show ?thesis using R z3 by (simp add: M_def word_store_apart)
  qed
  have z1: "fst (read32 ops (ten_zcord te) t6) = Inr x" using R zM by (intro read32_ok) (simp_all add: t6)
  define t7 where "t7 = trigger_high_jump ops fl te (snd (read32 ops (ten_zcord te) t6))"
  have t7: "tmem t7 = store32 M (ten_zcord te) (fl_add10 fl x)"
    using trigger_high_jump_mem [of te "snd (read32 ops (ten_zcord te) t6)" x fl] R zM by (simp add: t7_def t6)
  have z2: "fst (read32 ops (ten_zcord te) t7) = Inr (fl_add10 fl x)"
    using R by (intro read32_ok) (simp_all add: t7)
  define t8 where "t8 = snd (read32 ops (ten_zcord te) t7)"
  have run: "run_test ops fl None sleep_sched sched te tr = (0, snd (read_state ops te (restore_state ops te orig t8)))"
    using h a z1 z2 x(2)
    by (simp add: run_test_def Let_def case_prod_beta flip: t1_def orig_def t2_def t3_def t4_def t5_def t6_def t7_def t8_def)
  then show "fst (run_test ops fl None sleep_sched sched te tr) = 0" by simp
  assume i: "i < 9" "int i \<noteq> ps_gun_id (fst (read_state ops te (snd (read_state ops te tr))))"
    "c = clip_address (ten_is_mac te) (ten_player_base te) i" "ten_armor te = Inr a"
    "apart c (ten_health te)" "apart c a" "apart c (ten_ammo te)" "apart c (ten_zcord te)"
  have "mem_word (tmem (restore_state ops te orig t8)) c = (mem_word (tmem t8) c :: u32 option)"
  proof (rule restore_state_apart [OF _ i(4)])
    fix g assume "g < 9" "ps_gun_id orig = int g"
    then show "apart c (clip_address (ten_is_mac te) (ten_player_base te) g) \<and>
        apart c (reserve_address (ten_is_mac te) (ten_player_base te) g)"
      using i(1-3) weapon_apart [OF i(1), of g] by (auto simp: orig_def)
  qed (use R w i b in auto)
  also have "mem_word (tmem t8) c = (mem_word M c :: u32 option)" using i(8) by (simp add: t8_def t7 word_store_apart)
  also have "mem_word M c = Some (999 :: u32)"
    using i(1,3,7) refilled_weapon [of i "[0..<9]" te 999] by (simp add: M_def word_store_apart)
  finally show "mem_word (tmem (snd (run_test ops fl None sleep_sched sched te tr))) c = Some (999 :: u32)"
    by (simp add: run)
qed

end

section \<open>Pointer chains\<close>

text \<open>The walk of a chain: dereference, then add; the last sum is not dereferenced.\<close>

definition mem_pointer :: "bool \<Rightarrow> mem \<Rightarrow> address \<Rightarrow> address option" where
  "mem_pointer is_64bit m a =
     (if is_64bit then (if valid_request a 8 then mem_word m a else None)
      else (if valid_request a 4 then map_option ucast (mem_word m a :: u32 option) else None))"

fun trainer_walk :: "bool \<Rightarrow> mem \<Rightarrow> address \<Rightarrow> address list \<Rightarrow> address option" where
  "trainer_walk is_64bit m current [] = Some current"
| "trainer_walk is_64bit m current (off # offs) =
     (case mem_pointer is_64bit m current of
        None \<Rightarrow> None
      | Some p \<Rightarrow> trainer_walk is_64bit m (p + off) offs)"

context memory_backend
begin

lemma read_pointer_cases:
  obtains (ok) p s' where "read_pointer ops w s a = (Inr p, s')" "mem_pointer w (smem s) a = Some p" "smem s' = smem s"
  | (bad) e s' where "read_pointer ops w s a = (Inl e, s')" "mem_pointer w (smem s) a = None" "smem s' = smem s"
proof (cases w)
  case True
  show ?thesis
    by (rule session_read_cases [where ?'a = 64, of s a])
      (use True that in \<open>auto simp: read_pointer_def mem_pointer_def\<close>)
next
  case False
  show ?thesis
    by (rule session_read_cases [where ?'a = 32, of s a])
      (use False that in \<open>auto simp: read_pointer_def mem_pointer_def\<close>)
qed

lemma chain_loop_walk:
  "(fst (chain_loop ops w s a offs) = Inr p \<longleftrightarrow> trainer_walk w (smem s) a offs = Some p) \<and>
     smem (snd (chain_loop ops w s a offs)) = smem s"
proof (induction offs arbitrary: s a)
  case (Cons off offs)
  show ?case
    by (rule read_pointer_cases [of w s a]) (use Cons.IH in \<open>auto simp del: not_None_eq\<close>)
qed simp

end

section \<open>The ammo toggle\<close>

definition ammo_dead :: "'b trainer \<Rightarrow> bool" where
  "ammo_dead tr \<longleftrightarrow> \<not> tr_ammo_frozen tr \<and> entry_of (tr_freeze tr) ''ammo_freeze_primary'' \<noteq> None"

lemma freeze_registered:
  assumes "entry_of (fst ms) (fr_id r) \<noteq> None"
  shows "\<exists>err s'. freeze ops spawn r ms = (Inl err, (fst ms, s'))"
  by (rule freeze_cases [of ops spawn r ms]) (use assms in \<open>auto simp: admissible_freeze_def\<close>)

lemma ammo_id: "fr_id (ammo_request te) = ''ammo_freeze_primary''"
  by (simp add: ammo_request_def)

lemma ammo_dead_trigger:
  assumes "ammo_dead tr"
  shows "ammo_dead (trigger_ammo ops spawn sched te tr)"
proof -
  have "entry_of (fst (tr_freeze tr, tr_session tr)) (fr_id (ammo_request te)) \<noteq> None"
    using assms by (simp add: ammo_dead_def ammo_id)
  from freeze_registered [OF this, of ops spawn]
  obtain err s' where "freeze ops spawn (ammo_request te) (tr_freeze tr, tr_session tr) = (Inl err, (tr_freeze tr, s'))"
    by auto
  then show ?thesis using assms by (simp add: ammo_dead_def trigger_ammo_def result_ok_def Let_def)
qed

lemma ammo_dead_perform: "ammo_dead tr \<Longrightarrow> ammo_dead (perform ops fl spawn sched te act tr)"
proof (cases act)
  case Act_health
  moreover assume "ammo_dead tr"
  ultimately show ?thesis
    by (auto simp: ammo_dead_def perform_def trigger_health_def Let_def split: prod.split sum.split)
next
  case Act_ammo
  moreover assume "ammo_dead tr"
  ultimately show ?thesis by (simp add: perform_def ammo_dead_trigger)
next
  case Act_jump
  moreover assume "ammo_dead tr"
  ultimately show ?thesis
    by (auto simp: ammo_dead_def perform_def trigger_high_jump_def split: prod.split sum.split)
qed (simp_all add: ammo_dead_def perform_def)

lemma trigger_ammo_registers:
  assumes "\<not> tr_ammo_frozen tr" "tr_ammo_frozen (trigger_ammo ops spawn sched te tr)"
  shows "entry_of (tr_freeze (trigger_ammo ops spawn sched te tr)) ''ammo_freeze_primary'' \<noteq> None"
proof (rule freeze_cases [of ops spawn "ammo_request te" "(tr_freeze tr, tr_session tr)"])
  fix bs s' s''
  assume "freeze ops spawn (ammo_request te) (tr_freeze tr, tr_session tr) = (Inr (),
    (put_entry (fst (tr_freeze tr, tr_session tr)) (fr_id (ammo_request te)) (started_entry (effective_request (ammo_request te)) bs), s''))"
  then show ?thesis using assms(1)
    by (simp add: trigger_ammo_def result_ok_def Let_def) (simp add: ammo_request_def)
qed (use assms in \<open>simp_all add: trigger_ammo_def result_ok_def Let_def\<close>)

lemma trigger_ammo_dies:
  assumes "tr_ammo_frozen tr" "entry_of (tr_freeze tr) ''ammo_freeze_primary'' \<noteq> None"
  shows "ammo_dead (trigger_ammo ops spawn sched te tr)"
proof -
  obtain e where e: "entry_of (fst (tr_freeze tr, tr_session tr)) ''ammo_freeze_primary'' = Some e" using assms(2) by auto
  show ?thesis
    by (rule unfreeze_eq [OF e, of ops sched]) (use assms(1) in \<open>simp add: trigger_ammo_def ammo_dead_def\<close>)
qed

section \<open>A concrete trainer\<close>

definition test_env :: trainer_env where
  "test_env = \<lparr>ten_is_mac = True, ten_player_base = 0x1000, ten_health = 0x1100, ten_armor = Inr 0x1104,
     ten_ammo = 0x1154, ten_zcord = 0x1010\<rparr>"

definition test_memory :: mem where
  "test_memory = store32 (store32 (store32 (store32 (store32 (store32 (\<lambda>_. None) 0x1100 80) 0x1104 50) 0x1108 6)
     0x1154 20) 0x1140 12) 0x1010 0x40900000"

definition test_trainer :: "sim_backend trainer" where
  "test_trainer = \<lparr>tr_session = open_session sim_ops \<lparr>sim_is_64bit = True, sim_memory = test_memory\<rparr>,
     tr_freeze = FreezeManager_new True, tr_ammo_frozen = False\<rparr>"

definition test_floats :: float_ops where
  "test_floats = \<lparr>fl_add10 = (\<lambda>x. if x = 0x40900000 then 0x41680000 else x), fl_jump_short = (\<lambda>after before. after = before)\<rparr>"

lemma test_apart:
  assumes "c + 4 \<le> d \<or> d + 4 \<le> c" "c < 4096" "d < 4096"
  shows "apart (0x1000 + of_nat c) (0x1000 + of_nat d)"
  by (rule fields_apart) (use assms in auto)

lemma test_ready: "trainer_ready test_env test_memory"
proof -
  have z: "apart 0x1010 (clip_address True 0x1000 i) \<and> apart 0x1010 (reserve_address True 0x1000 i)" if "i < 9" for i
    using test_apart [of 16 "316 + 4 * i"] test_apart [of 16 "280 + 4 * i"] that
    by (simp add: clip_address_def reserve_address_def ac_simps)
  have v: "valid_request (clip_address True 0x1000 i) 4 \<and> valid_request (reserve_address True 0x1000 i) 4" if "i < 9" for i
  proof -
    have "i \<in> {0, 1, 2, 3, 4, 5, 6, 7, 8}" using that by auto
    then show ?thesis
      by (simp only: insert_iff empty_iff) (elim disjE; simp add: clip_address_def reserve_address_def valid_request_def)
  qed
  have p: "apart 0x1100 0x1104" "apart 0x1010 0x1104" "apart 0x1010 0x1100" "apart 0x1010 0x1154"
    using test_apart [of 256 260] test_apart [of 16 260] test_apart [of 16 256] test_apart [of 16 340] by simp_all
  have m: "mem_word test_memory 0x1154 \<noteq> (None :: u32 option)" "mem_word test_memory 0x1010 \<noteq> (None :: u32 option)"
    by (simp_all add: test_memory_def word_store_mapped)
  show ?thesis using z v p m by (simp add: trainer_ready_def test_env_def) (simp add: valid_request_def)
qed

section \<open>The trainer's properties\<close>

text \<open>
  the trainer's pointer chains are the walk of memory at the width it chooses (64 bits when
  forced, for a base above 4 GiB or a 64-bit target): a chain resolves to \<open>p\<close> exactly when the
  walk ends at \<open>p\<close>, an unreadable pointer on the way is a failure, the last address is not
  dereferenced, and memory is left as it was.
\<close>

theorem trainer_chain_walk:
  assumes "memory_backend ops mem_of"
  shows "(fst (trainer_resolve_chain ops s base offs force) = Inr p \<longleftrightarrow>
            trainer_walk (chain_is_64bit ops s base force) (mem_of (ses_backend s)) base offs = Some p)
       \<and> mem_of (ses_backend (snd (trainer_resolve_chain ops s base offs force))) = mem_of (ses_backend s)"
  using memory_backend.chain_loop_walk [OF assms, of "chain_is_64bit ops s base force" s base offs p]
  by (cases offs) (simp_all add: trainer_resolve_chain_def)

definition test_chain_session :: "sim_backend session" where
  "test_chain_session = open_session sim_ops \<lparr>sim_is_64bit = False, sim_memory = store32 (\<lambda>_. None) 0x40E0A8 0x5000\<rparr>"

theorem trainer_chain_walk_witness:
  "fst (trainer_resolve_chain sim_ops test_chain_session 0x40E0A8 [0xEC] False) = Inr 0x50EC"
proof -
  have "chain_is_64bit sim_ops test_chain_session 0x40E0A8 False = False"
    by (simp add: chain_is_64bit_def test_chain_session_def open_session_def sim_ops_def sim_identity_def)
  moreover have "sim_memory (ses_backend test_chain_session) = store32 (\<lambda>_. None) 0x40E0A8 0x5000"
    by (simp add: test_chain_session_def open_session_def)
  ultimately show ?thesis
    using trainer_chain_walk [OF sim.memory_backend_axioms, of test_chain_session "0x40E0A8" "[0xEC]" False "0x50EC"]
    by (simp add: mem_pointer_def valid_request_def)
qed


lemma test_gun: "ps_gun_id (fst (read_state sim_ops test_env (snd (read_state sim_ops test_env test_trainer)))) = 6"
proof -
  have "mem_word test_memory 0x1108 = Some (6 :: 32 word)"
    using test_apart [of 264 340] test_apart [of 264 320] test_apart [of 264 16]
    by (simp add: test_memory_def word_store_apart)
  moreover have "sim_memory (ses_backend (tr_session (snd (read_state sim_ops test_env test_trainer)))) = test_memory"
    by (simp add: sim.read_state_mem) (simp add: test_trainer_def open_session_def)
  ultimately show ?thesis
    using sim.get_player_state_gun [of "0x1000" True "tr_session (snd (read_state sim_ops test_env test_trainer))" 6]
    by (simp add: read_state_def [of _ _ "snd _"] test_env_def valid_request_def case_prod_beta)
qed


text \<open>What happens in a running trainer: an action with the outcome of its thread start, or workers' turns.\<close>

datatype trainer_event = Action "string option" "string list" trainer_action | Turns "string list"

fun trainer_step :: "'b backend_ops \<Rightarrow> float_ops \<Rightarrow> trainer_env \<Rightarrow> trainer_event \<Rightarrow> 'b trainer \<Rightarrow> 'b trainer" where
  "trainer_step ops fl te (Action spawn sched act) tr = perform ops fl spawn sched te act tr"
| "trainer_step ops fl te (Turns sched) tr = workers_run ops sched tr"

lemma ammo_dead_step: "ammo_dead tr \<Longrightarrow> ammo_dead (trainer_step ops fl te st tr)"
proof (cases st)
  case (Turns sched)
  moreover assume "ammo_dead tr"
  ultimately show ?thesis
    using run_turns_none [of ops sched "(tr_freeze tr, tr_session tr)" "''ammo_freeze_primary''"]
    by (simp add: workers_run_def ammo_dead_def case_prod_beta)
qed (simp add: ammo_dead_perform)

lemma ammo_dead_steps: "ammo_dead tr \<Longrightarrow> ammo_dead (fold (trainer_step ops fl te) steps tr)"
  by (induction steps arbitrary: tr) (simp_all add: ammo_dead_step)

text \<open>
  C31: the ammo toggle works once. After it was switched on (from off) and off again, whatever the
  outcome of the thread starts, the scheduling and the memory, no later sequence of actions and
  worker turns switches it on again: the id stays registered with the manager after
  \<open>unfreeze\<close>, so every later \<open>freeze\<close> is refused.
\<close>

theorem ammo_toggle_once:
  assumes "\<not> tr_ammo_frozen tr" and "tr_ammo_frozen (trigger_ammo ops spawn sched te tr)"
  shows "\<not> tr_ammo_frozen (fold (trainer_step ops fl te) steps
           (trigger_ammo ops spawn' sched' te (trigger_ammo ops spawn sched te tr)))"
  using ammo_dead_steps [OF trigger_ammo_dies [OF assms(2) trigger_ammo_registers [OF assms]]]
  by (simp add: ammo_dead_def)

theorem ammo_toggle_once_witness:
  "tr_ammo_frozen (trigger_ammo sim_ops None [] test_env test_trainer) \<and>
   \<not> tr_ammo_frozen (fold (trainer_step sim_ops test_floats test_env) [Action None [] Act_ammo]
       (trigger_ammo sim_ops None [] test_env (trigger_ammo sim_ops None [] test_env test_trainer)))"
proof -
  note R = test_ready [unfolded trainer_ready_def]
  have "sim_memory (ses_backend (tr_session test_trainer)) = test_memory"
    by (simp add: test_trainer_def open_session_def)
  moreover have off: "\<not> tr_ammo_frozen test_trainer" "tr_freeze test_trainer = FreezeManager_new True"
    by (simp_all add: test_trainer_def)
  ultimately have "tr_ammo_frozen (trigger_ammo sim_ops None [] test_env test_trainer)"
    using R by (intro sim.trigger_ammo_on(3)) auto
  then show ?thesis
    using ammo_toggle_once [OF off(1), of sim_ops None "[]" test_env test_floats "[Action None [] Act_ammo]" None "[]"]
    by simp
qed

section \<open>Hotkeys\<close>

text \<open>Polling the bindings over a sequence of keyboard states.\<close>

fun poll_keys :: "(32 word \<Rightarrow> bool) list \<Rightarrow> hotkey_binding list \<Rightarrow> trainer_action list" where
  "poll_keys [] bs = []"
| "poll_keys (down # downs) bs = (case scan_bindings down bs of (acts, bs') \<Rightarrow> acts @ poll_keys downs bs')"

fun rising_edges :: "bool \<Rightarrow> bool list \<Rightarrow> nat" where
  "rising_edges prev [] = 0"
| "rising_edges prev (d # ds) = (if d \<and> \<not> prev then 1 else 0) + rising_edges d ds"

lemma scan_bindings_parts:
  "fst (scan_bindings down bs) = concat (map (\<lambda>b. if is_combo_down down (hb_keys b) \<and> \<not> hb_prev_down b then [hb_action b] else []) bs)"
  "snd (scan_bindings down bs) = map (\<lambda>b. if hb_keys b = [] then b else b\<lparr>hb_prev_down := is_combo_down down (hb_keys b)\<rparr>) bs"
  by (induction bs) (simp_all add: case_prod_beta Let_def is_combo_down_def)

text \<open>
  a global hotkey triggers its action once for each time its keys go down together: over any
  sequence of polls the number of times an action is triggered is the number of rising edges of
  its bindings' combinations, summed over the bindings of that action. A held combination does
  not repeat, an empty one never fires, and one binding never hides another.
\<close>

theorem hotkeys_fire_on_rising_edges:
  "count_list (poll_keys downs bs) act =
     (\<Sum>b \<leftarrow> filter (\<lambda>b. hb_action b = act \<and> hb_keys b \<noteq> []) bs.
        rising_edges (hb_prev_down b) (map (\<lambda>down. list_all down (hb_keys b)) downs))"
proof (induction downs arbitrary: bs)
  case Nil
  show ?case by (induction bs) simp_all
next
  case (Cons down downs)
  have "count_list (poll_keys (down # downs) bs) act = count_list (fst (scan_bindings down bs)) act +
      (\<Sum>b \<leftarrow> filter (\<lambda>b. hb_action b = act \<and> hb_keys b \<noteq> []) (snd (scan_bindings down bs)).
        rising_edges (hb_prev_down b) (map (\<lambda>down. list_all down (hb_keys b)) downs))"
    by (simp add: case_prod_beta Cons.IH)
  also have "\<dots> = (\<Sum>b \<leftarrow> filter (\<lambda>b. hb_action b = act \<and> hb_keys b \<noteq> []) bs.
        rising_edges (hb_prev_down b) (map (\<lambda>down. list_all down (hb_keys b)) (down # downs)))"
    unfolding scan_bindings_parts by (induction bs) (auto simp: is_combo_down_def)
  finally show ?case .
qed

end
