(* ===== verification/Discovery.thy ===== *)
theory Discovery
  imports Core_Types
begin

text \<open>
  Finding a game: \<open>include/gtlibcpp/windows_discovery.hpp\<close> and the discovery functions of
  \<open>src/darwin_backend.cpp\<close>. What the operating system answers (the process snapshot, the memory
  map, the paths) is a parameter of each function.
\<close>

section \<open>Processes on Windows\<close>

text \<open>\<open>_stricmp\<close> compares two C strings without regard to the case of ASCII letters.\<close>

definition c_str :: "string \<Rightarrow> string" where
  "c_str s = takeWhile (\<lambda>c. c \<noteq> CHR 0x00) s"

definition stricmp_eq :: "string \<Rightarrow> string \<Rightarrow> bool" where
  "stricmp_eq s t \<longleftrightarrow> map to_lower (c_str s) = map to_lower (c_str t)"

definition wanted_exe :: "string \<Rightarrow> string" where
  "wanted_exe name =
     (if length name < 4 \<or> \<not> stricmp_eq (drop (length name - 4) name) ''.exe'' then name @ ''.exe'' else name)"

fun first_process :: "string \<Rightarrow> (string \<times> u32) list \<Rightarrow> u32" where
  "first_process wanted [] = 0"
| "first_process wanted ((exe, pid) # rest) = (if stricmp_eq exe wanted then pid else first_process wanted rest)"

text \<open>\<open>None\<close> is an invalid snapshot.\<close>

definition find_game_process :: "(string \<times> u32) list option \<Rightarrow> string \<Rightarrow> u32" where
  "find_game_process snapshot executable_name =
     (if executable_name = [] then 0
      else (case snapshot of None \<Rightarrow> 0 | Some procs \<Rightarrow> first_process (wanted_exe executable_name) procs))"

text \<open>\<open>image_name\<close>: \<open>QueryFullProcessImageNameA\<close>, its success and what it wrote.\<close>

definition get_process_image_path :: "(u32 \<Rightarrow> u64) \<Rightarrow> (u64 \<Rightarrow> bool \<times> string) \<Rightarrow> u32 \<Rightarrow> string" where
  "get_process_image_path open_limited image_name pid =
     (if pid = 0 then []
      else (let process = open_limited pid in
        if process = 0 then []
        else (case image_name process of (ok, path) \<Rightarrow> if \<not> ok \<or> path = [] then [] else path)))"

definition get_process_id_from_window :: "(u64 \<Rightarrow> bool) \<Rightarrow> (u64 \<Rightarrow> u32) \<Rightarrow> u64 \<Rightarrow> u32" where
  "get_process_id_from_window is_window window_pid window =
     (if window = 0 \<or> \<not> is_window window then 0 else window_pid window)"

definition find_game_window :: "(string \<Rightarrow> u64) \<Rightarrow> string \<Rightarrow> u64" where
  "find_game_window find_window title = (if title = [] then 0 else find_window title)"

section \<open>Memory regions on Windows\<close>

record memory_basic_information =
  mbi_base :: address
  mbi_size :: u64
  mbi_state :: u32
  mbi_protect :: u32

record memory_region =
  mr_base_address :: address
  mr_region_size :: u64
  mr_is_readable :: bool
  mr_is_writable :: bool
  mr_is_executable :: bool

definition MEM_COMMIT :: u32 where "MEM_COMMIT = 0x1000"
definition PAGE_NOACCESS :: u32 where "PAGE_NOACCESS = 0x01"
definition PAGE_READONLY :: u32 where "PAGE_READONLY = 0x02"
definition PAGE_READWRITE :: u32 where "PAGE_READWRITE = 0x04"
definition PAGE_WRITECOPY :: u32 where "PAGE_WRITECOPY = 0x08"
definition PAGE_EXECUTE :: u32 where "PAGE_EXECUTE = 0x10"
definition PAGE_EXECUTE_READ :: u32 where "PAGE_EXECUTE_READ = 0x20"
definition PAGE_EXECUTE_READWRITE :: u32 where "PAGE_EXECUTE_READWRITE = 0x40"
definition PAGE_EXECUTE_WRITECOPY :: u32 where "PAGE_EXECUTE_WRITECOPY = 0x80"
definition PAGE_GUARD :: u32 where "PAGE_GUARD = 0x100"

definition prot_readable :: "u32 \<Rightarrow> bool" where
  "prot_readable prot \<longleftrightarrow> prot \<in> {PAGE_READONLY, PAGE_READWRITE, PAGE_WRITECOPY, PAGE_EXECUTE_READ,
     PAGE_EXECUTE_READWRITE, PAGE_EXECUTE_WRITECOPY}"

definition prot_writable :: "u32 \<Rightarrow> bool" where
  "prot_writable prot \<longleftrightarrow> prot \<in> {PAGE_READWRITE, PAGE_WRITECOPY, PAGE_EXECUTE_READWRITE, PAGE_EXECUTE_WRITECOPY}"

definition prot_executable :: "u32 \<Rightarrow> bool" where
  "prot_executable prot \<longleftrightarrow> prot \<in> {PAGE_EXECUTE, PAGE_EXECUTE_READ, PAGE_EXECUTE_READWRITE, PAGE_EXECUTE_WRITECOPY}"

definition usable_page :: "bool \<Rightarrow> u32 \<Rightarrow> u32 \<Rightarrow> bool" where
  "usable_page writable_only st protect \<longleftrightarrow>
     st AND MEM_COMMIT \<noteq> 0 \<and> protect AND PAGE_GUARD = 0 \<and> protect AND PAGE_NOACCESS = 0 \<and>
     prot_readable (protect AND 0xFF) \<and> (\<not> writable_only \<or> prot_writable (protect AND 0xFF))"

definition region_of :: "bool \<Rightarrow> memory_basic_information \<Rightarrow> memory_region list" where
  "region_of writable_only mbi =
     (let prot = mbi_protect mbi AND 0xFF in
      if usable_page writable_only (mbi_state mbi) (mbi_protect mbi)
      then [\<lparr>mr_base_address = mbi_base mbi, mr_region_size = mbi_size mbi, mr_is_readable = prot_readable prot,
             mr_is_writable = prot_writable prot, mr_is_executable = prot_executable prot\<rparr>]
      else [])"

text \<open>The loop over \<open>VirtualQueryEx\<close>; it ends because \<open>current\<close> grows.\<close>

function regions_from ::
  "(address \<Rightarrow> memory_basic_information option) \<Rightarrow> bool \<Rightarrow> address \<Rightarrow> memory_region list" where
  "regions_from query writable_only current =
     (case query current of
        None \<Rightarrow> []
      | Some mbi \<Rightarrow>
          (let nxt = mbi_base mbi + mbi_size mbi
           in region_of writable_only mbi @ (if nxt \<le> current then [] else regions_from query writable_only nxt)))"
  by pat_completeness auto
termination
  by (relation "measure (\<lambda>(_, _, current). 2 ^ 64 - unat current)")
    (auto simp: word_le_nat_alt not_le intro!: diff_less_mono2)

definition enumerate_memory_regions ::
  "(u64 \<Rightarrow> address \<Rightarrow> memory_basic_information option) \<Rightarrow> u64 \<Rightarrow> bool \<Rightarrow> memory_region list" where
  "enumerate_memory_regions query process writable_only =
     (if process = 0 then [] else regions_from (query process) writable_only 0)"

definition PROCESS_QUERY_LIMITED_INFORMATION :: u32 where "PROCESS_QUERY_LIMITED_INFORMATION = 0x1000"

definition enumerate_process_regions ::
  "(u32 \<Rightarrow> u32 \<Rightarrow> u64) \<Rightarrow> (u64 \<Rightarrow> address \<Rightarrow> memory_basic_information option) \<Rightarrow> u32 \<Rightarrow> bool
     \<Rightarrow> memory_region list" where
  "enumerate_process_regions open_process query pid writable_only =
     (if pid = 0 then []
      else (let process = open_process (0x0400 OR 0x0010) pid;
                process = (if process = 0 then open_process PROCESS_QUERY_LIMITED_INFORMATION pid else process)
            in if process = 0 then [] else enumerate_memory_regions query process writable_only))"

declare regions_from.simps [simp del]

text \<open>
  The documented behaviour of \<open>VirtualQueryEx\<close> on an address space whose pages have the
  attributes \<open>pages\<close> (\<open>None\<close> beyond its end): the answer describes a range of pages of equal
  attributes around the address, and there is none only when nothing follows.
\<close>

definition memory_map_api ::
  "(address \<Rightarrow> memory_basic_information option) \<Rightarrow> (address \<Rightarrow> (u32 \<times> u32) option) \<Rightarrow> bool" where
  "memory_map_api query pages \<longleftrightarrow>
     (\<forall>a m. query a = Some m \<longrightarrow> unat (mbi_base m) \<le> unat a \<and> unat a < unat (mbi_base m) + unat (mbi_size m) \<and>
        unat (mbi_base m) + unat (mbi_size m) \<le> 2 ^ 64 \<and>
        (\<forall>x. unat (mbi_base m) \<le> unat x \<longrightarrow> unat x < unat (mbi_base m) + unat (mbi_size m) \<longrightarrow>
           pages x = Some (mbi_state m, mbi_protect m))) \<and>
     (\<forall>a x. query a = None \<longrightarrow> a \<le> x \<longrightarrow> pages x = None)"

definition in_region :: "memory_region \<Rightarrow> address \<Rightarrow> bool" where
  "in_region r x \<longleftrightarrow> unat (mr_base_address r) \<le> unat x \<and> unat x < unat (mr_base_address r) + unat (mr_region_size r)"

definition usable_address :: "(address \<Rightarrow> (u32 \<times> u32) option) \<Rightarrow> bool \<Rightarrow> address \<Rightarrow> bool" where
  "usable_address pages writable_only x \<longleftrightarrow>
     (case pages x of None \<Rightarrow> False | Some (st, protect) \<Rightarrow> usable_page writable_only st protect)"

lemma region_of_in:
  "(\<exists>r \<in> set (region_of w m). in_region r x) \<longleftrightarrow> usable_page w (mbi_state m) (mbi_protect m) \<and>
     unat (mbi_base m) \<le> unat x \<and> unat x < unat (mbi_base m) + unat (mbi_size m)"
  by (simp add: region_of_def in_region_def Let_def)

lemma regions_from_exact:
  assumes "memory_map_api query pages"
  shows "((\<exists>r \<in> set (regions_from query w current). in_region r x) \<longrightarrow> usable_address pages w x) \<and>
    (current \<le> x \<longrightarrow> usable_address pages w x \<longrightarrow> (\<exists>r \<in> set (regions_from query w current). in_region r x))"
  using assms
proof (induction query w current rule: regions_from.induct)
  case (1 query w current)
  note L = 1(2) [unfolded memory_map_api_def]
  show ?case
  proof (cases "query current")
    case None
    then have "current \<le> x \<longrightarrow> pages x = None" using L by blast
    then show ?thesis using None by (simp add: regions_from.simps [of _ _ current] usable_address_def)
  next
    case (Some m)
    let ?n = "mbi_base m + mbi_size m" and ?e = "unat (mbi_base m) + unat (mbi_size m)"
    have m: "unat (mbi_base m) \<le> unat current" "unat current < ?e" "?e \<le> 2 ^ 64"
      "\<And>y. unat (mbi_base m) \<le> unat y \<Longrightarrow> unat y < ?e \<Longrightarrow> pages y = Some (mbi_state m, mbi_protect m)"
      using L Some by blast+
    have here: "usable_address pages w y \<longleftrightarrow> usable_page w (mbi_state m) (mbi_protect m)"
      if "unat (mbi_base m) \<le> unat y" "unat y < ?e" for y
      using m(4) [OF that] by (simp add: usable_address_def)
    have nxt: "unat ?n = ?e mod 2 ^ 64" by (simp add: unat_word_ariths)
    show ?thesis
    proof (cases "?n \<le> current")
      case True
      then have "?e = 2 ^ 64"
        using nxt m(2,3) by (cases "?e < 2 ^ 64") (auto simp: word_le_nat_alt)
      moreover have "regions_from query w current = region_of w m"
        using True Some by (simp add: regions_from.simps [of _ _ current] Let_def)
      ultimately show ?thesis
        using here [of x] m(1,2) by (auto simp: region_of_in word_le_nat_alt)
    next
      case False
      then have e: "unat ?n = ?e"
        using nxt m(2,3) by (cases "?e < 2 ^ 64") (auto simp: word_le_nat_alt)
      have rec: "regions_from query w current = region_of w m @ regions_from query w ?n"
        using False Some by (simp add: regions_from.simps [of _ _ current] Let_def)
      have IH: "((\<exists>r \<in> set (regions_from query w ?n). in_region r x) \<longrightarrow> usable_address pages w x) \<and>
          (?n \<le> x \<longrightarrow> usable_address pages w x \<longrightarrow> (\<exists>r \<in> set (regions_from query w ?n). in_region r x))"
        by (rule 1(1) [OF Some refl False 1(2)])
      have split: "(\<exists>r \<in> set (regions_from query w current). in_region r x) \<longleftrightarrow>
          (usable_page w (mbi_state m) (mbi_protect m) \<and> unat (mbi_base m) \<le> unat x \<and> unat x < ?e) \<or>
          (\<exists>r \<in> set (regions_from query w ?n). in_region r x)"
        unfolding rec region_of_in [symmetric] by auto
      show ?thesis
        unfolding split using IH here [of x] m(1) e by (cases "unat x < ?e") (auto simp: word_le_nat_alt)
    qed
  qed
qed

text \<open>
  C37: the enumeration of a process's memory regions ends, and, over a system that answers
  \<open>VirtualQueryEx\<close> as documented, an address lies in an enumerated region exactly when its page
  is committed, readable, not a guard page and, if asked for, writable: no usable memory is
  missed, none is invented, up to the last byte of the address space.
\<close>

theorem regions_exact:
  assumes "memory_map_api (query process) pages" and "process \<noteq> 0"
  shows "(\<exists>r \<in> set (enumerate_memory_regions query process writable_only). in_region r x) \<longleftrightarrow>
     usable_address pages writable_only x"
  using regions_from_exact [OF assms(1), of writable_only 0 x] assms(2)
  by (auto simp: enumerate_memory_regions_def)

text \<open>Two regions: free memory up to 0x10000, then read-write memory to the end.\<close>

definition two_regions :: "address \<Rightarrow> memory_basic_information option" where
  "two_regions a = Some (if a < 0x10000
     then \<lparr>mbi_base = 0, mbi_size = 0x10000, mbi_state = 0x10000, mbi_protect = 1\<rparr>
     else \<lparr>mbi_base = 0x10000, mbi_size = - 0x10000, mbi_state = 0x1000, mbi_protect = 4\<rparr>)"

lemma two_regions_api:
  "memory_map_api two_regions (\<lambda>x. Some (if x < 0x10000 then (0x10000, 1) else (0x1000, 4)))"
proof -
  have "unat (- 0x10000 :: u64) = 2 ^ 64 - 0x10000" by (simp add: unat_word_ariths)
  then show ?thesis
    by (auto simp: memory_map_api_def two_regions_def word_less_nat_alt not_less split: if_splits)
qed

theorem regions_exact_witness:
  "(\<exists>r \<in> set (enumerate_memory_regions (\<lambda>p. two_regions) 1 True). in_region r 0xFFFF0000)"
  using regions_exact [of "\<lambda>p. two_regions" 1, OF two_regions_api, of True "0xFFFF0000"]
  by (simp add: usable_address_def usable_page_def prot_readable_def prot_writable_def MEM_COMMIT_def
      PAGE_GUARD_def PAGE_NOACCESS_def PAGE_READWRITE_def)

section \<open>Processes and modules on macOS\<close>

text \<open>The part after the last slash.\<close>

definition base_name :: "string \<Rightarrow> string" where
  "base_name path = rev (takeWhile (\<lambda>c. c \<noteq> CHR ''/'') (rev path))"

definition name_matches :: "string \<Rightarrow> string \<Rightarrow> bool" where
  "name_matches filename name \<longleftrightarrow> filename = name \<or>
     (take (length name) filename = name \<and> \<not> contains ''trainer'' filename)"

fun first_darwin_process :: "(int \<Rightarrow> string option) \<Rightarrow> int \<Rightarrow> string list \<Rightarrow> int list \<Rightarrow> int" where
  "first_darwin_process pid_path self names [] = 0"
| "first_darwin_process pid_path self names (pid # pids) =
     (if pid \<le> 0 \<or> pid = self then first_darwin_process pid_path self names pids
      else (case pid_path pid of
              None \<Rightarrow> first_darwin_process pid_path self names pids
            | Some path \<Rightarrow>
                (if list_ex (name_matches (base_name path)) names then pid
                 else first_darwin_process pid_path self names pids)))"

text \<open>\<open>list_pids capacity\<close>: the bytes \<open>proc_listpids\<close> reports and the pids it stored.\<close>

definition find_darwin_process ::
  "(nat \<Rightarrow> int \<times> int list) \<Rightarrow> (int \<Rightarrow> string option) \<Rightarrow> int \<Rightarrow> string list \<Rightarrow> int" where
  "find_darwin_process list_pids pid_path self names =
     (let bytes = fst (list_pids 0) in
      if bytes \<le> 0 then 0
      else (case list_pids (nat bytes div 4 + 64) of
              (bytes, pids) \<Rightarrow>
                (if bytes \<le> 0 then 0
                 else first_darwin_process pid_path self names (take (nat bytes div 4) pids))))"

definition get_darwin_process_path :: "(int \<Rightarrow> string option) \<Rightarrow> int \<Rightarrow> string" where
  "get_darwin_process_path pid_path pid =
     (if pid = 0 then [] else (case pid_path pid of Some path \<Rightarrow> path | None \<Rightarrow> []))"

text \<open>
  The walk over the regions: \<open>region a\<close> is the first region at or after \<open>a\<close> (start and size),
  \<open>region_file a\<close> the file mapped there.
\<close>

partial_function (option) module_walk ::
  "(address \<Rightarrow> (address \<times> u64) option) \<Rightarrow> (address \<Rightarrow> string option) \<Rightarrow> string \<Rightarrow> address \<Rightarrow> address option" where
  "module_walk region region_file target addr =
     (if addr < 0x7fffffffffff then
        (case region addr of
           None \<Rightarrow> Some 0
         | Some (start, sz) \<Rightarrow>
             (if (case region_file start of Some path \<Rightarrow> contains target path | None \<Rightarrow> False) then Some start
              else module_walk region region_file target (start + sz)))
      else Some 0)"

declare module_walk.simps [code]

text \<open>\<open>task_port\<close> is \<open>None\<close> when \<open>task_for_pid\<close> fails.\<close>

definition get_darwin_module_base ::
  "(int \<Rightarrow> u32 option) \<Rightarrow> (int \<Rightarrow> string option) \<Rightarrow> (u32 \<Rightarrow> address \<Rightarrow> (address \<times> u64) option)
     \<Rightarrow> (int \<Rightarrow> address \<Rightarrow> string option) \<Rightarrow> int \<Rightarrow> string \<Rightarrow> address option" where
  "get_darwin_module_base task_port pid_path region region_file pid module_name =
     (if pid = 0 then Some 0
      else (case task_port pid of
              None \<Rightarrow> Some 0
            | Some task \<Rightarrow>
                (let target = (if module_name = [] then base_name (get_darwin_process_path pid_path pid) else module_name)
                 in module_walk (region task) (region_file pid) target 0x1000)))"

text \<open>The documented behaviour of \<open>mach_vm_region\<close>: regions are not empty and do not wrap.\<close>

definition region_api :: "(address \<Rightarrow> (address \<times> u64) option) \<Rightarrow> bool" where
  "region_api region \<longleftrightarrow> (\<forall>a start sz. region a = Some (start, sz) \<longrightarrow>
     unat a < unat start + unat sz \<and> unat start + unat sz < 2 ^ 64)"

lemma module_walk_returns:
  assumes "region_api region"
  shows "\<exists>b. module_walk region region_file target addr = Some b \<and>
    (b \<noteq> 0 \<longrightarrow> (\<exists>a sz path. region a = Some (b, sz) \<and> region_file b = Some path \<and> contains target path))"
proof (induction "2 ^ 64 - unat addr" arbitrary: addr rule: less_induct)
  case less
  show ?case
  proof (cases "addr < 0x7fffffffffff \<and> region addr \<noteq> None")
    case False
    then show ?thesis by (auto simp: module_walk.simps [of _ _ _ addr] simp del: not_None_eq)
  next
    case True
    then obtain start sz where r: "region addr = Some (start, sz)" by auto
    let ?hit = "case region_file start of Some path \<Rightarrow> contains target path | None \<Rightarrow> False"
    have walk: "module_walk region region_file target addr
        = (if ?hit then Some start else module_walk region region_file target (start + sz))"
      using True r by (simp add: module_walk.simps [of _ _ _ addr])
    have "unat addr < unat start + unat sz" "unat start + unat sz < 2 ^ 64"
      using assms r by (auto simp: region_api_def)
    then have "2 ^ 64 - unat (start + sz) < 2 ^ 64 - unat addr"
      by (simp add: unat_word_ariths)
    from less [OF this] show ?thesis
      using r by (cases ?hit) (auto simp: walk split: option.splits)
  qed
qed

text \<open>
  looking for a module of a macOS process always ends (the regions the system reports are not
  empty, so the address grows), and a base other than 0 is the start of a region that is mapped
  from a file whose path contains the module's name.
\<close>

theorem module_base_found:
  assumes "\<And>task. region_api (region task)"
  shows "\<exists>b. get_darwin_module_base task_port pid_path region region_file pid module_name = Some b \<and>
    (b \<noteq> 0 \<longrightarrow> (\<exists>task a sz path. task_port pid = Some task \<and> region task a = Some (b, sz) \<and>
       region_file pid b = Some path \<and>
       contains (if module_name = [] then base_name (get_darwin_process_path pid_path pid) else module_name) path))"
proof (cases "pid = 0 \<or> task_port pid = None")
  case True
  then show ?thesis by (auto simp: get_darwin_module_base_def)
next
  case False
  then obtain task where "task_port pid = Some task" by auto
  then show ?thesis
    using False module_walk_returns [OF assms [of task], where region_file = "region_file pid" and addr = "0x1000"
        and target = "if module_name = [] then base_name (get_darwin_process_path pid_path pid) else module_name"]
    by (simp add: get_darwin_module_base_def Let_def)
qed

definition one_module :: "u32 \<Rightarrow> address \<Rightarrow> (address \<times> u64) option" where
  "one_module task a = (if a < 0x104000 then Some (0x100000, 0x4000) else None)"

lemma one_module_api: "region_api (one_module task)"
  by (auto simp: region_api_def one_module_def word_less_nat_alt split: if_splits)

theorem module_base_found_witness:
  "get_darwin_module_base (\<lambda>p. Some 3) (\<lambda>p. Some ''/Applications/game'') one_module (\<lambda>p a. Some ''/Applications/game'')
     9 [] = Some 0x100000"
proof -
  obtain b where b: "get_darwin_module_base (\<lambda>p. Some 3) (\<lambda>p. Some ''/Applications/game'') one_module
      (\<lambda>p a. Some ''/Applications/game'') 9 [] = Some b"
    using module_base_found [of one_module "\<lambda>p. Some 3" "\<lambda>p. Some ''/Applications/game''"
        "\<lambda>p a. Some ''/Applications/game''" 9 "[]", OF one_module_api] by blast
  moreover have "module_walk (one_module 3) (\<lambda>a. Some ''/Applications/game'') ''game'' 0x1000 = Some 0x100000"
    by (subst module_walk.simps) (simp add: one_module_def)
  ultimately show ?thesis by (simp add: get_darwin_module_base_def get_darwin_process_path_def base_name_def)
qed

end
