(* ===== verification/Native_Backends.thy ===== *)
theory Native_Backends
  imports Backend Number_Text
begin

text \<open>
  The backends on operating-system calls: \<open>WindowsBackend\<close> of \<open>src/windows_backend.cpp\<close> and
  \<open>DarwinBackend\<close> of \<open>src/darwin_backend.cpp\<close>. The calls are parameters (a record of functions
  over an opaque state \<open>'o\<close> of the system); what they are documented to do is stated by the
  locales \<open>process_memory\<close> and \<open>task_memory\<close>, sublocales of the contract \<open>memory_backend\<close> that the rest
  of the library is proved against.
\<close>

section \<open>Windows\<close>

type_synonym handle = u64  \<comment> \<open>0 is \<open>nullptr\<close>\<close>

record 'o win_api =
  win_open_process :: "'o \<Rightarrow> u32 \<Rightarrow> u32 \<Rightarrow> handle"
  win_read_memory :: "'o \<Rightarrow> handle \<Rightarrow> address \<Rightarrow> size_t \<Rightarrow> bool \<times> u8 list \<times> size_t"
  win_write_memory :: "'o \<Rightarrow> handle \<Rightarrow> address \<Rightarrow> u8 list \<Rightarrow> (bool \<times> size_t) \<times> 'o"
  win_last_error :: "'o \<Rightarrow> u32"
  win_exit_code :: "'o \<Rightarrow> handle \<Rightarrow> u32 option"
  win_creation_time :: "'o \<Rightarrow> handle \<Rightarrow> (u32 \<times> u32) option"  \<comment> \<open>low, high\<close>
  win_read_file :: "'o \<Rightarrow> string \<Rightarrow> u8 list option list option"  \<comment> \<open>opening, then each \<open>ReadFile\<close>\<close>
  win_hash_provider :: "'o \<Rightarrow> bool"
  win_hash_create :: "'o \<Rightarrow> bool"
  win_sha256 :: "u8 list \<Rightarrow> u8 list"

record windows_options =
  wo_pid :: u32
  wo_image_path :: string
  wo_architecture :: architecture
  wo_read_only :: bool
  wo_desired_access :: u32

definition PROCESS_VM_OPERATION :: u32 where "PROCESS_VM_OPERATION = 0x0008"
definition PROCESS_VM_READ :: u32 where "PROCESS_VM_READ = 0x0010"
definition PROCESS_VM_WRITE :: u32 where "PROCESS_VM_WRITE = 0x0020"
definition PROCESS_QUERY_INFORMATION :: u32 where "PROCESS_QUERY_INFORMATION = 0x0400"
definition STILL_ACTIVE :: u32 where "STILL_ACTIVE = 259"

definition windows_access :: "windows_options \<Rightarrow> u32" where
  "windows_access opt =
     (if wo_read_only opt then PROCESS_VM_READ OR PROCESS_QUERY_INFORMATION
      else if wo_desired_access opt \<noteq> 0 then wo_desired_access opt
      else PROCESS_VM_READ OR PROCESS_VM_WRITE OR PROCESS_VM_OPERATION OR PROCESS_QUERY_INFORMATION)"

definition query_start_time :: "'o win_api \<Rightarrow> 'o \<Rightarrow> handle \<Rightarrow> u64" where
  "query_start_time api os h =
     (if h = 0 then 0
      else (case win_creation_time api os h of
              None \<Rightarrow> 0
            | Some (low, high) \<Rightarrow> ucast low OR push_bit 32 (ucast high)))"

text \<open>What the read loop feeds to the hash: it stops at a failure or an empty read.\<close>

fun hash_input :: "u8 list option list \<Rightarrow> u8 list" where
  "hash_input [] = []"
| "hash_input (None # _) = []"
| "hash_input (Some got # rest) = (if got = [] then [] else got @ hash_input rest)"

definition digest_char :: "nat \<Rightarrow> char" where
  "digest_char n = ''0123456789abcdef'' ! n"

definition digest_hex :: "u8 list \<Rightarrow> string" where
  "digest_hex digest = concat (map (\<lambda>b. [digest_char (unat b div 16), digest_char (unat b mod 16)]) digest)"

definition query_image_sha256 :: "'o win_api \<Rightarrow> 'o \<Rightarrow> string \<Rightarrow> string" where
  "query_image_sha256 api os image_path =
     (if image_path = [] then []
      else (case win_read_file api os image_path of
              None \<Rightarrow> []
            | Some reads \<Rightarrow>
                (if \<not> win_hash_provider api os then []
                 else if \<not> win_hash_create api os then []
                 else digest_hex (win_sha256 api (hash_input reads)))))"

record 'o windows_backend =
  wb_os :: 'o
  wb_options :: windows_options
  wb_handle :: handle
  wb_identity :: target_identity

definition WindowsBackend_new :: "'o win_api \<Rightarrow> 'o \<Rightarrow> windows_options \<Rightarrow> 'o windows_backend" where
  "WindowsBackend_new api os opt =
     (let h = win_open_process api os (windows_access opt) (wo_pid opt)
      in \<lparr>wb_os = os, wb_options = opt, wb_handle = h,
          wb_identity = \<lparr>ti_pid = wo_pid opt, ti_start_time = (if h \<noteq> 0 then query_start_time api os h else 0),
            ti_image_path = wo_image_path opt, ti_image_sha256 = query_image_sha256 api os (wo_image_path opt),
            ti_architecture = wo_architecture opt\<rparr>\<rparr>)"

definition windows_read ::
  "'o win_api \<Rightarrow> 'o windows_backend \<Rightarrow> address \<Rightarrow> size_t \<Rightarrow> u8 list result outcome \<times> 'o windows_backend" where
  "windows_read api b a n =
     (let fail = (\<lambda>c m k. (Returned (failure (make_error_full c m ''WindowsBackend::read'' a k
            (win_last_error api (wb_os b)) [])), b))
      in if wb_handle b = 0 then fail EC_not_connected ''OpenProcess failed for pid'' n
         else (case win_read_memory api (wb_os b) (wb_handle b) a n of
                 (ok, buffer, bytes_read) \<Rightarrow>
                   (if \<not> ok then fail EC_read_failed ''ReadProcessMemory failed'' n
                    else if bytes_read \<noteq> n
                    then fail EC_partial_read ''ReadProcessMemory returned fewer bytes than requested'' bytes_read
                    else (Returned (success buffer), b))))"

definition windows_write ::
  "'o win_api \<Rightarrow> 'o windows_backend \<Rightarrow> address \<Rightarrow> u8 list \<Rightarrow> size_t result outcome \<times> 'o windows_backend" where
  "windows_write api b a bytes =
     (let n = of_nat (length bytes);
          fail = (\<lambda>b c m k. (Returned (failure (make_error_full c m ''WindowsBackend::write'' a k
            (win_last_error api (wb_os b)) [])), b))
      in if wb_handle b = 0 then fail b EC_not_connected ''OpenProcess failed for pid'' n
         else (case win_write_memory api (wb_os b) (wb_handle b) a bytes of
                 ((ok, written), os') \<Rightarrow>
                   (let b' = b\<lparr>wb_os := os'\<rparr>
                    in if \<not> ok then fail b' EC_write_failed ''WriteProcessMemory failed'' n
                       else if written \<noteq> n
                       then fail b' EC_partial_write ''WriteProcessMemory returned fewer bytes than requested'' written
                       else (Returned (success written), b'))))"

definition windows_is_alive :: "'o win_api \<Rightarrow> 'o windows_backend \<Rightarrow> bool" where
  "windows_is_alive api b =
     (if wb_handle b = 0 then False
      else (case win_exit_code api (wb_os b) (wb_handle b) of None \<Rightarrow> False | Some c \<Rightarrow> c = STILL_ACTIVE))"

definition windows_target_id :: "'o windows_backend \<Rightarrow> string" where
  "windows_target_id b = ''pid:'' @ show_nat (unat (wo_pid (wb_options b)))"

definition windows_ops :: "'o win_api \<Rightarrow> 'o windows_backend backend_ops" where
  "windows_ops api = \<lparr>be_read = windows_read api, be_write = windows_write api,
     be_is_alive = windows_is_alive api, be_target_id = windows_target_id, be_identity = wb_identity\<rparr>"

definition windows_memory :: "('o \<Rightarrow> handle \<Rightarrow> mem) \<Rightarrow> 'o windows_backend \<Rightarrow> mem" where
  "windows_memory mem b = (if wb_handle b = 0 then (\<lambda>_. None) else mem (wb_os b) (wb_handle b))"

text \<open>
  The documented behaviour of \<open>ReadProcessMemory\<close> and \<open>WriteProcessMemory\<close>: a read of a mapped
  range succeeds, a success transfers the whole range, a failed write changes nothing.
  \<open>mem os h\<close> is the memory of the process behind a handle.
\<close>

locale process_memory =
  fixes api :: "'o win_api"
    and mem :: "'o \<Rightarrow> handle \<Rightarrow> mem"
  assumes read_mapped: "valid_request a (unat n) \<Longrightarrow> mem_slice (mem os h) a (unat n) = Some bs \<Longrightarrow>
          win_read_memory api os h a n = (True, bs, n)"
    and read_true: "win_read_memory api os h a n = (True, bs, n) \<Longrightarrow> mem_slice (mem os h) a (unat n) = Some bs"
    and write_true: "win_write_memory api os h a bs = ((True, n), os') \<Longrightarrow>
          n = of_nat (length bs) \<and> mem os' h = mem_store (mem os h) a bs"
    and write_false: "win_write_memory api os h a bs = ((False, n), os') \<Longrightarrow> mem os' h = mem os h"

lemma windows_read_result:
  "fst (windows_read api b a n) = Returned (Inr bs) \<longleftrightarrow>
     wb_handle b \<noteq> 0 \<and> win_read_memory api (wb_os b) (wb_handle b) a n = (True, bs, n)"
  "snd (windows_read api b a n) = b"
  by (auto simp: windows_read_def Let_def split: prod.split)

lemma windows_write_cases:
  obtains (stored) os' n where "wb_handle b \<noteq> 0" "n = of_nat (length bs)"
    "win_write_memory api (wb_os b) (wb_handle b) a bs = ((True, n), os')"
    "windows_write api b a bs = (Returned (Inr n), b\<lparr>wb_os := os'\<rparr>)"
  | (closed) e where "wb_handle b = 0" "windows_write api b a bs = (Returned (Inl e), b)"
  | (partly) e n os' where "wb_handle b \<noteq> 0" "n \<noteq> of_nat (length bs)"
    "win_write_memory api (wb_os b) (wb_handle b) a bs = ((True, n), os')"
    "windows_write api b a bs = (Returned (Inl e), b\<lparr>wb_os := os'\<rparr>)"
  | (failed) e n os' where "wb_handle b \<noteq> 0"
    "win_write_memory api (wb_os b) (wb_handle b) a bs = ((False, n), os')"
    "windows_write api b a bs = (Returned (Inl e), b\<lparr>wb_os := os'\<rparr>)"
proof (cases "wb_handle b = 0")
  case True
  then show ?thesis by (intro closed) (simp_all add: windows_write_def Let_def)
next
  case False
  obtain ok n os' where w: "win_write_memory api (wb_os b) (wb_handle b) a bs = ((ok, n), os')"
    by (metis prod.collapse)
  show ?thesis
  proof (cases ok)
    case True
    then show ?thesis using False w
      by (cases "n = of_nat (length bs)") (auto intro: stored partly simp: windows_write_def Let_def)
  next
    case no: False
    then show ?thesis using False w by (intro failed) (simp_all add: windows_write_def Let_def)
  qed
qed

context process_memory
begin

lemma windows_lawful: "memory_backend (windows_ops api) (windows_memory mem)"
proof
  have ops: "be_read (windows_ops api) = windows_read api" "be_write (windows_ops api) = windows_write api"
    by (simp_all add: windows_ops_def)
  fix b :: "'o windows_backend" and a :: address and n :: size_t and bs :: "u8 list"
  show "windows_memory mem (snd (be_read (windows_ops api) b a n)) = windows_memory mem b"
    by (simp add: ops windows_read_result)
  show "mem_slice (windows_memory mem b) a (unat n) = Some bs"
    if "fst (be_read (windows_ops api) b a n) = Returned (Inr bs)"
    using that by (auto simp: ops windows_read_result windows_memory_def intro: read_true)
  show "fst (be_read (windows_ops api) b a n) = Returned (Inr bs)"
    if "valid_request a (unat n)" "mem_slice (windows_memory mem b) a (unat n) = Some bs"
  proof (cases "wb_handle b = 0")
    case True
    then have "unat n = 0" using that(2) by (cases "unat n") (simp_all add: windows_memory_def)
    then show ?thesis using that(1) by (simp add: valid_request_def)
  next
    case False
    then show ?thesis using that by (simp add: ops windows_read_result windows_memory_def read_mapped)
  qed
  show "windows_memory mem (snd (be_write (windows_ops api) b a bs)) = mem_store (windows_memory mem b) a (take (unat n) bs)"
    if "length bs < 2 ^ 64" "fst (be_write (windows_ops api) b a bs) = Returned (Inr n)"
  proof (rule windows_write_cases [of b bs api a])
    fix os' k assume w: "wb_handle b \<noteq> 0" "k = of_nat (length bs)"
      "win_write_memory api (wb_os b) (wb_handle b) a bs = ((True, k), os')"
      "windows_write api b a bs = (Returned (Inr k), b\<lparr>wb_os := os'\<rparr>)"
    then have "n = of_nat (length bs)" using that(2) by (simp add: ops)
    then have "unat n = length bs" using unat_of_nat_u64 [OF that(1)] by simp
    then show ?thesis using w write_true [OF w(3)] by (simp add: ops windows_memory_def)
  qed (use that in \<open>simp_all add: ops\<close>)
  show "windows_memory mem (snd (be_write (windows_ops api) b a bs)) = windows_memory mem b"
    if "\<forall>n. fst (be_write (windows_ops api) b a bs) \<noteq> Returned (Inr n)"
    by (rule windows_write_cases [of b bs api a]) (use that in \<open>auto simp: ops windows_memory_def dest: write_true write_false\<close>)
qed

end

sublocale process_memory \<subseteq> windows: memory_backend "windows_ops api" "windows_memory mem"
  by (rule windows_lawful)

text \<open>A system with one process: its memory is the state.\<close>

definition one_process :: "mem win_api" where
  "one_process = \<lparr>win_open_process = (\<lambda>os access pid. if pid = 7 then 1 else 0),
     win_read_memory = (\<lambda>os h a n. if valid_request a (unat n)
        then (case mem_slice os a (unat n) of Some bs \<Rightarrow> (True, bs, n) | None \<Rightarrow> (False, [], 0)) else (False, [], 0)),
     win_write_memory = (\<lambda>os h a bs. ((True, of_nat (length bs)), mem_store os a bs)),
     win_last_error = (\<lambda>os. 299), win_exit_code = (\<lambda>os h. Some STILL_ACTIVE),
     win_creation_time = (\<lambda>os h. None), win_read_file = (\<lambda>os path. None), win_hash_provider = (\<lambda>os. False),
     win_hash_create = (\<lambda>os. False), win_sha256 = (\<lambda>bs. [])\<rparr>"

interpretation one: process_memory one_process "\<lambda>os h. os"
  by unfold_locales (auto simp: one_process_def split: option.splits if_splits)



section \<open>macOS\<close>

type_synonym port = u32  \<comment> \<open>0 is \<open>MACH_PORT_NULL\<close>\<close>
type_synonym kern_return = "32 word"  \<comment> \<open>0 is \<open>KERN_SUCCESS\<close>\<close>

record 'o mach_api =
  mach_vm_read :: "'o \<Rightarrow> port \<Rightarrow> address \<Rightarrow> size_t \<Rightarrow> kern_return \<times> u8 list \<times> u64"
  mach_vm_write :: "'o \<Rightarrow> port \<Rightarrow> address \<Rightarrow> u8 list \<Rightarrow> kern_return \<times> 'o"
  mach_kill_0 :: "'o \<Rightarrow> u32 \<Rightarrow> int"
  mach_task_for_pid :: "'o \<Rightarrow> u32 \<Rightarrow> kern_return \<times> port"

record darwin_options =
  do_pid :: u32
  do_image_path :: string
  do_architecture :: architecture
  do_read_only :: bool

record 'o darwin_backend =
  db_os :: 'o
  db_pid :: u32
  db_task_port :: port
  db_image_path :: string
  db_arch :: architecture
  db_read_only :: bool

definition make_darwin_backend :: "'o mach_api \<Rightarrow> 'o \<Rightarrow> darwin_options \<Rightarrow> 'o darwin_backend option" where
  "make_darwin_backend api os opt =
     (if do_pid opt = 0 then None
      else (case mach_task_for_pid api os (do_pid opt) of
              (kr, task_port) \<Rightarrow>
                (if kr \<noteq> 0 \<or> task_port = 0 then None
                 else Some \<lparr>db_os = os, db_pid = do_pid opt, db_task_port = task_port, db_image_path = do_image_path opt,
                        db_arch = do_architecture opt, db_read_only = do_read_only opt\<rparr>)))"

definition kr_text :: "string \<Rightarrow> kern_return \<Rightarrow> string" where
  "kr_text what kr = what @ '' failed (kr='' @ show_int (sint kr) @ '')''"

definition darwin_read ::
  "'o mach_api \<Rightarrow> 'o darwin_backend \<Rightarrow> address \<Rightarrow> size_t \<Rightarrow> u8 list result outcome \<times> 'o darwin_backend" where
  "darwin_read api b a n =
     (case validate_read_request a n of
        Inl e \<Rightarrow> (Returned (failure e), b)
      | Inr _ \<Rightarrow>
          (case mach_vm_read api (db_os b) (db_task_port b) a n of
             (kr, buffer, read_bytes) \<Rightarrow>
               (if kr \<noteq> 0 \<or> read_bytes \<noteq> n
                then (Returned (failure (make_error EC_read_failed (kr_text ''mach_vm_read_overwrite'' kr)
                        ''DarwinBackend.read'' a n)), b)
                else (Returned (success buffer), b))))"

definition darwin_write ::
  "'o mach_api \<Rightarrow> 'o darwin_backend \<Rightarrow> address \<Rightarrow> u8 list \<Rightarrow> size_t result outcome \<times> 'o darwin_backend" where
  "darwin_write api b a bytes =
     (let n = of_nat (length bytes) in
      case validate_write_request a n of
        Inl e \<Rightarrow> (Returned (failure e), b)
      | Inr _ \<Rightarrow>
          (if db_read_only b
           then (Returned (failure (make_error EC_policy_denied ''DarwinBackend is opened read-only''
                   ''DarwinBackend.write'' a n)), b)
           else (case mach_vm_write api (db_os b) (db_task_port b) a bytes of
                   (kr, os') \<Rightarrow>
                     (let b' = b\<lparr>db_os := os'\<rparr>
                      in if kr \<noteq> 0
                         then (Returned (failure (make_error EC_write_failed (kr_text ''mach_vm_write'' kr)
                                 ''DarwinBackend.write'' a n)), b')
                         else (Returned (success n), b')))))"

definition darwin_is_alive :: "'o mach_api \<Rightarrow> 'o darwin_backend \<Rightarrow> bool" where
  "darwin_is_alive api b = (if db_pid b = 0 then False else mach_kill_0 api (db_os b) (db_pid b) = 0)"

definition darwin_target_id :: "'o darwin_backend \<Rightarrow> string" where
  "darwin_target_id b = ''darwin:'' @ show_nat (unat (db_pid b))"

definition darwin_identity :: "'o darwin_backend \<Rightarrow> target_identity" where
  "darwin_identity b = default_identity\<lparr>ti_pid := db_pid b, ti_image_path := db_image_path b,
     ti_architecture := db_arch b\<rparr>"

definition darwin_ops :: "'o mach_api \<Rightarrow> 'o darwin_backend backend_ops" where
  "darwin_ops api = \<lparr>be_read = darwin_read api, be_write = darwin_write api,
     be_is_alive = darwin_is_alive api, be_target_id = darwin_target_id, be_identity = darwin_identity\<rparr>"

definition darwin_memory :: "('o \<Rightarrow> port \<Rightarrow> mem) \<Rightarrow> 'o darwin_backend \<Rightarrow> mem" where
  "darwin_memory mem b = mem (db_os b) (db_task_port b)"

text \<open>The documented behaviour of \<open>mach_vm_read_overwrite\<close> and \<open>mach_vm_write\<close> on the task of a port.\<close>

locale task_memory =
  fixes api :: "'o mach_api"
    and mem :: "'o \<Rightarrow> port \<Rightarrow> mem"
  assumes read_mapped: "valid_request a (unat n) \<Longrightarrow> mem_slice (mem os p) a (unat n) = Some bs \<Longrightarrow>
          mach_vm_read api os p a n = (0, bs, n)"
    and read_success: "mach_vm_read api os p a n = (0, bs, n) \<Longrightarrow> mem_slice (mem os p) a (unat n) = Some bs"
    and write_success: "mach_vm_write api os p a bs = (0, os') \<Longrightarrow> mem os' p = mem_store (mem os p) a bs"
    and write_failure: "mach_vm_write api os p a bs = (kr, os') \<Longrightarrow> kr \<noteq> 0 \<Longrightarrow> mem os' p = mem os p"

lemma darwin_read_result:
  "fst (darwin_read api b a n) = Returned (Inr bs) \<longleftrightarrow>
     valid_request a (unat n) \<and> mach_vm_read api (db_os b) (db_task_port b) a n = (0, bs, n)"
  "snd (darwin_read api b a n) = b"
  by (cases a n rule: validate_read_cases; auto simp: darwin_read_def split: prod.split)+

lemma darwin_write_cases:
  obtains (stored) os' where "\<not> db_read_only b" "mach_vm_write api (db_os b) (db_task_port b) a bs = (0, os')"
    "darwin_write api b a bs = (Returned (Inr (of_nat (length bs))), b\<lparr>db_os := os'\<rparr>)"
  | (refused) e where "darwin_write api b a bs = (Returned (Inl e), b)"
  | (failed) e kr os' where "mach_vm_write api (db_os b) (db_task_port b) a bs = (kr, os')" "kr \<noteq> 0"
    "darwin_write api b a bs = (Returned (Inl e), b\<lparr>db_os := os'\<rparr>)"
proof (cases "validate_write_request a (of_nat (length bs))")
  case (Inl e)
  then show ?thesis by (intro refused [of e]) (simp add: darwin_write_def)
next
  case (Inr k)
  obtain kr os' where w: "mach_vm_write api (db_os b) (db_task_port b) a bs = (kr, os')" by fastforce
  show ?thesis
  proof (cases "db_read_only b")
    case True
    then show ?thesis using Inr by (intro refused) (simp add: darwin_write_def Let_def)
  next
    case False
    then show ?thesis using Inr w
      by (cases "kr = 0") (auto intro: stored failed simp: darwin_write_def Let_def)
  qed
qed

text \<open>A backend opened read-only never changes the system.\<close>

lemma darwin_read_only: "db_read_only b \<Longrightarrow> snd (darwin_write api b a bs) = b"
  by (simp add: darwin_write_def Let_def split: sum.split)

context task_memory
begin

lemma darwin_lawful: "memory_backend (darwin_ops api) (darwin_memory mem)"
proof
  have ops: "be_read (darwin_ops api) = darwin_read api" "be_write (darwin_ops api) = darwin_write api"
    by (simp_all add: darwin_ops_def)
  fix b :: "'o darwin_backend" and a :: address and n :: size_t and bs :: "u8 list"
  show "darwin_memory mem (snd (be_read (darwin_ops api) b a n)) = darwin_memory mem b"
    by (simp add: ops darwin_read_result)
  show "mem_slice (darwin_memory mem b) a (unat n) = Some bs"
    if "fst (be_read (darwin_ops api) b a n) = Returned (Inr bs)"
    using that by (auto simp: ops darwin_read_result darwin_memory_def intro: read_success)
  show "fst (be_read (darwin_ops api) b a n) = Returned (Inr bs)"
    if "valid_request a (unat n)" "mem_slice (darwin_memory mem b) a (unat n) = Some bs"
    using that by (simp add: ops darwin_read_result darwin_memory_def read_mapped)
  show "darwin_memory mem (snd (be_write (darwin_ops api) b a bs)) = mem_store (darwin_memory mem b) a (take (unat n) bs)"
    if "length bs < 2 ^ 64" "fst (be_write (darwin_ops api) b a bs) = Returned (Inr n)"
    by (rule darwin_write_cases [of b api a bs])
      (use that in \<open>auto simp: ops darwin_memory_def unat_of_nat_u64 dest: write_success\<close>)
  show "darwin_memory mem (snd (be_write (darwin_ops api) b a bs)) = darwin_memory mem b"
    if "\<forall>n. fst (be_write (darwin_ops api) b a bs) \<noteq> Returned (Inr n)"
    by (rule darwin_write_cases [of b api a bs]) (use that in \<open>auto simp: ops darwin_memory_def dest: write_failure\<close>)
qed

end

sublocale task_memory \<subseteq> darwin: memory_backend "darwin_ops api" "darwin_memory mem"
  by (rule darwin_lawful)

text \<open>A system with one task.\<close>

definition one_task :: "mem mach_api" where
  "one_task = \<lparr>mach_vm_read = (\<lambda>os p a n. if valid_request a (unat n)
        then (case mem_slice os a (unat n) of Some bs \<Rightarrow> (0, bs, n) | None \<Rightarrow> (1, [], 0)) else (1, [], 0)),
     mach_vm_write = (\<lambda>os p a bs. (0, mem_store os a bs)), mach_kill_0 = (\<lambda>os pid. 0),
     mach_task_for_pid = (\<lambda>os pid. (0, 1))\<rparr>"

interpretation one_task: task_memory one_task "\<lambda>os p. os"
  by unfold_locales (auto simp: one_task_def split: option.splits if_splits)

end
