(* ===== verification/Trainer_Main.thy ===== *)
theory Trainer_Main
  imports Trainer_Properties Discovery Native_Backends
begin

text \<open>
  The whole program of \<open>tools/gt_trainer_cli.cpp\<close>: attaching to a running game, the real-time
  polling loop, and \<open>main\<close> from the command line to the exit code. What the environment does in
  a run (the files, the system calls, the input, the schedule of the worker threads) is the record
  \<open>cli_run\<close>; the list of polls ends where a signal clears \<open>g_running\<close>.
\<close>

section \<open>Attaching\<close>

text \<open>\<open>as_backend\<close> makes a backend of the operating system one of the backends a session can hold.\<close>

definition attach_windows ::
  "(string \<times> u32) list option \<Rightarrow> (u32 \<Rightarrow> u64) \<Rightarrow> (u64 \<Rightarrow> bool \<times> string) \<Rightarrow> 'o win_api \<Rightarrow> 'o
     \<Rightarrow> ('o windows_backend \<Rightarrow> 'b) \<Rightarrow> 'b option \<times> address" where
  "attach_windows snapshot open_limited image_name api os as_backend =
     (let pid = find_game_process snapshot ''ac_client'' in
      if pid \<noteq> 0
      then (Some (as_backend (WindowsBackend_new api os
                   \<lparr>wo_pid = pid, wo_image_path = get_process_image_path open_limited image_name pid,
                    wo_architecture = Arch_x86, wo_read_only = False, wo_desired_access = 0\<rparr>)), 0)
      else (None, 0))"

text \<open>\<open>None\<close>: the walk over the regions of the game does not end (\<open>module_walk\<close>).\<close>

definition attach_darwin ::
  "(nat \<Rightarrow> int \<times> int list) \<Rightarrow> (int \<Rightarrow> string option) \<Rightarrow> int \<Rightarrow> (int \<Rightarrow> u32 option)
     \<Rightarrow> (u32 \<Rightarrow> address \<Rightarrow> (address \<times> u64) option) \<Rightarrow> (int \<Rightarrow> address \<Rightarrow> string option)
     \<Rightarrow> 'o mach_api \<Rightarrow> 'o \<Rightarrow> ('o darwin_backend \<Rightarrow> 'b) \<Rightarrow> bool \<Rightarrow> ('b option \<times> address) option" where
  "attach_darwin list_pids pid_path self task_port region region_file api os as_backend is_mac =
     (let pid = (if is_mac then find_darwin_process list_pids pid_path self [''assaultcube'', ''ac_client''] else 0) in
      if pid = 0 then Some (None, 0)
      else (case make_darwin_backend api os
                   \<lparr>do_pid = of_int pid, do_image_path = get_darwin_process_path pid_path pid,
                    do_architecture = Arch_x64, do_read_only = False\<rparr> of
              None \<Rightarrow> Some (None, 0)
            | Some b \<Rightarrow>
                map_option (\<lambda>base. (Some (as_backend b), base))
                  (get_darwin_module_base task_port pid_path region region_file pid ''assaultcube'')))"

section \<open>The polling loop\<close>

text \<open>
  What one iteration sees: on Windows which keys are down, the key of the terminal (-1: none),
  whether a second has passed, and how threads start and run meanwhile.
\<close>

record poll =
  pl_down :: "(32 word \<Rightarrow> bool) option"
  pl_key :: int
  pl_tick :: bool
  pl_spawn :: "string option"
  pl_sched :: "string list"
  pl_turns :: "string list"

text \<open>One iteration; \<open>True\<close> when the loop goes on.\<close>

definition poll_iteration ::
  "'b backend_ops \<Rightarrow> float_ops \<Rightarrow> trainer_env \<Rightarrow> poll \<Rightarrow> hotkey_binding list \<times> 'b trainer
     \<Rightarrow> bool \<times> hotkey_binding list \<times> 'b trainer" where
  "poll_iteration ops fl te p bt =
     (let (acts, bs) = (case pl_down p of Some down \<Rightarrow> scan_bindings down (fst bt) | None \<Rightarrow> ([], fst bt));
          tr = fold (perform ops fl (pl_spawn p) (pl_sched p) te) acts (snd bt);
          tr = workers_run ops (pl_turns p) tr;
          act = (if pl_key p = -1 then Act_none else key_action (pl_key p))
      in if act = Act_quit then (False, bs, tr)
         else (let tr = perform ops fl (pl_spawn p) (pl_sched p) te act tr
               in (True, bs, if pl_tick p then status_tick ops te tr else tr)))"

fun polling_loop ::
  "'b backend_ops \<Rightarrow> float_ops \<Rightarrow> trainer_env \<Rightarrow> poll list \<Rightarrow> hotkey_binding list \<times> 'b trainer
     \<Rightarrow> hotkey_binding list \<times> 'b trainer" where
  "polling_loop ops fl te [] bt = bt"
| "polling_loop ops fl te (p # ps) bt =
     (case poll_iteration ops fl te p bt of
        (True, bt') \<Rightarrow> polling_loop ops fl te ps bt'
      | (False, bt') \<Rightarrow> bt')"

section \<open>The program\<close>

record 'b cli_run =
  run_args :: "string list"
  run_default_table :: string  \<comment> \<open>of the platform\<close>
  run_files :: "string \<Rightarrow> string option"
  run_attach :: "bool \<Rightarrow> 'b option \<times> address"
  run_simulated :: "bool \<Rightarrow> 'b"
  run_spawn :: "string option"
  run_sleep :: "string list"
  run_sched :: "string list"
  run_terminal :: bool
  run_lines :: "string list"
  run_polls :: "poll list"
  run_joins :: "string \<Rightarrow> string list"

text \<open>The active loop over the terminal or over piped input, and what follows it.\<close>

definition run_loops ::
  "'b backend_ops \<Rightarrow> float_ops \<Rightarrow> 'b cli_run \<Rightarrow> trainer_entries \<Rightarrow> trainer_env \<Rightarrow> 'b trainer \<Rightarrow> 'b trainer" where
  "run_loops ops fl run te env tr =
     (let tr = snd (read_state ops env tr);
          tr = (if run_terminal run
                then snd (polling_loop ops fl env (run_polls run) (trainer_bindings te, tr))
                else command_loop ops fl (run_spawn run) (run_sched run) env (run_lines run) tr)
      in close_trainer ops (run_joins run) tr)"

text \<open>
  The exit code, and the trainer after the destructor of its manager, which cancels all freezes,
  where \<open>main\<close> came to build one. \<open>None\<close>: the fuel of the XML reader is spent.
\<close>

definition trainer_main ::
  "'b backend_ops \<Rightarrow> float_ops \<Rightarrow> 'b cli_run \<Rightarrow> (int \<times> 'b trainer option) option" where
  "trainer_main ops fl run =
     (case parse_args (run_args run) (run_default_table run) False False of
        Show_usage \<Rightarrow> Some (0, None)
      | Show_version \<Rightarrow> Some (0, None)
      | Unknown_option arg \<Rightarrow> Some (1, None)
      | Run_trainer table_path list_mode test_mode \<Rightarrow>
          (case load_table (run_files run) table_path of
             None \<Rightarrow> None
           | Some (Inl e, table_path) \<Rightarrow> Some (1, None)
           | Some (Inr table, table_path) \<Rightarrow>
               (if list_mode then Some (0, None)
                else (let te = pick_entries table; is_mac = is_mac_target table_path te;
                          (live, live_mac_base) = run_attach run is_mac in
                  case setup_trainer ops (run_simulated run) live live_mac_base te is_mac of
                    None \<Rightarrow> Some (1, None)
                  | Some (env, tr) \<Rightarrow>
                      (let (code, tr) =
                             (if test_mode then run_test ops fl (run_spawn run) (run_sleep run) (run_sched run) env tr
                              else (0, run_loops ops fl run te env tr))
                       in Some (code, Some (close_trainer ops (run_joins run) tr)))))))"

section \<open>Lemmas: the manager of a trainer stays reachable\<close>

definition trainer_reach :: "'b backend_ops \<Rightarrow> 'b trainer \<Rightarrow> bool" where
  "trainer_reach ops tr \<longleftrightarrow> freeze_reach ops (tr_freeze tr, tr_session tr)"

lemma trainer_reach_frame:
  assumes "trainer_reach ops tr" "tr_freeze tr' = tr_freeze tr"
  shows "trainer_reach ops tr'"
  using freeze_reach.client [of ops "tr_freeze tr" "tr_session tr"] assms by (simp add: trainer_reach_def)

lemma reach_write32: "trainer_reach ops tr \<Longrightarrow> trainer_reach ops (write32 ops a v tr)"
  by (rule trainer_reach_frame) simp_all

lemma reach_read_state: "trainer_reach ops tr \<Longrightarrow> trainer_reach ops (snd (read_state ops te tr))"
  by (rule trainer_reach_frame) simp_all

lemma reach_read32: "trainer_reach ops tr \<Longrightarrow> trainer_reach ops (snd (read32 ops a tr))"
  by (rule trainer_reach_frame) simp_all

lemma reach_run_turns: "freeze_reach ops ms \<Longrightarrow> freeze_reach ops (run_turns ops sched ms)"
  by (induction sched arbitrary: ms) (simp_all add: freeze_reach.turn)

lemma reach_workers: "trainer_reach ops tr \<Longrightarrow> trainer_reach ops (workers_run ops sched tr)"
  using reach_run_turns [of ops "(tr_freeze tr, tr_session tr)" sched]
  by (simp add: workers_run_def trainer_reach_def case_prod_beta)

lemma reach_health: "trainer_reach ops tr \<Longrightarrow> trainer_reach ops (trigger_health ops te tr)"
  by (erule trainer_reach_frame) (auto simp: trigger_health_def Let_def split: prod.split sum.split)

lemma reach_jump: "trainer_reach ops tr \<Longrightarrow> trainer_reach ops (trigger_high_jump ops fl te tr)"
  by (erule trainer_reach_frame) (auto simp: trigger_high_jump_def split: prod.split sum.split)

lemma reach_ammo:
  assumes "trainer_reach ops tr"
  shows "trainer_reach ops (trigger_ammo ops spawn sched te tr)"
proof (cases "tr_ammo_frozen tr")
  case True
  obtain r m s where u: "unfreeze ops sched ''ammo_freeze_primary'' (tr_freeze tr, tr_session tr) = (r, m, s)"
    by (metis prod.exhaust)
  with freeze_reach.call_unfreeze [OF assms [unfolded trainer_reach_def], of sched "''ammo_freeze_primary''"] True
  show ?thesis by (simp add: trigger_ammo_def trainer_reach_def)
next
  case False
  obtain r m s where f: "freeze ops spawn (ammo_request te) (tr_freeze tr, tr_session tr) = (r, m, s)"
    by (metis prod.exhaust)
  with freeze_reach.call_freeze [OF assms [unfolded trainer_reach_def], of spawn "ammo_request te"] have "freeze_reach ops (m, s)" by simp
  then have "freeze_reach ops (m, s')" for s' by (rule freeze_reach.client)
  then show ?thesis using False f by (simp add: trigger_ammo_def trainer_reach_def Let_def)
qed

lemma reach_perform: "trainer_reach ops tr \<Longrightarrow> trainer_reach ops (perform ops fl spawn sched te act tr)"
  by (cases act) (simp_all add: perform_def reach_health reach_ammo reach_jump reach_read_state)

lemma reach_performs:
  "trainer_reach ops tr \<Longrightarrow> trainer_reach ops (fold (perform ops fl spawn sched te) acts tr)"
  by (induction acts arbitrary: tr) (simp_all add: reach_perform)

lemma reach_tick: "trainer_reach ops tr \<Longrightarrow> trainer_reach ops (status_tick ops te tr)"
  using reach_read_state [of ops tr te]
  by (cases "read_state ops te tr") (simp add: status_tick_def reach_write32)

lemma reach_close: "trainer_reach ops tr \<Longrightarrow> trainer_reach ops (close_trainer ops joins tr)"
  using freeze_reach.call_cancel [of ops "(tr_freeze tr, tr_session tr)" joins]
  by (simp add: close_trainer_def trainer_reach_def case_prod_beta)

lemma reach_commands:
  "trainer_reach ops tr \<Longrightarrow> trainer_reach ops (command_loop ops fl spawn sched te lines tr)"
  by (induction lines arbitrary: tr) (simp_all add: reach_perform)

lemma reach_poll: "trainer_reach ops (snd bt) \<Longrightarrow> trainer_reach ops (snd (snd (poll_iteration ops fl te p bt)))"
  by (simp add: poll_iteration_def Let_def case_prod_beta reach_performs reach_workers reach_perform reach_tick)

lemma reach_polling:
  "trainer_reach ops (snd bt) \<Longrightarrow> trainer_reach ops (snd (polling_loop ops fl te ps bt))"
proof (induction ps arbitrary: bt)
  case (Cons p ps)
  then show ?case using reach_poll [OF Cons.prems, of fl te p]
    by (auto split: prod.split bool.split)
qed simp

lemma reach_loops: "trainer_reach ops tr \<Longrightarrow> trainer_reach ops (run_loops ops fl run te env tr)"
  by (simp add: run_loops_def Let_def reach_close reach_polling reach_commands reach_read_state)

lemma reach_setup:
  assumes "setup_trainer ops sim_of live base te is_mac = Some (env, tr)"
  shows "trainer_reach ops tr"
proof -
  have "tr_freeze tr = FreezeManager_new True"
    using assms by (auto simp: setup_trainer_def Let_def case_prod_beta split: sum.splits if_splits)
  then show ?thesis by (simp add: trainer_reach_def freeze_reach.init)
qed


lemma reach_restore: "trainer_reach ops tr \<Longrightarrow> trainer_reach ops (restore_state ops te st tr)"
  by (auto simp: restore_state_def Let_def reach_write32 split: sum.split)

lemma reach_test:
  assumes "trainer_reach ops tr"
  shows "trainer_reach ops (snd (run_test ops fl spawn sleep sched te tr))"
  using assms
  by (simp add: run_test_def Let_def case_prod_beta reach_read_state reach_read32 reach_write32 reach_health
      reach_ammo reach_workers reach_jump reach_restore split: sum.split)

section \<open>Lemmas: the program returns\<close>

lemma parse_file_total: "\<exists>r. parse_file files path = Some r"
proof (cases "files path")
  case (Some src)
  obtain r where "parse_root (sanitize src) = Some r" using parse_root_total by metis
  then show ?thesis using Some by (cases r) (simp_all add: parse_file_def parse_string_def)
qed (simp add: parse_file_def)

lemma try_paths_total: "\<exists>r. try_paths files paths e path = Some r"
proof (induction paths arbitrary: e)
  case (Cons alt alts)
  obtain r where "parse_file files alt = Some r" using parse_file_total by metis
  then show ?case using Cons by (cases r) auto
qed simp

lemma load_table_total: "\<exists>r p. load_table files path = Some (r, p)"
proof -
  obtain r where "parse_file files path = Some r" using parse_file_total by metis
  then show ?thesis using try_paths_total by (cases r) (fastforce simp: load_table_def)+
qed

lemma run_test_code: "fst (run_test ops fl spawn sleep sched te tr) \<in> {0, 1}"
  by (simp add: run_test_def Let_def case_prod_beta split: sum.split)

section \<open>Properties of the program\<close>


text \<open>
  C28: the trainer leaves no freeze behind. However the run went (self-test or loops, terminal or
  pipe, any keys, files, game and schedule), after \<open>main\<close> nothing is active, every worker thread is
  joined and has ended, and no schedule changes the game's memory any more.
\<close>

theorem trainer_main_leaves_no_freeze:
  assumes "memory_backend ops mem_of" and "trainer_main ops fl run = Some (code, Some tr)"
  shows "active_count (tr_freeze tr) = 0 \<and>
    (\<forall>i e. entry_of (tr_freeze tr) i = Some e \<longrightarrow> \<not> fe_joinable e \<and> fe_pc e = W_exited) \<and>
    mem_of (ses_backend (tr_session (workers_run ops sched tr))) = mem_of (ses_backend (tr_session tr))"
proof -
  have "\<exists>tr0. trainer_reach ops tr0 \<and> tr = close_trainer ops (run_joins run) tr0"
    using assms(2)
    by (auto simp: trainer_main_def Let_def case_prod_beta dest!: reach_setup
        split: cli_command.splits option.splits sum.splits if_splits intro: reach_test reach_loops)
  then obtain tr0 where tr0: "trainer_reach ops tr0" "tr = close_trainer ops (run_joins run) tr0" by blast
  from cancel_all_quiet [OF assms(1) tr0(1) [unfolded trainer_reach_def], of "run_joins run" sched] tr0(2)
  show ?thesis by (simp add: close_trainer_def workers_run_def case_prod_beta)
qed

section \<open>A concrete run\<close>

definition sandbox_game :: "bool \<Rightarrow> sim_backend" where
  "sandbox_game is_mac = \<lparr>sim_is_64bit = False, sim_memory = store32 (\<lambda>_. None) 0x57E0A8 0x5000\<rparr>"

text \<open>No game runs, the table has no entries; the keys are Ctrl+A (the ammo toggle) and \<open>q\<close>.\<close>

definition sandbox_run :: "sim_backend cli_run" where
  "sandbox_run = \<lparr>run_args = [''--table'', ''t.ct''], run_default_table = [],
     run_files = (\<lambda>_. Some ''<CheatTable><CheatEntries></CheatEntries></CheatTable>''),
     run_attach = (\<lambda>_. (None, 0)), run_simulated = sandbox_game, run_spawn = None, run_sleep = [], run_sched = [],
     run_terminal = True, run_lines = [],
     run_polls = [\<lparr>pl_down = None, pl_key = 1, pl_tick = False, pl_spawn = None, pl_sched = [], pl_turns = []\<rparr>,
                  \<lparr>pl_down = None, pl_key = 113, pl_tick = False, pl_spawn = None, pl_sched = [], pl_turns = []\<rparr>],
     run_joins = (\<lambda>_. [])\<rparr>"

lemma sandbox_table:
  "\<exists>t. load_table (\<lambda>_. Some ''<CheatTable><CheatEntries></CheatEntries></CheatTable>'') ''t.ct'' = Some (Inr t, ''t.ct'') \<and>
     ct_entries t = []"
proof -
  have "map_option (\<lambda>r. case r of Inr t \<Rightarrow> ct_entries t = [] | Inl e \<Rightarrow> False)
      (parse_string ''<CheatTable><CheatEntries></CheatEntries></CheatTable>'') = Some True"
    by code_simp
  then obtain r where r: "parse_string ''<CheatTable><CheatEntries></CheatEntries></CheatTable>'' = Some r"
    "case r of Inr t \<Rightarrow> ct_entries t = [] | Inl e \<Rightarrow> False" by auto
  from r(2) obtain t where "r = Inr t" "ct_entries t = []" by (cases r) auto
  with r(1) show ?thesis by (simp add: load_table_def parse_file_def)
qed

lemma session_read_backend:
  "ses_backend (snd (session_read sim_ops s a :: ('a::len word) result \<times> sim_backend session)) = ses_backend s"
  using sim_read_keeps [of "ses_backend s" a "of_nat (LENGTH('a) div 8)"]
  by (auto simp: session_read_def Let_def add_log_def with_backend_def split: sum.splits prod.splits outcome.splits if_splits)

lemma sandbox_pointer:
  assumes "ses_backend s = sandbox_game False"
  shows "fst (read_pointer sim_ops False s 0x57E0A8) = Inr 0x5000"
    "ses_backend (snd (read_pointer sim_ops False s 0x57E0A8)) = sandbox_game False"
proof -
  have r: "fst (session_read sim_ops s 0x57E0A8 :: u32 result \<times> sim_backend session) = Inr 0x5000"
    using sim.session_read_ok_iff [where ?'a = 32, of s "0x57E0A8" "0x5000"] assms
    by (simp add: sandbox_game_def valid_request_def)
  then obtain s' where s': "session_read sim_ops s 0x57E0A8 = (Inr (0x5000 :: u32), s')" by (metis prod.collapse)
  with session_read_backend [where ?'a = 32, of s "0x57E0A8"] assms have "ses_backend s' = sandbox_game False" by simp
  with s' show "fst (read_pointer sim_ops False s 0x57E0A8) = Inr 0x5000"
    "ses_backend (snd (read_pointer sim_ops False s 0x57E0A8)) = sandbox_game False"
    by (simp_all add: read_pointer_def)
qed

lemma sandbox_chain:
  assumes "ses_backend s = sandbox_game False"
  shows "fst (trainer_resolve_chain sim_ops s 0x57E0A8 [off] False) = Inr (0x5000 + off)"
    "ses_backend (snd (trainer_resolve_chain sim_ops s 0x57E0A8 [off] False)) = sandbox_game False"
proof -
  have w: "chain_is_64bit sim_ops s 0x57E0A8 False = False"
    using assms by (simp add: chain_is_64bit_def sandbox_game_def sim_identity_def)
  obtain s' where "read_pointer sim_ops False s 0x57E0A8 = (Inr 0x5000, s')" "ses_backend s' = sandbox_game False"
    using sandbox_pointer [OF assms] by (metis prod.collapse)
  then show "fst (trainer_resolve_chain sim_ops s 0x57E0A8 [off] False) = Inr (0x5000 + off)"
    "ses_backend (snd (trainer_resolve_chain sim_ops s 0x57E0A8 [off] False)) = sandbox_game False"
    by (simp_all add: trainer_resolve_chain_def w)
qed

lemma sandbox_setup:
  "\<exists>env tr. setup_trainer sim_ops sandbox_game None 0 \<lparr>te_health = None, te_armor = None, te_ammo = None, te_zcord = None\<rparr> False
     = Some (env, tr)"
proof -
  have o1: "ses_backend (open_session sim_ops (sandbox_game False)) = sandbox_game False"
    by (simp add: open_session_def)
  have b: "compute_entry_base 0 False None 0x17E0A8 = 0x57E0A8" "sim_entry_base False None = 0x57E0A8"
    by (simp_all add: compute_entry_base_def default_mod_base_def sim_entry_base_def player_pointer_offset_def)
  show ?thesis
    by (auto simp: setup_trainer_def resolve_entries_def Let_def case_prod_beta b entry_chain_def
        player_pointer_offset_def sandbox_chain o1 split: sum.split)
qed

theorem trainer_main_leaves_no_freeze_witness:
  "\<exists>tr. trainer_main sim_ops test_floats sandbox_run = Some (0, Some tr) \<and> active_count (tr_freeze tr) = 0"
proof -
  obtain t where t: "load_table (\<lambda>_. Some ''<CheatTable><CheatEntries></CheatEntries></CheatTable>'') ''t.ct'' = Some (Inr t, ''t.ct'')"
    "ct_entries t = []" using sandbox_table by blast
  have e: "pick_entries t = \<lparr>te_health = None, te_armor = None, te_ammo = None, te_zcord = None\<rparr>"
    using t(2) by (simp add: pick_entries_def)
  have m: "is_mac_target ''t.ct'' (pick_entries t) = False"
    unfolding e by code_simp
  have "\<exists>tr. trainer_main sim_ops test_floats sandbox_run = Some (0, Some tr)"
    using sandbox_setup t m unfolding e
    by (auto simp: trainer_main_def sandbox_run_def e m)
  then show ?thesis
    using trainer_main_leaves_no_freeze [OF sim.memory_backend_axioms, of test_floats sandbox_run 0] by blast
qed

end
