(* ===== verification/Agent_Roundtrip.thy ===== *)
theory Agent_Roundtrip
  imports Agent_Properties
begin

text \<open>
  A mutation seen from the client: the hexadecimal text of an \<open>apply\<close>, the bytes it stores, and the
  text a \<open>verify\<close> gives back, over any lawful backend.
\<close>

section \<open>Lemmas: lower-case hexadecimal\<close>

definition hex_digits :: string where
  "hex_digits = ''0123456789abcdef''"

lemma hex_digit:
  assumes "c \<in> set hex_digits"
  shows "code_of c \<noteq> 0" "\<not> is_space c" "c \<noteq> CHR ''-''" "c \<noteq> CHR ''+''" "char_digit c < 16"
    "hex_digit_char (char_digit c) = c"
  using assms by (auto simp: hex_digits_def is_space_def char_digit_def is_digit_def hex_digit_char_def)

lemma stoul_hex_pair:
  assumes "a \<in> set hex_digits" "b \<in> set hex_digits"
  shows "stoul 16 (takeWhile (\<lambda>c. code_of c \<noteq> 0) [a, b]) = Some (of_nat (16 * char_digit a + char_digit b))"
  using hex_digit [OF assms(1)] hex_digit [OF assms(2)] by (simp add: stoul_def strto_def Let_def)

lemma nibbles:
  assumes "i < 16" "j < 16"
  shows "unat (drop_bit 4 (of_nat (16 * i + j) :: u8) AND 0xF) = i" "unat ((of_nat (16 * i + j) :: u8) AND 0xF) = j"
proof -
  have m: "x AND 0xF = (x mod 16 :: u8)" for x
    using take_bit_eq_mask [of 4 x] by (simp add: take_bit_eq_mod mask_eq_exp_minus_1)
  have u: "unat (of_nat (16 * i + j) :: u8) = 16 * i + j" using assms by (simp add: unat_of_nat take_bit_eq_mod del: of_nat_add of_nat_mult)
  show "unat (drop_bit 4 (of_nat (16 * i + j) :: u8) AND 0xF) = i"
    using assms u by (simp add: m unat_mod unat_div drop_bit_eq_div)
  show "unat ((of_nat (16 * i + j) :: u8) AND 0xF) = j"
    using assms u by (simp add: m unat_mod)
qed

text \<open>Decoding lower-case hexadecimal text and encoding the bytes gives the text back.\<close>

lemma hex_roundtrip:
  assumes "set h \<subseteq> set hex_digits" "even (length h)"
  obtains bs where "hex_pairs h = Some bs" "hex_encode_lower bs = h" "length bs = length h div 2"
proof -
  have "\<exists>bs. hex_pairs h = Some bs \<and> hex_encode_lower bs = h \<and> length bs = length h div 2"
    using assms
  proof (induction h rule: induct_list012)
    case (3 a b r)
    from 3 obtain bs where bs: "hex_pairs r = Some bs" "hex_encode_lower bs = r" "length bs = length r div 2" by auto
    have ab: "a \<in> set hex_digits" "b \<in> set hex_digits" using "3.prems" by auto
    let ?v = "of_nat (16 * char_digit a + char_digit b) :: u8"
    have "16 * char_digit a + char_digit b < 2 ^ 64" using hex_digit(5) [OF ab(1)] hex_digit(5) [OF ab(2)] by simp
    then have "ucast (of_nat (16 * char_digit a + char_digit b) :: u64) = ?v"
      by (simp add: unsigned_of_nat take_bit_nat_eq_self del: of_nat_add of_nat_mult)
    then have "hex_pairs (a # b # r) = Some (?v # bs)"
      using stoul_hex_pair [OF ab] bs by (simp del: of_nat_add of_nat_mult takeWhile.simps)
    moreover have "hex_encode_lower (?v # bs) = a # b # r"
      using nibbles [OF hex_digit(5) [OF ab(1)] hex_digit(5) [OF ab(2)]] hex_digit(6) ab bs(2)
      by (simp add: hex_encode_lower_def del: of_nat_add of_nat_mult)
    ultimately show ?case using bs(3) by (intro exI [of _ "?v # bs"]) simp
  qed (simp_all add: hex_encode_lower_def)
  then show ?thesis using that by blast
qed

section \<open>Lemmas: a successful \<open>apply\<close>\<close>

context memory_backend
begin

lemma write_bytes_success:
  assumes "write_bytes ops s a bs = (Inr n, s')" "n = of_nat (length bs)" "length bs < 2 ^ 64"
  shows "valid_request a (length bs)" "smem s' = mem_store (smem s) a bs"
proof -
  have u: "unat (of_nat (length bs) :: u64) = length bs" by (rule unat_of_nat_u64 [OF assms(3)])
  obtain r b where rb: "be_write ops (ses_backend s) a bs = (r, b)" by fastforce
  from assms(1) have v: "validate_write_request a (of_nat (length bs)) = success (of_nat (length bs))"
    by (cases a "of_nat (length bs) :: u64" rule: validate_write_cases) (simp_all add: write_bytes_def Let_def)
  then show "valid_request a (length bs)"
    by (cases a "of_nat (length bs) :: u64" rule: validate_write_cases) (simp_all add: u)
  have r: "r = Returned (Inr n)" "s' = s\<lparr>ses_backend := b\<rparr> \<or> ses_backend s' = b"
    using assms(1) v rb by (auto simp: write_bytes_def Let_def split: sum.splits outcome.splits if_splits)
  then have "mem_of b = mem_store (smem s) a bs"
    using write_stored [OF assms(3), of "ses_backend s" a n] rb assms(2) u by simp
  then show "smem s' = mem_store (smem s) a bs" using r by auto
qed

lemma apply_success_stores:
  assumes ap: "on_apply ops ro env ag params = (Returned (JObject [(''bytes_written'', k), (''address'', a)]), ag')"
    and h: "set (json_get_string params ''value_hex'' []) \<subseteq> set hex_digits"
    and len: "length (json_get_string params ''value_hex'' []) < 2 ^ 64"
  obtains bs where "hex_encode_lower bs = json_get_string params ''value_hex'' []"
    "length bs = length (json_get_string params ''value_hex'' []) div 2"
    "valid_request (json_address ro params ''address'') (length bs)"
    "smem (ag_session ag') = mem_store (smem (ag_session ag)) (json_address ro params ''address'') bs"
proof -
  let ?h = "json_get_string params ''value_hex'' []" and ?a = "json_address ro params ''address''"
  have addr: "mr_address (make_request ro params ''apply'') = ?a" by (simp add: make_request_def Let_def)
  have even: "even (length ?h)"
    using ap by (auto simp: on_apply_def Let_def error_response_def error_of_def even_iff_mod_2_eq_zero
        split: option.splits sum.splits prod.splits if_splits)
  obtain bs where bs: "hex_pairs ?h = Some bs" "hex_encode_lower bs = ?h" "length bs = length ?h div 2"
    by (rule hex_roundtrip [OF h even])
  obtain n s where w: "write_bytes ops (ag_session ag) ?a bs = (Inr n, s)" "n = of_nat (length bs)" "ag_session ag' = s"
    using ap bs(1) even by (auto simp: on_apply_def Let_def error_response_def error_of_def addr even_iff_mod_2_eq_zero
        split: option.splits sum.splits prod.splits if_splits)
  have "length bs < 2 ^ 64" using len bs(3) by simp
  from write_bytes_success [OF w(1,2) this] bs w(3) show ?thesis by (intro that [of bs]) simp_all
qed

end

section \<open>Properties\<close>

text \<open>
  C12: what the agent applied is what it verifies, through the JSON text of both: when \<open>apply\<close> answers
  with the bytes it wrote, a \<open>verify\<close> of as many bytes at the same address that follows answers with exactly
  the \<open>value_hex\<close> of the \<open>apply\<close> (lower-case hexadecimal).
\<close>

theorem apply_then_verify:
  assumes "memory_backend ops mem_of"
    and "on_apply ops ro env ag ap = (Returned (JObject [(''bytes_written'', k), (''address'', a)]), ag')"
    and "set (json_get_string ap ''value_hex'' []) \<subseteq> set hex_digits"
    and "length (json_get_string ap ''value_hex'' []) < 2 ^ 64"
    and "json_address ro vp ''address'' = json_address ro ap ''address''"
    and "json_size ro vp ''size'' 4 = of_nat (length (json_get_string ap ''value_hex'' []) div 2)"
  shows "fst (on_verify ops ro ag' vp) = JObject [(''hex'', JString (json_get_string ap ''value_hex'' []))]"
proof (rule memory_backend.apply_success_stores [OF assms(1-4)])
  fix bs
  assume bs: "hex_encode_lower bs = json_get_string ap ''value_hex'' []"
    "length bs = length (json_get_string ap ''value_hex'' []) div 2"
    "valid_request (json_address ro ap ''address'') (length bs)"
    "mem_of (ses_backend (ag_session ag')) = mem_store (mem_of (ses_backend (ag_session ag))) (json_address ro ap ''address'') bs"
  have len: "length bs < 2 ^ 64" using bs(2) assms(4) by simp
  then have u: "unat (of_nat (length bs) :: u64) = length bs" by (rule unat_of_nat_u64)
  have "fst (read_bytes ops (ag_session ag') (json_address ro ap ''address'') (of_nat (length bs))) = Inr bs"
    using memory_backend.read_bytes_ok_iff [OF assms(1), of "ag_session ag'" "json_address ro ap ''address''" "of_nat (length bs)" bs]
      bs(3,4) mem_slice_store [of bs] len by (simp add: u)
  then show ?thesis using assms(5,6) bs(1,2) by (auto simp: on_verify_def split: prod.split)
qed

lemma apply_preview_reply:
  assumes "ag_pending ag (request_id_of params) = Some token"
    and "mr_preview (make_request ro params ''apply'')"
    and "request_admissible (ag_policy ag) (ses_identity (ag_session ag)) (make_request ro params ''apply'')"
    and "hex_pairs (json_get_string params ''value_hex'' []) = Some bs"
    and "even (length (json_get_string params ''value_hex'' []))"
    and "fst (write_bytes ops (ag_session ag) (json_address ro params ''address'') bs) = Inr (of_nat (length bs))"
  shows "fst (on_apply ops ro env ag params) = Returned (JObject [(''bytes_written'', JInt (sint (of_nat (length bs) :: u64))),
    (''address'', JInt (sint (json_address ro params ''address'')))])"
proof -
  let ?r = "make_request ro params ''apply''"
  obtain p where "authorize_with_token (ag_policy ag) (ses_identity (ag_session ag)) ?r (Some token) (env_clock env) = (Inr (), p)"
    by (rule authorize_cases [of "ag_policy ag" "ses_identity (ag_session ag)" ?r "Some token" "env_clock env"])
      (use assms(2,3) in \<open>auto simp: mutation_ready_def\<close>)
  moreover have "mr_address ?r = json_address ro params ''address''" by (simp add: make_request_def Let_def)
  ultimately show ?thesis using assms(1,4-6)
    by (auto simp: on_apply_def Let_def even_iff_mod_2_eq_zero split: prod.split)
qed

definition demo_verify :: "unit json" where
  "demo_verify = JObject [(''address'', JInt 0x1000), (''size'', JInt 2)]"

theorem apply_then_verify_witness:
  "fst (on_verify sim_ops no_reals (snd (on_apply sim_ops no_reals demo_env demo_agent demo_apply)) demo_verify)
     = JObject [(''hex'', JString ''0aff'')]"
proof -
  note params = demo_apply_def demo_verify_def json_get_string_def json_get_def json_address_def json_get_int_def json_size_def
  obtain token where t: "ag_pending demo_agent (request_id_of demo_apply) = Some token"
    using demo_apply_facts(1) by blast
  have v: "valid_request 0x1000 (length [0x0A, 0xFF :: u8])" by (simp add: valid_request_def)
  have "fst (on_apply sim_ops no_reals demo_env demo_agent demo_apply) = Returned (JObject
      [(''bytes_written'', JInt (sint (of_nat (length [0x0A, 0xFF :: u8]) :: u64))), (''address'', JInt (sint (json_address no_reals demo_apply ''address'')))])"
    by (rule apply_preview_reply [OF t demo_apply_facts(2-5)])
      (simp only: demo_apply_facts(6) sim.write_bytes_ok(1) [OF v])
  then have a: "on_apply sim_ops no_reals demo_env demo_agent demo_apply = (Returned (JObject
      [(''bytes_written'', JInt (sint (of_nat (length [0x0A, 0xFF :: u8]) :: u64))), (''address'', JInt (sint (json_address no_reals demo_apply ''address'')))]),
      snd (on_apply sim_ops no_reals demo_env demo_agent demo_apply))"
    by (metis prod.collapse)
  have h: "json_get_string demo_apply ''value_hex'' [] = ''0aff''" by (simp add: params)
  show ?thesis
    using apply_then_verify [OF sim.memory_backend_axioms a, of demo_verify] by (simp add: h hex_digits_def) (simp add: params)
qed

end
