(* ===== verification/Example_Tools.thy ===== *)
theory Example_Tools
  imports Memory_Session Discovery Native_Backends Freeze_Spec
begin

text \<open>
  The small programs: \<open>tools/gtctl.cpp\<close> and \<open>examples/inspect_and_read.cpp\<close>,
  \<open>discover_and_read.cpp\<close>, \<open>read_write_restore.cpp\<close>. A program is a function from its
  arguments (\<open>argv\<close>, the program name first) and the system to its exit code, what it prints and
  the system afterwards. \<open>desktop\<close> collects what Windows answers; the process memory is behind
  \<open>win_api\<close>.
\<close>

section \<open>Output\<close>

datatype printed = Out string | Err string

fun hex_text :: "nat \<Rightarrow> string" where
  "hex_text n = (if n < 16 then [digest_char n] else hex_text (n div 16) @ [digest_char (n mod 16)])"

declare hex_text.simps [simp del]

definition hex8_text :: "u32 \<Rightarrow> string" where
  "hex8_text v = (let s = hex_text (unat v) in replicate (8 - length s) (CHR ''0'') @ s)"

section \<open>\<open>gtctl\<close>\<close>

definition gtctl_main :: "string \<Rightarrow> string list \<Rightarrow> int \<times> printed list" where
  "gtctl_main version argv =
     (if length argv \<noteq> 2
      then (2, [Err (''Usage: gtctl --version | --health [--json not supported yet]'' @ [CHR 0x0A])])
      else (let command = argv ! 1 in
        if command = ''--version'' then (0, [Out (''gtctl '' @ version @ [CHR 0x0A])])
        else if command = ''--health''
        then (0, [Out (''{\"component\":\"gtctl\",\"status\":\"ok\",\"target_attached\":false}'' @ [CHR 0x0A])])
        else (2, [Err (''Unknown option: '' @ command @ [CHR 0x0A])])))"

section \<open>\<open>std::stoull\<close> with the count of characters read\<close>

text \<open>What follows the number at the front of a text, and so how many characters were read.\<close>

definition strto_rest :: "nat \<Rightarrow> string \<Rightarrow> string" where
  "strto_rest base s0 =
     (let s = dropWhile is_space s0;
          s1 = (if s \<noteq> [] \<and> (hd s = CHR ''-'' \<or> hd s = CHR ''+'') then tl s else s);
          hex = ((base = 0 \<or> base = 16) \<and> has_hex_prefix s1);
          b = (if base \<noteq> 0 then base else if hex then 16
               else if s1 \<noteq> [] \<and> hd s1 = CHR ''0'' then 8 else 10)
      in dropWhile (\<lambda>c. char_digit c < b) (if hex then drop 2 s1 else s1))"

definition stoull :: "nat \<Rightarrow> string \<Rightarrow> (u64 \<times> nat) option" where
  "stoull base s = map_option (\<lambda>v. (v, length s - length (strto_rest base s))) (stoul base s)"

section \<open>The Windows examples\<close>

record 'o desktop =
  dk_snapshot :: "(string \<times> u32) list option"
  dk_open_limited :: "u32 \<Rightarrow> u64"
  dk_image_name :: "u64 \<Rightarrow> bool \<times> string"
  dk_is_window :: "u64 \<Rightarrow> bool"
  dk_window_pid :: "u64 \<Rightarrow> u32"
  dk_find_window :: "string \<Rightarrow> u64"
  dk_api :: "'o win_api"
  dk_os :: 'o

definition line :: "string \<Rightarrow> string" where
  "line s = s @ [CHR 0x0A]"

definition make_windows_backend :: "'o win_api \<Rightarrow> 'o \<Rightarrow> windows_options \<Rightarrow> 'o windows_backend" where
  "make_windows_backend api os opt = WindowsBackend_new api os opt"

text \<open>\<open>WindowsBackendOptions\<close> with the desired access left at 0.\<close>

definition backend_options :: "u32 \<Rightarrow> string \<Rightarrow> architecture \<Rightarrow> bool \<Rightarrow> windows_options" where
  "backend_options pid path arch read_only =
     \<lparr>wo_pid = pid, wo_image_path = path, wo_architecture = arch, wo_read_only = read_only, wo_desired_access = 0\<rparr>"

definition inspect_and_read :: "'o win_api \<Rightarrow> 'o \<Rightarrow> int \<times> printed list \<times> 'o" where
  "inspect_and_read api os =
     (let backend = make_windows_backend api os
            (backend_options 1234 ''C:/path/to/authorised/target.exe'' Arch_x64 False);
          session = open_session (windows_ops api) backend
      in case session_read (windows_ops api) session 0x401000 of
           (Inl e, s) \<Rightarrow>
             (2, [Err (line (''read failed: '' @ err_message e @ '' (op='' @ err_operation e @ '' addr=0x'' @
                hex_text (unat (err_address e)) @ '')''))], wb_os (ses_backend s))
         | (Inr v, s) \<Rightarrow> (0, [Out (line (''value: 0x'' @ hex8_text v))], wb_os (ses_backend s)))"

definition inspect_and_read_elsewhere :: "int \<times> printed list" where
  "inspect_and_read_elsewhere =
     (0, [Err (line ''this example requires the Windows backend; rebuild with -D_WIN32.'')])"

definition discover_and_read :: "'o desktop \<Rightarrow> string list \<Rightarrow> int \<times> printed list \<times> 'o" where
  "discover_and_read dk argv =
     (if length argv \<noteq> 5
      then (2, [Err (line ''Usage: discover_and_read process|window NAME x86|x64 ADDRESS_HEX'')], dk_os dk)
      else (let how = argv ! 1; name = argv ! 2; arch = argv ! 3 in
        if how \<noteq> ''process'' \<and> how \<noteq> ''window'' \<or> arch \<noteq> ''x86'' \<and> arch \<noteq> ''x64'' then (2, [], dk_os dk)
        else (case stoull 16 (argv ! 4) of
          None \<Rightarrow> (2, [], dk_os dk)
        | Some (address, consumed) \<Rightarrow>
            (if address = 0 \<or> consumed \<noteq> length (argv ! 4) then (2, [], dk_os dk)
             else (let pid = (if how = ''process'' then find_game_process (dk_snapshot dk) name
                              else get_process_id_from_window (dk_is_window dk) (dk_window_pid dk)
                                     (find_game_window (dk_find_window dk) name)) in
               if pid = 0 then (1, [Err (line ''No matching game process/window'')], dk_os dk)
               else (let path = get_process_image_path (dk_open_limited dk) (dk_image_name dk) pid in
                 if path = [] then (1, [Err (line ''Could not identify executable path'')], dk_os dk)
                 else (let backend = make_windows_backend (dk_api dk) (dk_os dk)
                         (backend_options pid path (if arch = ''x86'' then Arch_x86 else Arch_x64) True)
                   in case session_read (windows_ops (dk_api dk)) (open_session (windows_ops (dk_api dk)) backend) address of
                        (Inl e, s) \<Rightarrow> (1, [Err (line (''Read failed: '' @ err_message e))], wb_os (ses_backend s))
                      | (Inr (v :: u32), s) \<Rightarrow>
                          (0, [Out (line (''PID '' @ show_nat (unat pid) @ '' ('' @ path @ '') value: '' @ show_nat (unat v)))],
                           wb_os (ses_backend s)))))))))"

text \<open>The part of \<open>read_write_restore\<close> after the session is opened.\<close>

definition update_and_restore ::
  "'b backend_ops \<Rightarrow> 'b session \<Rightarrow> address \<Rightarrow> u32 \<Rightarrow> int \<times> printed list \<times> 'b session" where
  "update_and_restore ops s address desired =
     (case session_read ops s address of
        (Inl e, s) \<Rightarrow> (1, [Err (line (err_message e))], s)
      | (Inr (previous :: u32), s) \<Rightarrow>
          (case compare_write_verify ops s address desired 1 of
             (Inl e, s) \<Rightarrow> (1, [Err (line (''Write/readback failure: '' @ err_message e))], s)
           | (Inr _, s) \<Rightarrow>
               (let updated = Out (line (''Updated '' @ show_nat (unat previous) @ '' to '' @ show_nat (unat desired)))
                in case compare_write_verify ops s address previous 1 of
                     (Inl e, s) \<Rightarrow> (3, [updated, Err (line ''Restore failed'')], s)
                   | (Inr _, s) \<Rightarrow> (0, [updated, Out (line ''Original value restored'')], s))))"

text \<open>The address and the value on the command line; \<open>None\<close> is exit code 2.\<close>

definition target_arguments :: "string \<Rightarrow> string \<Rightarrow> (address \<times> u32) option" where
  "target_arguments address_text value_text =
     (case stoull 16 address_text of
        None \<Rightarrow> None
      | Some (address, count) \<Rightarrow>
          (if count \<noteq> length address_text \<or> address = 0 then None
           else (case stoull 10 value_text of
                   None \<Rightarrow> None
                 | Some (parsed, count) \<Rightarrow>
                     (if count \<noteq> length value_text \<or> unat parsed > 4294967295 then None
                      else Some (address, ucast parsed)))))"

definition read_write_restore :: "'o desktop \<Rightarrow> string list \<Rightarrow> int \<times> printed list \<times> 'o" where
  "read_write_restore dk argv =
     (if length argv \<noteq> 6 \<or> argv ! 1 \<noteq> ''--apply''
      then (2, [Err (line ''Usage: read_write_restore --apply EXE_NAME x86|x64 ADDRESS_HEX VALUE_DEC'')], dk_os dk)
      else (let pid = find_game_process (dk_snapshot dk) (argv ! 2); arch = argv ! 3 in
        if pid = 0 then (1, [Err (line ''Game not found'')], dk_os dk)
        else if arch \<noteq> ''x86'' \<and> arch \<noteq> ''x64'' then (2, [], dk_os dk)
        else (case target_arguments (argv ! 4) (argv ! 5) of
          None \<Rightarrow> (2, [], dk_os dk)
        | Some (address, desired) \<Rightarrow>
            (let path = get_process_image_path (dk_open_limited dk) (dk_image_name dk) pid in
             if path = [] then (1, [], dk_os dk)
             else (let backend = make_windows_backend (dk_api dk) (dk_os dk)
                     (backend_options pid path (if arch = ''x86'' then Arch_x86 else Arch_x64) False)
               in case update_and_restore (windows_ops (dk_api dk)) (open_session (windows_ops (dk_api dk)) backend)
                         address desired of
                    (code, out, s) \<Rightarrow> (code, out, wb_os (ses_backend s)))))))"

section \<open>Lemmas: all-or-nothing writes\<close>

text \<open>Writing a word and then the word that was there before leaves memory as it was.\<close>

lemma mem_store_inside: "x \<in> addr_range a (length bs) \<Longrightarrow> mem_store m a bs x = mem_store m' a bs x"
proof (induction bs arbitrary: m m' a)
  case (Cons b bs)
  show ?case
  proof (cases "x \<in> addr_range (a + 1) (length bs)")
    case True
    then show ?thesis using Cons.IH by simp
  next
    case False
    then show ?thesis using Cons.prems by (simp add: mem_store_other addr_range_Suc)
  qed
qed simp

lemma mem_store_twice:
  assumes "length cs = length bs"
  shows "mem_store (mem_store m a bs) a cs = mem_store m a cs"
proof
  fix x
  show "mem_store (mem_store m a bs) a cs x = mem_store m a cs x"
  proof (cases "x \<in> addr_range a (length cs)")
    case True
    then show ?thesis by (rule mem_store_inside)
  qed (use assms in \<open>simp add: mem_store_other\<close>)
qed

lemma word_written_back:
  assumes "mem_word m a = Some (p :: u32)"
  shows "mem_store (mem_store m a (bytes_of_word (v :: u32))) a (bytes_of_word p) = m"
proof -
  obtain bs where bs: "mem_slice m a 4 = Some bs" "word_of_bytes bs = p" using assms by (auto simp: mem_word_bytes)
  then have "bytes_of_word p = bs"
    using bytes_of_word_of_bytes [where ?'a = 32, of bs] mem_slice_length [OF bs(1)] by auto
  then show ?thesis
    using mem_store_slice_id [OF bs(1)] mem_store_twice [of bs "bytes_of_word v" m a] mem_slice_length [OF bs(1)] by simp
qed

text \<open>A backend whose successful writes store every byte.\<close>

locale atomic_backend = memory_backend ops mem_of
  for ops :: "'b backend_ops" and mem_of :: "'b \<Rightarrow> mem" +
  assumes write_whole: "valid_request a (length bs) \<Longrightarrow> fst (be_write ops b a bs) = Returned (Inr n) \<Longrightarrow>
            n = of_nat (length bs)"
begin

lemma write_bytes_atomic:
  assumes len: "length bs < 2 ^ 64"
  shows "smem (snd (write_bytes ops s a bs)) =
     (case fst (write_bytes ops s a bs) of Inl e \<Rightarrow> smem s | Inr n \<Rightarrow> mem_store (smem s) a bs)"
proof (cases "validate_write_request a (of_nat (length bs))")
  case (Inl e)
  then show ?thesis by (simp add: write_bytes_def Let_def)
next
  case (Inr k)
  obtain r b where rb: "be_write ops (ses_backend s) a bs = (r, b)" by fastforce
  show ?thesis
  proof (cases "\<exists>n. r = Returned (Inr n)")
    case True
    then obtain n where n: "r = Returned (Inr n)" by blast
    have "mem_of b = mem_store (smem s) a (take (unat n) bs)"
      using write_stored [OF len, of "ses_backend s" a n] rb n by simp
    moreover have "valid_request a (length bs)"
      using Inr unat_of_nat_u64 [OF len] validate_write_iff [of a "of_nat (length bs)" k] by simp
    then have "n = of_nat (length bs)" using write_whole [of a bs "ses_backend s" n] rb n by simp
    ultimately show ?thesis
      using Inr rb n unat_of_nat_u64 [OF len] by (simp add: write_bytes_def Let_def)
  next
    case False
    then have "mem_of b = smem s" using write_refused [of "ses_backend s" a bs] rb by simp
    then show ?thesis using Inr rb False
      by (auto simp: write_bytes_def Let_def split: outcome.splits sum.splits)
  qed
qed

lemma session_write_atomic:
  fixes v :: "'a::len word"
  assumes w: "integer_width TYPE('a)"
  obtains (stored) k s' where "session_write ops s a v = (Inr k, s')" "valid_request a (LENGTH('a) div 8)"
      "smem s' = mem_store (smem s) a (bytes_of_word v)"
  | (refused) e s' where "session_write ops s a v = (Inl e, s')" "smem s' = smem s"
proof (cases "validate_write_request a (of_nat (LENGTH('a) div 8))")
  case (Inl e)
  then show ?thesis using refused by (simp add: session_write_def Let_def)
next
  case (Inr k)
  then have v: "valid_request a (LENGTH('a) div 8)"
    using validate_write_iff [of a "of_nat (LENGTH('a) div 8)" k] integer_width_facts(4) [OF w] by simp
  obtain r s1 where wb: "write_bytes ops s a (bytes_of_word v) = (r, s1)" by fastforce
  have len: "length (bytes_of_word v) < 2 ^ 64" using integer_width_facts(3) [OF w] by simp
  show ?thesis
    using write_bytes_atomic [OF len, of s a] wb Inr v
    by (cases r) (auto simp: session_write_def Let_def intro: stored refused)
qed

lemma compare_write_verify_atomic:
  fixes v :: "'a::len word"
  assumes w: "integer_width TYPE('a)"
  obtains (stored) s' where "compare_write_verify ops s a v 1 = (Inr v, s')"
      "smem s' = mem_store (smem s) a (bytes_of_word v)"
  | (refused) e s' where "compare_write_verify ops s a v 1 = (Inl e, s')" "smem s' = smem s"
proof (rule session_write_atomic [OF w, of s a v])
  fix e s' assume "session_write ops s a v = (Inl e, s')" "smem s' = smem s"
  then show ?thesis by (intro refused [of e s']) (simp_all add: compare_write_verify_def Let_def)
next
  fix k s1 assume s1: "session_write ops s a v = (Inr k, s1)" "valid_request a (LENGTH('a) div 8)"
    "smem s1 = mem_store (smem s) a (bytes_of_word v)"
  have "mem_word (smem s1) a = Some v" using mem_word_store [OF w] by (simp add: s1(3))
  then obtain s2 where s2: "session_read ops s1 a = (Inr v, s2)" "smem s2 = smem s1"
    using session_read_cases [OF w, of s1 a] s1(2) by auto
  show ?thesis by (intro stored [of s2]) (simp_all add: compare_write_verify_def Let_def s1 s2)
qed

text \<open>
  Memory is as before, except when the second write is refused: then the desired value is left.
\<close>

lemma update_and_restore_mem:
  obtains (unchanged) code out s' where "update_and_restore ops s a v = (code, out, s')" "code \<in> {0, 1}" "smem s' = smem s"
  | (left) out s' where "update_and_restore ops s a v = (3, out, s')" "smem s' = mem_store (smem s) a (bytes_of_word v)"
proof -
  have w: "integer_width TYPE(32)" by simp
  show ?thesis
  proof (rule session_read_cases [OF w, of s a])
    fix e s1 assume "(session_read ops s a :: u32 result \<times> 'b session) = (Inl e, s1)" "smem s1 = smem s"
    then show ?thesis by (intro unchanged [where s' = s1]) (auto simp: update_and_restore_def)
  next
    fix p :: u32 and s1 assume s1: "session_read ops s a = (Inr p, s1)" "mem_word (smem s) a = Some p" "smem s1 = smem s"
    show ?thesis
    proof (rule compare_write_verify_atomic [OF w, of s1 a v])
      fix e s2 assume "compare_write_verify ops s1 a v 1 = (Inl e, s2)" "smem s2 = smem s1"
      then show ?thesis using s1 by (intro unchanged [where s' = s2]) (auto simp: update_and_restore_def)
    next
      fix s2 assume s2: "compare_write_verify ops s1 a v 1 = (Inr v, s2)" "smem s2 = mem_store (smem s1) a (bytes_of_word v)"
      show ?thesis
      proof (rule compare_write_verify_atomic [OF w, of s2 a p])
        fix e s3 assume "compare_write_verify ops s2 a p 1 = (Inl e, s3)" "smem s3 = smem s2"
        then show ?thesis using s1 s2 by (intro left [where s' = s3]) (auto simp: update_and_restore_def Let_def)
      next
        fix s3 assume s3: "compare_write_verify ops s2 a p 1 = (Inr p, s3)" "smem s3 = mem_store (smem s2) a (bytes_of_word p)"
        have "smem s3 = smem s" using s1 s2 s3 by (simp add: word_written_back)
        then show ?thesis using s1 s2 s3 by (intro unchanged [where s' = s3]) (auto simp: update_and_restore_def Let_def)
      qed
    qed
  qed
qed

end

sublocale writable_backend \<subseteq> whole: atomic_backend ops mem_of
proof
  fix a b n and bs :: "u8 list"
  assume "valid_request a (length bs)" "fst (be_write ops b a bs) = Returned (Inr n)"
  then show "n = of_nat (length bs)" using write_accepted [of a bs b] by simp
qed

context process_memory
begin

lemma windows_atomic: "atomic_backend (windows_ops api) (windows_memory mem)"
proof (intro atomic_backend.intro windows_lawful atomic_backend_axioms.intro)
  fix a b n and bs :: "u8 list"
  assume "fst (be_write (windows_ops api) b a bs) = Returned (Inr n)"
  then show "n = of_nat (length bs)"
    by (auto simp: windows_ops_def intro: windows_write_cases [of b bs api a])
qed

end

sublocale process_memory \<subseteq> whole: atomic_backend "windows_ops api" "windows_memory mem"
  by (rule windows_atomic)

section \<open>Lemmas: what a session never changes of its backend\<close>

definition backend_keeps :: "'b backend_ops \<Rightarrow> ('b \<Rightarrow> 'k) \<Rightarrow> bool" where
  "backend_keeps ops k \<longleftrightarrow> (\<forall>b a n. k (snd (be_read ops b a n)) = k b) \<and> (\<forall>b a bs. k (snd (be_write ops b a bs)) = k b)"

lemma keeps_session_read:
  assumes "backend_keeps ops k"
  shows "k (ses_backend (snd (session_read ops s a :: ('a::len word) result \<times> 'b session))) = k (ses_backend s)"
proof -
  obtain r b where rb: "be_read ops (ses_backend s) a (of_nat (LENGTH('a) div 8)) = (r, b)" by fastforce
  then have "k b = k (ses_backend s)" using assms unfolding backend_keeps_def by (metis snd_conv)
  then show ?thesis
    by (auto simp: session_read_def Let_def rb split: sum.splits outcome.splits)
qed

lemma keeps_write_bytes:
  assumes "backend_keeps ops k"
  shows "k (ses_backend (snd (write_bytes ops s a bs))) = k (ses_backend s)"
proof -
  obtain r b where rb: "be_write ops (ses_backend s) a bs = (r, b)" by fastforce
  then have "k b = k (ses_backend s)" using assms unfolding backend_keeps_def by (metis snd_conv)
  then show ?thesis
    by (auto simp: write_bytes_def Let_def rb split: sum.splits outcome.splits)
qed

lemma keeps_session_write:
  assumes "backend_keeps ops k"
  shows "k (ses_backend (snd (session_write ops s a v))) = k (ses_backend s)"
  using keeps_write_bytes [OF assms, of s a "bytes_of_word v"]
  by (auto simp: session_write_def Let_def split: sum.splits prod.splits)

lemma keeps_compare_write_verify:
  fixes v :: "'a::len word"
  assumes "backend_keeps ops k"
  shows "k (ses_backend (snd (compare_write_verify ops s a v n))) = k (ses_backend s)"
  using keeps_session_write [OF assms, of s a v] keeps_session_read [OF assms, of _ a, where ?'a = 'a]
  by (auto simp: compare_write_verify_def Let_def split: sum.splits prod.splits) (metis snd_conv)+

lemma keeps_update_and_restore:
  assumes "backend_keeps ops k" "update_and_restore ops s a v = (code, out, s')"
  shows "k (ses_backend s') = k (ses_backend s)"
  using assms(2) keeps_session_read [OF assms(1), of s a, where ?'a = 32] keeps_compare_write_verify [OF assms(1), where ?'a = 32]
  by (auto simp: update_and_restore_def Let_def split: sum.splits prod.splits) (metis snd_conv)+

text \<open>The Windows backend keeps its handle, and the whole system when it has none.\<close>

lemma windows_keeps:
  "backend_keeps (windows_ops api) (\<lambda>b. (wb_handle b, if wb_handle b = 0 then Some (wb_os b) else None))"
  unfolding backend_keeps_def
proof (intro conjI allI)
  fix b :: "'a windows_backend" and a :: address and bs :: "u8 list"
  show "(wb_handle (snd (be_write (windows_ops api) b a bs)), if wb_handle (snd (be_write (windows_ops api) b a bs)) = 0
      then Some (wb_os (snd (be_write (windows_ops api) b a bs))) else None)
      = (wb_handle b, if wb_handle b = 0 then Some (wb_os b) else None)"
    by (rule windows_write_cases [of b bs api a]) (simp_all add: windows_ops_def)
qed (simp_all add: windows_ops_def windows_read_result)

lemma windows_update_and_restore:
  assumes "process_memory api mem"
    and "update_and_restore (windows_ops api) (open_session (windows_ops api) (WindowsBackend_new api os opt)) a v = (code, out, s')"
  defines "h \<equiv> win_open_process api os (windows_access opt) (wo_pid opt)"
  shows "code \<in> {0, 1, 3} \<and> mem (wb_os (ses_backend s')) h = (if code = 3 then mem_store (mem os h) a (bytes_of_word v) else mem os h)"
proof -
  let ?b = "WindowsBackend_new api os opt"
  have b: "wb_handle ?b = h" "wb_os ?b = os" by (simp_all add: WindowsBackend_new_def h_def Let_def)
  have o: "ses_backend (open_session (windows_ops api) ?b) = ?b" by (simp add: open_session_def)
  have k: "wb_handle (ses_backend s') = h" "h = 0 \<Longrightarrow> wb_os (ses_backend s') = os"
    using keeps_update_and_restore [OF windows_keeps assms(2)] by (auto simp: o b split: if_splits)
  have m: "windows_memory mem (ses_backend s') = (if h = 0 then \<lambda>_. None else mem (wb_os (ses_backend s')) h)"
    "windows_memory mem ?b = (if h = 0 then \<lambda>_. None else mem os h)"
    by (simp_all add: windows_memory_def k b)
  have nonempty: "mem_store (\<lambda>_. None) a (bytes_of_word v) \<noteq> (\<lambda>_. None)"
    using mem_word_store [where ?'a = 32, of "\<lambda>_. None" a v] by (auto simp: mem_word_def mem_slice_numeral)
  show ?thesis
  proof (rule atomic_backend.update_and_restore_mem [OF process_memory.windows_atomic [OF assms(1)], of
        "open_session (windows_ops api) ?b" a v])
    fix c out' s1 assume "update_and_restore (windows_ops api) (open_session (windows_ops api) ?b) a v = (c, out', s1)"
      "c \<in> {0, 1}" "windows_memory mem (ses_backend s1) = windows_memory mem (ses_backend (open_session (windows_ops api) ?b))"
    then show ?thesis using assms(2) m k(2) by (auto simp: o split: if_splits)
  next
    fix out' s1 assume "update_and_restore (windows_ops api) (open_session (windows_ops api) ?b) a v = (3, out', s1)"
      "windows_memory mem (ses_backend s1)
         = mem_store (windows_memory mem (ses_backend (open_session (windows_ops api) ?b))) a (bytes_of_word v)"
    then show ?thesis using assms(2) m nonempty by (auto simp: o split: if_splits)
  qed
qed

text \<open>The process that \<open>read_write_restore\<close> opens, for reading and writing.\<close>

definition opened_process :: "'o desktop \<Rightarrow> string list \<Rightarrow> handle" where
  "opened_process dk argv = win_open_process (dk_api dk) (dk_os dk)
     (PROCESS_VM_READ OR PROCESS_VM_WRITE OR PROCESS_VM_OPERATION OR PROCESS_QUERY_INFORMATION)
     (find_game_process (dk_snapshot dk) (argv ! 2))"

section \<open>Properties\<close>


definition demo_desktop :: "mem desktop" where
  "demo_desktop = \<lparr>dk_snapshot = Some [(''System'', 4), (''Game.exe'', 7)], dk_open_limited = (\<lambda>p. 9),
     dk_image_name = (\<lambda>h. (True, ''C:/Game.exe'')), dk_is_window = (\<lambda>w. False), dk_window_pid = (\<lambda>w. 0),
     dk_find_window = (\<lambda>t. 0), dk_api = one_process, dk_os = mem_store (\<lambda>_. None) 0x1000 [7, 0, 0, 0]\<rparr>"

definition demo_argv :: "string list" where
  "demo_argv = [''read_write_restore'', ''--apply'', ''game'', ''x64'', ''1000'', ''300'']"

lemma demo_arguments: "target_arguments ''1000'' ''300'' = Some (0x1000, 300)"
  by (simp add: target_arguments_def stoull_def stoul_def strto_def strto_rest_def is_space_def char_digit_def is_digit_def)

lemma demo_process:
  "find_game_process (dk_snapshot demo_desktop) ''game'' = 7"
  "get_process_image_path (dk_open_limited demo_desktop) (dk_image_name demo_desktop) 7 = ''C:/Game.exe''"
  by code_simp+

lemma demo_update:
  "\<exists>s. update_and_restore (windows_ops one_process) (open_session (windows_ops one_process)
     (WindowsBackend_new one_process (mem_store (\<lambda>_. None) 0x1000 [7, 0, 0, 0]) (backend_options 7 ''C:/Game.exe'' Arch_x64 False)))
     0x1000 300 = (0, [Out (line (''Updated '' @ show_nat 7 @ '' to '' @ show_nat 300)), Out (line ''Original value restored'')], s)"
  by (simp add: update_and_restore_def open_session_def WindowsBackend_new_def Let_def session_read_def
      validate_read_request_def mib_def windows_ops_def windows_read_def one_process_def windows_access_def
      backend_options_def valid_request_def mem_slice_numeral compare_write_verify_def session_write_def
      write_bytes_def windows_write_def validate_write_request_def bytes_of_word_def upt_rec)


lemma windows_session_read:
  fixes api :: "'o win_api"
  assumes "process_memory api mem"
    and "session_read (windows_ops api) (open_session (windows_ops api) (WindowsBackend_new api os opt)) a = (r :: u32 result, s)"
  defines "h \<equiv> win_open_process api os (windows_access opt) (wo_pid opt)"
  shows "wb_os (ses_backend s) = os" "r = Inr v \<Longrightarrow> mem_word (mem os h) a = Some v"
proof -
  let ?b = "WindowsBackend_new api os opt"
  have b: "wb_handle ?b = h" "wb_os ?b = os" by (simp_all add: WindowsBackend_new_def h_def Let_def)
  have o: "ses_backend (open_session (windows_ops api) ?b) = ?b" by (simp add: open_session_def)
  have rb: "be_read (windows_ops api) ?b a n = (fst (windows_read api ?b a n), ?b)" for n
    using windows_read_result(2) [of api ?b a n] by (simp add: windows_ops_def prod_eq_iff)
  have "ses_backend s = ?b" using assms(2)
    by (auto simp: session_read_def Let_def o rb split: sum.splits outcome.splits if_splits)
  then show "wb_os (ses_backend s) = os" using b by simp
  assume "r = Inr v"
  then have "mem_word (windows_memory mem ?b) a = Some v"
    using memory_backend.session_read_ok_iff [OF process_memory.windows_lawful [OF assms(1)], where ?'a = 32,
        of "open_session (windows_ops api) ?b" a v] assms(2) by (simp add: o)
  then show "mem_word (mem os h) a = Some v"
    by (cases "h = 0") (simp_all add: windows_memory_def b mem_word_def mem_slice_numeral)
qed

text \<open>
  \<open>discover_and_read\<close> never changes the system, and when it ends with exit code 0 it has printed
  the 32-bit value that the memory of the process holds at the address on its command line, which is
  not 0 and is written as a hexadecimal number with nothing after it.
\<close>

theorem discover_and_read_exact:
  assumes "process_memory (dk_api dk) mem" and "discover_and_read dk argv = (code, out, os')"
  shows "os' = dk_os dk \<and> (code = 0 \<longrightarrow> (\<exists>pid path a v h.
     stoull 16 (argv ! 4) = Some (a, length (argv ! 4)) \<and> a \<noteq> 0 \<and> pid \<noteq> 0 \<and> path \<noteq> [] \<and>
     h = win_open_process (dk_api dk) (dk_os dk) (PROCESS_VM_READ OR PROCESS_QUERY_INFORMATION) pid \<and>
     mem_word (mem (dk_os dk) h) a = Some v \<and>
     out = [Out (line (''PID '' @ show_nat (unat pid) @ '' ('' @ path @ '') value: '' @ show_nat (unat (v :: u32))))]))"
proof -
  let ?pid = "if argv ! 1 = ''process'' then find_game_process (dk_snapshot dk) (argv ! 2)
    else get_process_id_from_window (dk_is_window dk) (dk_window_pid dk) (find_game_window (dk_find_window dk) (argv ! 2))"
  let ?path = "get_process_image_path (dk_open_limited dk) (dk_image_name dk) ?pid"
  let ?opt = "backend_options ?pid ?path (if argv ! 3 = ''x86'' then Arch_x86 else Arch_x64) True"
  show ?thesis
  proof (cases "length argv = 5 \<and> (argv ! 1 = ''process'' \<or> argv ! 1 = ''window'') \<and> (argv ! 3 = ''x86'' \<or> argv ! 3 = ''x64'') \<and>
      (\<exists>a. stoull 16 (argv ! 4) = Some (a, length (argv ! 4)) \<and> a \<noteq> 0) \<and> ?pid \<noteq> 0 \<and> ?path \<noteq> []")
    case False
    then show ?thesis using assms(2)
      by (auto simp: discover_and_read_def Let_def split: if_splits option.splits prod.splits)
  next
    case True
    then obtain a where a: "stoull 16 (argv ! 4) = Some (a, length (argv ! 4))" "a \<noteq> 0" by blast
    obtain r s where rs: "session_read (windows_ops (dk_api dk))
        (open_session (windows_ops (dk_api dk)) (WindowsBackend_new (dk_api dk) (dk_os dk) ?opt)) a = (r :: u32 result, s)"
      by (metis prod.exhaust)
    have opt: "windows_access ?opt = PROCESS_VM_READ OR PROCESS_QUERY_INFORMATION" "wo_pid ?opt = ?pid"
      by (simp_all add: backend_options_def windows_access_def)
    note w = windows_session_read [OF assms(1) rs, unfolded opt]
    have "discover_and_read dk argv = (case r of
        Inl e \<Rightarrow> (1, [Err (line (''Read failed: '' @ err_message e))], wb_os (ses_backend s))
      | Inr v \<Rightarrow> (0, [Out (line (''PID '' @ show_nat (unat ?pid) @ '' ('' @ ?path @ '') value: '' @ show_nat (unat v)))],
          wb_os (ses_backend s)))"
      using True a rs unfolding discover_and_read_def make_windows_backend_def Let_def
      by (auto split: sum.split)
    moreover have "\<exists>pid path a' v' h. stoull 16 (argv ! 4) = Some (a', length (argv ! 4)) \<and> a' \<noteq> 0 \<and> pid \<noteq> 0 \<and> path \<noteq> [] \<and>
        h = win_open_process (dk_api dk) (dk_os dk) (PROCESS_VM_READ OR PROCESS_QUERY_INFORMATION) pid \<and>
        mem_word (mem (dk_os dk) h) a' = Some v' \<and>
        [Out (line (''PID '' @ show_nat (unat ?pid) @ '' ('' @ ?path @ '') value: '' @ show_nat (unat v)))] =
        [Out (line (''PID '' @ show_nat (unat pid) @ '' ('' @ path @ '') value: '' @ show_nat (unat (v' :: u32))))]"
      if "r = Inr v" for v
      using True w(2) [OF that] a by (intro exI [of _ ?pid] exI [of _ ?path] exI [of _ a] exI [of _ v] exI conjI) (rule refl | blast)+
    ultimately show ?thesis using assms(2) w(1) by (cases r) auto
  qed
qed

end
