(* ===== verification/Trainer_Console.thy ===== *)
theory Trainer_Console
  imports Trainer_Main Example_Tools
begin

text \<open>
  The console of \<open>tools/gt_trainer_cli.cpp\<close>: the raw mode of the terminal, the poll of a key, and
  what \<open>main\<close> prints up to the list of cheats, with the reports of addresses and of the player's
  state. The terminal calls of POSIX and of the C runtime of Windows, and the text of a float, are
  parameters.
\<close>

section \<open>The terminal\<close>

record termios =
  tio_iflag :: u32
  tio_oflag :: u32
  tio_cflag :: u32
  tio_lflag :: u32
  tio_cc :: "u8 list"

text \<open>The constants of the platform, and the calls; \<open>select\<close> tells whether a byte can be read.\<close>

record tty_modes =
  tm_ICANON :: u32
  tm_ECHO :: u32
  tm_VMIN :: nat
  tm_VTIME :: nat

record 'o tty_api =
  tty_isatty :: "'o \<Rightarrow> nat \<Rightarrow> bool"
  tty_getattr :: "'o \<Rightarrow> nat \<Rightarrow> termios option"
  tty_setattr :: "'o \<Rightarrow> nat \<Rightarrow> termios \<Rightarrow> bool \<times> 'o"
  tty_select :: "'o \<Rightarrow> nat \<Rightarrow> nat \<times> nat \<Rightarrow> bool \<times> 'o"  \<comment> \<open>seconds, microseconds\<close>
  tty_read1 :: "'o \<Rightarrow> nat \<Rightarrow> u8 option \<times> 'o"

definition is_stdin_tty :: "'o tty_api \<Rightarrow> 'o \<Rightarrow> bool" where
  "is_stdin_tty api os = tty_isatty api os 0"

definition is_stdout_tty :: "'o tty_api \<Rightarrow> 'o \<Rightarrow> bool" where
  "is_stdout_tty api os = tty_isatty api os 1"

text \<open>\<open>orig_\<close> is \<open>None\<close> while it is the zeroed structure.\<close>

record raw_scope =
  trs_orig :: "termios option"
  trs_active :: bool

definition raw_attributes :: "tty_modes \<Rightarrow> termios \<Rightarrow> termios" where
  "raw_attributes tm orig = orig\<lparr>tio_lflag := tio_lflag orig AND NOT (tm_ICANON tm OR tm_ECHO tm),
     tio_cc := (tio_cc orig)[tm_VMIN tm := 0, tm_VTIME tm := 0]\<rparr>"

definition TerminalRawScope_new :: "'o tty_api \<Rightarrow> tty_modes \<Rightarrow> 'o \<Rightarrow> raw_scope \<times> 'o" where
  "TerminalRawScope_new api tm os =
     (if \<not> is_stdin_tty api os then (\<lparr>trs_orig = None, trs_active = False\<rparr>, os)
      else (case tty_getattr api os 0 of
              None \<Rightarrow> (\<lparr>trs_orig = None, trs_active = False\<rparr>, os)
            | Some orig \<Rightarrow>
                (case tty_setattr api os 0 (raw_attributes tm orig) of
                   (ok, os) \<Rightarrow> (\<lparr>trs_orig = Some orig, trs_active = ok\<rparr>, os))))"

definition TerminalRawScope_delete :: "'o tty_api \<Rightarrow> raw_scope \<Rightarrow> 'o \<Rightarrow> 'o" where
  "TerminalRawScope_delete api sc os =
     (if trs_active sc then (case trs_orig sc of None \<Rightarrow> os | Some orig \<Rightarrow> snd (tty_setattr api os 0 orig)) else os)"

definition is_active :: "raw_scope \<Rightarrow> bool" where
  "is_active sc = trs_active sc"

definition poll_key :: "'o tty_api \<Rightarrow> nat \<Rightarrow> 'o \<Rightarrow> int \<times> 'o" where
  "poll_key api timeout_ms os =
     (if \<not> is_stdin_tty api os then (-1, os)
      else (case tty_select api os 0 (timeout_ms div 1000, timeout_ms mod 1000 * 1000) of
              (False, os) \<Rightarrow> (-1, os)
            | (True, os) \<Rightarrow> (case tty_read1 api os 0 of (None, os) \<Rightarrow> (-1, os) | (Some c, os) \<Rightarrow> (uint c, os))))"

text \<open>The two of Windows; \<open>kbhit\<close>, \<open>getch\<close> and \<open>sleep\<close> are its calls.\<close>

definition is_active_windows :: "'o tty_api \<Rightarrow> 'o \<Rightarrow> bool" where
  "is_active_windows api os = is_stdin_tty api os"

definition poll_key_windows :: "('o \<Rightarrow> bool) \<Rightarrow> ('o \<Rightarrow> int \<times> 'o) \<Rightarrow> (u32 \<Rightarrow> 'o \<Rightarrow> 'o) \<Rightarrow> int \<Rightarrow> 'o \<Rightarrow> int \<times> 'o" where
  "poll_key_windows kbhit getch sleep timeout_ms os = (if kbhit os then getch os else (-1, sleep (word_of_int timeout_ms) os))"

section \<open>What is printed\<close>

definition print_banner :: "string \<Rightarrow> printed" where
  "print_banner version = Out (line ''========================================================'' @
     line (''  gtlibcpp CLI Trainer & Hotkey Controller v'' @ version) @
     line ''========================================================'')"

definition default_table_path :: "bool \<Rightarrow> string" where
  "default_table_path apple =
     (if apple then ''demos/CheatTable/assaultcube_mac.ct'' else ''demos/CheatTable/assaultcube.ct'')"

definition print_usage :: "bool \<Rightarrow> string \<Rightarrow> printed" where
  "print_usage apple prog = Out (line (''Usage: '' @ prog @ '' [OPTIONS]'') @ line ''Options:'' @
     line (''  --table <path>   Load Cheat Table file (default: '' @ default_table_path apple @ '')'') @
     line ''  --list           List parsed cheat entries and exit'' @
     line ''  --test [path]    Run automated hotkey detection and memory verification test'' @
     line ''  --version        Show version information'' @
     line ''  --help           Show this help message'')"

text \<open>\<open>std::left << std::setw(n)\<close>\<close>

definition left_padded :: "nat \<Rightarrow> string \<Rightarrow> string" where
  "left_padded n s = s @ replicate (n - length s) (CHR '' '')"

definition entry_line :: "cheat_entry \<Rightarrow> string" where
  "entry_line e = line (''  ['' @ ce_id e @ ''] '' @ left_padded 20 (ce_description e) @ '' | Type: '' @
     left_padded 8 (variable_type_to_string (ce_type e)) @ '' | Hotkey: '' @ left_padded 12 (format_hotkey (ce_hotkeys e)) @
     '' | Action: '' @ (if ce_hotkey_action e = [] then ''None'' else ce_hotkey_action e))"

definition table_report :: "cheat_table \<Rightarrow> string \<Rightarrow> printed list" where
  "table_report table table_path =
     [Out (line (''[+] Loaded Cheat Table: '' @ (if ct_title table = [] then table_path else ct_title table) @
        '' (CE Version: '' @ show_nat (unat (ct_version_ce table)) @ '')'') @
        line (''[+] Discovered Entries: '' @ show_nat (length (ct_entries table))) @ line []),
      Out (line ''--- Discovered Cheats & Hotkey Bindings ---'')] @
     map (\<lambda>e. Out (entry_line e)) (ct_entries table) @
     [Out (line ''-------------------------------------------'' @ line [])]"

datatype startup = Exit_with int | Go_on cheat_table string bool  \<comment> \<open>table, its path, test mode\<close>

text \<open>\<open>main\<close> up to the list of cheats. \<open>None\<close> (fuel of the XML reader spent) does not occur.\<close>

definition start_up ::
  "string \<Rightarrow> bool \<Rightarrow> string \<Rightarrow> string list \<Rightarrow> (string \<Rightarrow> string option) \<Rightarrow> (printed list \<times> startup) option" where
  "start_up version apple prog args files =
     (case parse_args args (default_table_path apple) False False of
        Show_usage \<Rightarrow> Some ([print_usage apple prog], Exit_with 0)
      | Show_version \<Rightarrow> Some ([Out (line (''gt_trainer_cli v'' @ version))], Exit_with 0)
      | Unknown_option arg \<Rightarrow> Some ([Err (line (''Unknown option: '' @ arg)), print_usage apple prog], Exit_with 1)
      | Run_trainer table_path list_mode test_mode \<Rightarrow>
          (case load_table files table_path of
             None \<Rightarrow> None
           | Some (Inl e, table_path) \<Rightarrow>
               Some ([print_banner version, Err (line (''[-] Error loading cheat table: '' @ err_message e @
                  '' (path: '' @ table_path @ '')''))], Exit_with 1)
           | Some (Inr table, table_path) \<Rightarrow>
               Some (print_banner version # table_report table table_path,
                 if list_mode then Exit_with 0 else Go_on table table_path test_mode)))"

definition address_report :: "trainer_env \<Rightarrow> printed" where
  "address_report te = Out (line ''[+] Resolved Target Addresses:'' @
     line (''    Player Base    : 0x'' @ hex_text (unat (ten_player_base te))) @
     line (''    Health Address : 0x'' @ hex_text (unat (ten_health te))) @
     line (''    Armor Address  : 0x'' @ hex_text (case ten_armor te of Inr a \<Rightarrow> unat a | Inl e \<Rightarrow> 0)) @
     line (''    Ammo Address   : 0x'' @ hex_text (unat (ten_ammo te))) @
     line (''    ZCord Address  : 0x'' @ hex_text (unat (ten_zcord te))) @ line [])"

definition position_text :: "(u32 \<Rightarrow> string) \<Rightarrow> player_state \<Rightarrow> string" where
  "position_text show_float st = ''('' @ show_float (ps_pos_x st) @ '', '' @ show_float (ps_pos_y st) @ '', '' @
     show_float (ps_pos_z st) @ '')''"

text \<open>\<open>print_status\<close>; floats are printed with two digits.\<close>

definition print_status ::
  "'b backend_ops \<Rightarrow> (u32 \<Rightarrow> string) \<Rightarrow> trainer_env \<Rightarrow> 'b trainer \<Rightarrow> printed \<times> 'b trainer" where
  "print_status ops show_2 te tr =
     (case read_state ops te tr of
        (s, tr) \<Rightarrow>
          (Out (line [] @ line ''--- Current Memory State ---'' @
             line (''  Health   : '' @ show_nat (unat (ps_health s)) @ '' HP'') @
             line (''  Armor    : '' @ show_nat (unat (ps_armor s)) @ '' AP'') @
             line (''  Weapon   : '' @ ps_weapon_name s @ '' [Clip: '' @ show_nat (unat (ps_clip_ammo s)) @ '' | Reserve: '' @
               show_nat (unat (ps_reserve_ammo s)) @ '']'' @
               (if tr_ammo_frozen tr then '' [FROZEN: UNLIMITED]'' else '' [NORMAL]'')) @
             line (''  Position : '' @ position_text show_2 s) @
             line ''----------------------------'' @ line []), tr))"

definition loop_intro :: "bool \<Rightarrow> printed list" where
  "loop_intro windows =
     [Out (line ''[*] Trainer active loop running! Listening for hotkeys (Press 'q' or Ctrl+C to quit)...''),
      Out (line ''    Controls: [H] Health & Armor (100) | [A] Unlimited Ammo | [Z] High Jump (+10) | [S] Status | [Q] Quit''),
      Out (line (if windows
        then ''    Global In-Game Hotkeys Active: Ctrl+H (Health & Armor), Ctrl+A (Ammo), Ctrl+Z (Jump)''
        else ''    Terminal Hotkeys Active: Hit [H], [A], [Z], or [S] at any time (no Enter required)'') @ line [])]"

text \<open>The status line of the loop, on a terminal; floats with one digit.\<close>

definition tick_text :: "(u32 \<Rightarrow> string) \<Rightarrow> bool \<Rightarrow> player_state \<Rightarrow> string" where
  "tick_text show_1 frozen s =
     ''[Loop Active] HP: '' @ show_nat (unat (ps_health s)) @ '' | Armor: '' @ show_nat (unat (ps_armor s)) @ '' | '' @
     ps_weapon_name s @ '': '' @ show_nat (unat (ps_clip_ammo s)) @ ''/'' @ show_nat (unat (ps_reserve_ammo s)) @
     (if frozen then '' [UNLIMITED]'' else '' [NORMAL]'') @ '' | Pos: '' @ position_text show_1 s @
     '' | ([H], [A], [Z], [Q] to quit)'' @ [CHR 0x0D]"

section \<open>Lemmas: the raw mode is left as it was entered\<close>

text \<open>
  \<open>tty_exact api cur\<close>: \<open>tcgetattr\<close> reports the attributes \<open>cur\<close> of standard input, and
  \<open>tcsetattr\<close> sets them or, failing, leaves them.
\<close>

definition tty_exact :: "'o tty_api \<Rightarrow> ('o \<Rightarrow> termios) \<Rightarrow> bool" where
  "tty_exact api cur \<longleftrightarrow>
     (\<forall>os t. tty_getattr api os 0 = Some t \<longrightarrow> t = cur os) \<and>
     (\<forall>os t. cur (snd (tty_setattr api os 0 t)) = (if fst (tty_setattr api os 0 t) then t else cur os))"

lemma raw_scope_enter:
  assumes "tty_exact api cur" "TerminalRawScope_new api tm os = (sc, os')"
  shows "if trs_active sc then trs_orig sc = Some (cur os) \<and> cur os' = raw_attributes tm (cur os) else cur os' = cur os"
  using assms by (auto simp: TerminalRawScope_new_def tty_exact_def split: if_splits option.splits prod.splits) (metis fst_conv snd_conv)+

lemma raw_mode_bits: "tio_lflag (raw_attributes tm t) AND (tm_ICANON tm OR tm_ECHO tm) = 0"
  by (auto simp: raw_attributes_def bit_eq_iff bit_and_iff bit_or_iff bit_not_iff)

text \<open>Over any use of the terminal that keeps its attributes, the destructor gives them back.\<close>

lemma raw_scope_restores:
  assumes api: "tty_exact api cur" and enter: "TerminalRawScope_new api tm os = (sc, os1)"
    and used: "cur os2 = cur os1" and ok: "\<And>os t. tty_getattr api os 0 = Some t \<Longrightarrow> fst (tty_setattr api os2 0 t)"
  shows "cur (TerminalRawScope_delete api sc os2) = cur os"
proof (cases "trs_active sc")
  case True
  then have "trs_orig sc = Some (cur os)" using raw_scope_enter [OF api enter] by simp
  moreover from True enter have "tty_getattr api os 0 = trs_orig sc"
    by (auto simp: TerminalRawScope_new_def split: if_splits option.splits prod.splits)
  ultimately have "fst (tty_setattr api os2 0 (cur os))" using ok by metis
  then show ?thesis using api True \<open>trs_orig sc = Some (cur os)\<close> by (simp add: TerminalRawScope_delete_def tty_exact_def)
next
  case False
  then show ?thesis using raw_scope_enter [OF api enter] used by (simp add: TerminalRawScope_delete_def)
qed

lemma poll_key_range: "fst (poll_key api ms os) \<in> insert (-1) {0..255}"
proof -
  have "uint (c :: u8) \<le> 255" for c using uint_lt2p [of c] by simp
  then show ?thesis by (auto simp: poll_key_def split: prod.split bool.split option.split)
qed

section \<open>Lemmas: what is printed against what is done\<close>

lemma start_up_total: "start_up version apple prog args files \<noteq> None"
proof -
  have l: "load_table files p = None \<longleftrightarrow> False" for p using load_table_total [of files p] by auto
  show ?thesis by (auto simp: start_up_def l split: cli_command.split option.split sum.split)
qed

text \<open>An exit before the game is touched is the exit of \<open>trainer_main\<close>, which has built no trainer.\<close>

lemma start_up_exit:
  assumes "start_up version apple prog (run_args run) (run_files run) = Some (out, Exit_with code)"
    and "run_default_table run = default_table_path apple"
  shows "trainer_main ops fl run = Some (code, None)"
  using assms by (auto simp: start_up_def trainer_main_def split: cli_command.splits option.splits sum.splits prod.splits if_splits)

text \<open>It writes to standard error exactly when it fails.\<close>

lemma start_up_errors:
  assumes "start_up version apple prog args files = Some (out, st)"
  shows "(\<exists>s. Err s \<in> set out) \<longleftrightarrow> st = Exit_with 1"
  using assms
  by (auto simp: start_up_def print_usage_def print_banner_def table_report_def
      split: cli_command.splits option.splits sum.splits if_splits)

text \<open>\<open>--list\<close>: one line per cheat of the table, and no trainer.\<close>

lemma list_mode_lines:
  assumes "parse_args args (default_table_path apple) False False = Run_trainer path True test"
    and "load_table files path = Some (Inr table, path')"
  shows "start_up version apple prog args files =
    Some (print_banner version # table_report table path', Exit_with 0)"
    "length (table_report table path') = length (ct_entries table) + 3"
  using assms by (simp_all add: start_up_def table_report_def)

text \<open>Reading the state to print it changes nothing but the session's log.\<close>

lemma print_status_frame: "tr_freeze (snd (print_status ops show_2 te tr)) = tr_freeze tr"
  by (simp add: print_status_def read_state_def split: prod.split)

end
