(* ===== verification/Named_Pipe.thy ===== *)
theory Named_Pipe
  imports Byte_Memory Agent_Server
begin

text \<open>
  The named-pipe transport of \<open>src/named_pipe_transport.cpp\<close>: the framing (magic, length, text),
  the loops over partial transfers, the server and the client. The pipe calls of Windows are a
  record of functions over an opaque system state \<open>'o\<close>; \<open>byte_channel\<close> states what a pipe is
  documented to do.
\<close>

section \<open>The calls and the loops over them\<close>

type_synonym pipe_handle = u64

definition INVALID_HANDLE_VALUE :: pipe_handle where "INVALID_HANDLE_VALUE = - 1"
definition ERROR_PIPE_CONNECTED :: u32 where "ERROR_PIPE_CONNECTED = 535"

record 'o pipe_api =
  np_create :: "'o \<Rightarrow> string \<Rightarrow> pipe_handle \<times> 'o"
  np_connect :: "'o \<Rightarrow> pipe_handle \<Rightarrow> bool \<times> 'o"
  np_disconnect :: "'o \<Rightarrow> pipe_handle \<Rightarrow> 'o"
  np_close_handle :: "'o \<Rightarrow> pipe_handle \<Rightarrow> 'o"
  np_open :: "'o \<Rightarrow> string \<Rightarrow> pipe_handle \<times> 'o"
  np_sleep :: "'o \<Rightarrow> 'o"
  np_write :: "'o \<Rightarrow> pipe_handle \<Rightarrow> string \<Rightarrow> (bool \<times> nat) \<times> 'o"
  np_read :: "'o \<Rightarrow> pipe_handle \<Rightarrow> nat \<Rightarrow> (bool \<times> string) \<times> 'o"
  np_last_error :: "'o \<Rightarrow> u32"

definition kProtocolMagic :: u32 where "kProtocolMagic = 0x47545043"

text \<open>A size is passed to the system as a \<open>DWORD\<close>.\<close>

function write_all :: "'o pipe_api \<Rightarrow> pipe_handle \<Rightarrow> string \<Rightarrow> 'o \<Rightarrow> (string + unit) \<times> 'o" where
  "write_all api pipe data os =
     (if data = [] then (Inr (), os)
      else (case np_write api os pipe (take (length data mod 2 ^ 32) data) of
              ((ok, written), os') \<Rightarrow>
                (if \<not> ok then (Inl ''named pipe write failed'', os')
                 else if written = 0 then (Inl ''named pipe closed during write'', os')
                 else write_all api pipe (drop written data) os')))"
  by pat_completeness auto
termination
  by (relation "measure (\<lambda>(_, _, data, _). length data)") auto

function read_exact :: "'o pipe_api \<Rightarrow> pipe_handle \<Rightarrow> nat \<Rightarrow> string \<Rightarrow> 'o \<Rightarrow> (string + string) \<times> 'o" where
  "read_exact api pipe sz acc os =
     (if length acc < sz
      then (case np_read api os pipe ((sz - length acc) mod 2 ^ 32) of
              ((ok, got), os') \<Rightarrow>
                (if \<not> ok then (Inl ''named pipe read failed'', os')
                 else if got = [] then (Inl ''named pipe closed during read'', os')
                 else read_exact api pipe sz (acc @ got) os'))
      else (Inr acc, os))"
  by pat_completeness auto
termination
  by (relation "measure (\<lambda>(_, _, sz, acc, _). sz - length acc)") (auto simp: neq_Nil_conv)

declare write_all.simps [simp del] read_exact.simps [simp del]

text \<open>The object representation of a 32-bit integer.\<close>

definition u32_chars :: "u32 \<Rightarrow> string" where
  "u32_chars w = map (\<lambda>b. char_of (unat b)) (bytes_of_word w)"

definition chars_u32 :: "string \<Rightarrow> u32" where
  "chars_u32 s = word_of_bytes (map (\<lambda>c. of_nat (code_of c)) s)"

lemma length_u32_chars [simp]: "length (u32_chars w) = 4"
  by (simp add: u32_chars_def)

lemma chars_u32_chars [simp]: "chars_u32 (u32_chars w) = w"
proof -
  have "(of_nat (code_of (char_of (unat b) :: char)) :: u8) = b" for b :: u8
  proof -
    have "unat b < 256" using unsigned_less [of b] by simp
    then show ?thesis by (simp add: of_char_of)
  qed
  then show ?thesis by (simp add: chars_u32_def u32_chars_def comp_def word_of_bytes_of_word)
qed

text \<open>The three writes of \<open>send\<close> and the reads of \<open>receive\<close>, with the exception's text.\<close>

definition send_frame :: "'o pipe_api \<Rightarrow> pipe_handle \<Rightarrow> string \<Rightarrow> 'o \<Rightarrow> (string + unit) \<times> 'o" where
  "send_frame api pipe json os =
     (case write_all api pipe (u32_chars kProtocolMagic) os of
        (Inl e, os) \<Rightarrow> (Inl e, os)
      | (Inr _, os) \<Rightarrow>
          (case write_all api pipe (u32_chars (of_nat (length json))) os of
             (Inl e, os) \<Rightarrow> (Inl e, os)
           | (Inr _, os) \<Rightarrow> write_all api pipe json os))"

definition receive_frame :: "'o pipe_api \<Rightarrow> pipe_handle \<Rightarrow> string \<Rightarrow> 'o \<Rightarrow> string result \<times> 'o" where
  "receive_frame api pipe op os =
     (let internal = (\<lambda>what. failure (make_error EC_internal what op 0 0)) in
      case read_exact api pipe 4 [] os of
        (Inl e, os) \<Rightarrow> (internal e, os)
      | (Inr magic, os) \<Rightarrow>
          (case read_exact api pipe 4 [] os of
             (Inl e, os) \<Rightarrow> (internal e, os)
           | (Inr len, os) \<Rightarrow>
               (if chars_u32 magic \<noteq> kProtocolMagic
                then (failure (make_error EC_parse_failed ''bad protocol magic'' op 0 0), os)
                else (case read_exact api pipe (unat (chars_u32 len)) [] os of
                        (Inl e, os) \<Rightarrow> (internal e, os)
                      | (Inr out, os) \<Rightarrow> (success out, os)))))"

section \<open>The server\<close>

record 'o pipe_server =
  nps_os :: 'o
  nps_name :: string
  nps_pipe :: pipe_handle

definition pipe_server_new :: "'o \<Rightarrow> string \<Rightarrow> 'o pipe_server" where
  "pipe_server_new os name = \<lparr>nps_os = os, nps_name = name, nps_pipe = INVALID_HANDLE_VALUE\<rparr>"

definition pipe_server_send :: "'o pipe_api \<Rightarrow> 'o pipe_server \<Rightarrow> string \<Rightarrow> unit result \<times> 'o pipe_server" where
  "pipe_server_send api s json =
     (if nps_pipe s = INVALID_HANDLE_VALUE
      then (failure (make_error EC_not_connected ''no client connected'' ''NamedPipeServer::send'' 0 0), s)
      else (case send_frame api (nps_pipe s) json (nps_os s) of
              (Inl e, os') \<Rightarrow> (failure (make_error EC_internal e ''NamedPipeServer::send'' 0 0), s\<lparr>nps_os := os'\<rparr>)
            | (Inr _, os') \<Rightarrow> (success (), s\<lparr>nps_os := os'\<rparr>)))"

definition pipe_server_close :: "'o pipe_api \<Rightarrow> 'o pipe_server \<Rightarrow> 'o pipe_server" where
  "pipe_server_close api s =
     (if nps_pipe s \<noteq> INVALID_HANDLE_VALUE
      then s\<lparr>nps_os := np_close_handle api (np_disconnect api (nps_os s) (nps_pipe s)) (nps_pipe s),
             nps_pipe := INVALID_HANDLE_VALUE\<rparr>
      else s)"

text \<open>The pipe a \<open>receive\<close> works on, created if there is none.\<close>

definition armed :: "'o pipe_api \<Rightarrow> 'o pipe_server \<Rightarrow> 'o pipe_server" where
  "armed api s =
     (if nps_pipe s = INVALID_HANDLE_VALUE
      then (case np_create api (nps_os s) (nps_name s) of (h, os') \<Rightarrow> s\<lparr>nps_os := os', nps_pipe := h\<rparr>)
      else s)"

text \<open>After a whole message the server disconnects and closes the pipe.\<close>

definition pipe_server_receive :: "'o pipe_api \<Rightarrow> 'o pipe_server \<Rightarrow> string result \<times> 'o pipe_server" where
  "pipe_server_receive api s =
     (let op = ''NamedPipeServer::receive''; s = armed api s; pipe = nps_pipe s in
      if pipe = INVALID_HANDLE_VALUE
      then (failure (make_error_full EC_not_connected ''CreateNamedPipeA failed'' op 0 0
              (np_last_error api (nps_os s)) []), s)
      else (case np_connect api (nps_os s) pipe of
              (connected, os') \<Rightarrow>
                (let s = s\<lparr>nps_os := os'\<rparr> in
                 if \<not> connected \<and> np_last_error api os' \<noteq> ERROR_PIPE_CONNECTED
                 then (failure (make_error_full EC_not_connected ''ConnectNamedPipe failed'' op 0 0
                         (np_last_error api os') []), s)
                 else (case receive_frame api pipe op os' of
                         (Inl e, os'') \<Rightarrow> (failure e, s\<lparr>nps_os := os''\<rparr>)
                       | (Inr out, os'') \<Rightarrow>
                           (success out, s\<lparr>nps_os := np_close_handle api (np_disconnect api os'' pipe) pipe,
                                           nps_pipe := INVALID_HANDLE_VALUE\<rparr>)))))"

definition pipe_server_ops :: "'o pipe_api \<Rightarrow> 'o pipe_server transport_ops" where
  "pipe_server_ops api = \<lparr>tr_send = pipe_server_send api, tr_receive = pipe_server_receive api,
     tr_close = pipe_server_close api\<rparr>"

section \<open>The client\<close>

record 'o pipe_client =
  npc_os :: 'o
  npc_path :: string
  npc_pipe :: pipe_handle
  npc_closed :: bool

definition pipe_path :: "string \<Rightarrow> string" where
  "pipe_path name = [CHR 0x5C, CHR 0x5C, CHR ''.'', CHR 0x5C] @ ''pipe'' @ [CHR 0x5C] @ name"

definition pipe_client_new :: "'o \<Rightarrow> string \<Rightarrow> 'o pipe_client" where
  "pipe_client_new os name = \<lparr>npc_os = os, npc_path = pipe_path name, npc_pipe = INVALID_HANDLE_VALUE, npc_closed = False\<rparr>"

fun connect_tries :: "nat \<Rightarrow> 'o pipe_api \<Rightarrow> string \<Rightarrow> 'o \<Rightarrow> pipe_handle \<times> 'o" where
  "connect_tries 0 api path os = (INVALID_HANDLE_VALUE, os)"
| "connect_tries (Suc n) api path os =
     (case np_open api os path of
        (h, os') \<Rightarrow> (if h \<noteq> INVALID_HANDLE_VALUE then (h, os') else connect_tries n api path (np_sleep api os')))"

definition ensure_connected :: "'o pipe_api \<Rightarrow> 'o pipe_client \<Rightarrow> 'o pipe_client" where
  "ensure_connected api c =
     (if npc_pipe c \<noteq> INVALID_HANDLE_VALUE then c
      else (case connect_tries 50 api (npc_path c) (npc_os c) of (h, os') \<Rightarrow> c\<lparr>npc_os := os', npc_pipe := h\<rparr>))"

definition pipe_client_send :: "'o pipe_api \<Rightarrow> 'o pipe_client \<Rightarrow> string \<Rightarrow> unit result \<times> 'o pipe_client" where
  "pipe_client_send api c json =
     (let op = ''NamedPipeClient::send'' in
      if npc_closed c then (failure (make_error EC_not_connected ''client closed'' op 0 0), c)
      else (let c = ensure_connected api c in
        if npc_pipe c = INVALID_HANDLE_VALUE
        then (failure (make_error_full EC_not_connected ''CreateFileA failed'' op 0 0
                (np_last_error api (npc_os c)) []), c)
        else (case send_frame api (npc_pipe c) json (npc_os c) of
                (Inl e, os') \<Rightarrow> (failure (make_error EC_internal e op 0 0), c\<lparr>npc_os := os'\<rparr>)
              | (Inr _, os') \<Rightarrow> (success (), c\<lparr>npc_os := os'\<rparr>))))"

definition pipe_client_receive :: "'o pipe_api \<Rightarrow> 'o pipe_client \<Rightarrow> string result \<times> 'o pipe_client" where
  "pipe_client_receive api c =
     (let op = ''NamedPipeClient::receive'' in
      if npc_closed c then (failure (make_error EC_not_connected ''client closed'' op 0 0), c)
      else (let c = ensure_connected api c in
        if npc_pipe c = INVALID_HANDLE_VALUE
        then (failure (make_error_full EC_not_connected ''CreateFileA failed'' op 0 0
                (np_last_error api (npc_os c)) []), c)
        else (case receive_frame api (npc_pipe c) op (npc_os c) of (r, os') \<Rightarrow> (r, c\<lparr>npc_os := os'\<rparr>))))"

definition pipe_client_close :: "'o pipe_api \<Rightarrow> 'o pipe_client \<Rightarrow> 'o pipe_client" where
  "pipe_client_close api c =
     (if npc_closed c then c
      else if npc_pipe c \<noteq> INVALID_HANDLE_VALUE
      then c\<lparr>npc_closed := True, npc_os := np_close_handle api (npc_os c) (npc_pipe c),
             npc_pipe := INVALID_HANDLE_VALUE\<rparr>
      else c\<lparr>npc_closed := True\<rparr>)"

definition pipe_client_ops :: "'o pipe_api \<Rightarrow> 'o pipe_client transport_ops" where
  "pipe_client_ops api = \<lparr>tr_send = pipe_client_send api, tr_receive = pipe_client_receive api,
     tr_close = pipe_client_close api\<rparr>"

section \<open>The channel\<close>

text \<open>
  The documented behaviour of a connected pipe from handle \<open>wr\<close> to handle \<open>rd\<close>: a write of
  something takes a non-empty part of it, a read of something, when something waits, returns a
  non-empty part of what waits, in order. \<open>content\<close> is what waits.
\<close>

definition byte_channel :: "'o pipe_api \<Rightarrow> pipe_handle \<Rightarrow> pipe_handle \<Rightarrow> ('o \<Rightarrow> string) \<Rightarrow> bool" where
  "byte_channel api wr rd content \<longleftrightarrow>
     (\<forall>os xs. xs \<noteq> [] \<longrightarrow> (\<exists>n os'. np_write api os wr xs = ((True, n), os') \<and> 0 < n \<and> n \<le> length xs \<and>
        content os' = content os @ take n xs)) \<and>
     (\<forall>os k. 0 < k \<longrightarrow> content os \<noteq> [] \<longrightarrow> (\<exists>got os'. np_read api os rd k = ((True, got), os') \<and> got \<noteq> [] \<and>
        length got \<le> k \<and> content os = got @ content os'))"

definition frame :: "string \<Rightarrow> string" where
  "frame json = u32_chars kProtocolMagic @ u32_chars (of_nat (length json)) @ json"

lemma write_all_channel:
  assumes "byte_channel api wr rd content" "length data < 2 ^ 32"
  shows "\<exists>os'. write_all api wr data os = (Inr (), os') \<and> content os' = content os @ data"
  using assms(2)
proof (induction "length data" arbitrary: data os rule: less_induct)
  case less
  show ?case
  proof (cases "data = []")
    case True
    then show ?thesis by (simp add: write_all.simps)
  next
    case False
    obtain n os1 where w: "np_write api os wr data = ((True, n), os1)" "0 < n" "n \<le> length data"
      "content os1 = content os @ take n data"
      using assms(1) False unfolding byte_channel_def by blast
    have "write_all api wr data os = write_all api wr (drop n data) os1"
      using w False less.prems by (subst write_all.simps) simp
    moreover have "\<exists>os'. write_all api wr (drop n data) os1 = (Inr (), os') \<and> content os' = content os1 @ drop n data"
      using w(2,3) less.prems by (intro less.hyps) auto
    ultimately show ?thesis using w(4) by auto
  qed
qed

lemma read_exact_channel:
  assumes "byte_channel api wr rd content" "content os = xs @ rest" "length acc + length xs = sz" "sz < 2 ^ 32"
  shows "\<exists>os'. read_exact api rd sz acc os = (Inr (acc @ xs), os') \<and> content os' = rest"
  using assms(2,3)
proof (induction "length xs" arbitrary: xs acc os rule: less_induct)
  case less
  show ?case
  proof (cases "xs = []")
    case True
    then show ?thesis using less.prems by (simp add: read_exact.simps)
  next
    case False
    then have k: "length acc < sz" using False less.prems(2) by (cases xs) auto
    then obtain got os1 where r: "np_read api os rd (sz - length acc) = ((True, got), os1)" "got \<noteq> []"
      "length got \<le> sz - length acc" "content os = got @ content os1"
      using assms(1) False less.prems(1) unfolding byte_channel_def by (metis append_is_Nil_conv zero_less_diff)
    have "length got \<le> length xs" using r(3) less.prems(2) by simp
    then obtain ys where xs: "xs = got @ ys" "content os1 = ys @ rest"
      using r(4) less.prems(1) by (auto simp: append_eq_append_conv2)
    have "read_exact api rd sz acc os = read_exact api rd sz (acc @ got) os1"
      using r k assms(4) by (subst read_exact.simps) simp
    moreover have "\<exists>os'. read_exact api rd sz (acc @ got) os1 = (Inr ((acc @ got) @ ys), os') \<and> content os' = rest"
      using r(2) xs less.prems(2) by (intro less.hyps) auto
    ultimately show ?thesis using xs(1) by auto
  qed
qed

lemma send_frame_channel:
  assumes "byte_channel api wr rd content" "length json < 2 ^ 32"
  shows "\<exists>os'. send_frame api wr json os = (Inr (), os') \<and> content os' = content os @ frame json"
proof -
  obtain o1 where 1: "write_all api wr (u32_chars kProtocolMagic) os = (Inr (), o1)"
    "content o1 = content os @ u32_chars kProtocolMagic"
    using write_all_channel [OF assms(1), of "u32_chars kProtocolMagic" os] by auto
  obtain o2 where 2: "write_all api wr (u32_chars (of_nat (length json))) o1 = (Inr (), o2)"
    "content o2 = content o1 @ u32_chars (of_nat (length json))"
    using write_all_channel [OF assms(1), of "u32_chars (of_nat (length json))" o1] by auto
  obtain o3 where 3: "write_all api wr json o2 = (Inr (), o3)" "content o3 = content o2 @ json"
    using write_all_channel [OF assms, of o2] by auto
  show ?thesis using 1 2 3 by (simp add: send_frame_def frame_def)
qed

lemma receive_frame_channel:
  assumes "byte_channel api wr rd content" "length json < 2 ^ 32" "content os = frame json @ rest"
  shows "\<exists>os'. receive_frame api rd op os = (Inr json, os') \<and> content os' = rest"
proof -
  obtain o1 where 1: "read_exact api rd 4 [] os = (Inr (u32_chars kProtocolMagic), o1)"
    "content o1 = u32_chars (of_nat (length json)) @ json @ rest"
    using read_exact_channel [OF assms(1), of os "u32_chars kProtocolMagic" _ "[]" 4] assms(3)
    by (auto simp: frame_def)
  obtain o2 where 2: "read_exact api rd 4 [] o1 = (Inr (u32_chars (of_nat (length json))), o2)" "content o2 = json @ rest"
    using read_exact_channel [OF assms(1) 1(2), of "[]" 4] by auto
  have len: "unat (of_nat (length json) :: u32) = length json"
    using assms(2) by (simp add: unsigned_of_nat take_bit_nat_eq_self)
  obtain o3 where 3: "read_exact api rd (length json) [] o2 = (Inr json, o3)" "content o3 = rest"
    using read_exact_channel [OF assms(1) 2(2), of "[]" "length json"] assms(2) by auto
  show ?thesis using 1 2 3 len by (simp add: receive_frame_def Let_def)
qed


text \<open>A pipe that takes at most three bytes and gives at most two.\<close>

definition small_pipe :: "string pipe_api" where
  "small_pipe = \<lparr>np_create = (\<lambda>os name. (2, os)), np_connect = (\<lambda>os h. (True, os)), np_disconnect = (\<lambda>os h. os),
     np_close_handle = (\<lambda>os h. os), np_open = (\<lambda>os path. (1, os)), np_sleep = (\<lambda>os. os),
     np_write = (\<lambda>os h xs. ((True, min 3 (length xs)), os @ take (min 3 (length xs)) xs)),
     np_read = (\<lambda>os h k. ((True, take (min 2 k) os), drop (min 2 k) os)), np_last_error = (\<lambda>os. 0)\<rparr>"

lemma small_pipe_channel: "byte_channel small_pipe wr rd (\<lambda>os. os)"
  by (auto simp: byte_channel_def small_pipe_def)


text \<open>
  C24: a named-pipe server never answers. A successful \<open>receive\<close> disconnects and closes the pipe
  before it returns, so the \<open>send\<close> of the reply fails with \<open>not_connected\<close>: whatever the request,
  the system and the agent, one turn of the server loop leaves the transport as \<open>receive\<close> left it
  and writes nothing.
\<close>

theorem pipe_server_never_answers:
  "sv_transport (serve_iteration (pipe_server_ops api) ops ro env sv)
     \<in> {sv_transport sv, snd (pipe_server_receive api (sv_transport sv))}"
proof -
  have "pipe_server_send api s json = (failure (make_error EC_not_connected ''no client connected''
      ''NamedPipeServer::send'' 0 0), s)" if "pipe_server_receive api t = (Inr req, s)" for s t req json
    using that by (auto simp: pipe_server_receive_def pipe_server_send_def Let_def split: prod.splits sum.splits if_splits)
  then show ?thesis
    by (auto simp: serve_iteration_def pipe_server_ops_def split: prod.split sum.split outcome.split)
qed

end
