(* ===== verification/Legacy_Memory.thy ===== *)
theory Legacy_Memory
  imports Discovery Byte_Memory
begin

text \<open>
  \<open>GTLibc\<close> of \<open>libs/gtlibc\<close>, the library the trainers were written with before \<open>gtlibcpp\<close>: finding
  the game, the typed reads and writes with offsets and pointers (\<open>GTLibc.tpp\<close>), strings and
  keys. Addresses are 32-bit \<open>DWORD\<close>s. The Windows calls are a record of functions over an opaque
  system state \<open>'o\<close>. Of the log and of the message boxes the model keeps the name of the method
  that writes them. A template parameter \<open>T\<close> is an integer type, a word of its width; the result
  \<open>None\<close> is undefined behaviour of C++.
\<close>

section \<open>State and log\<close>

type_synonym dword = u32
type_synonym game_handle = u64  \<comment> \<open>0 is \<open>NULL\<close>\<close>

record 'o gt_api =
  ga_read :: "'o \<Rightarrow> game_handle \<Rightarrow> dword \<Rightarrow> nat \<Rightarrow> bool \<times> u8 list \<times> nat"
  ga_write :: "'o \<Rightarrow> game_handle \<Rightarrow> dword \<Rightarrow> u8 list \<Rightarrow> (bool \<times> nat) \<times> 'o"
  ga_processes :: "'o \<Rightarrow> (string \<times> u32) list option"
  ga_same_name :: "string \<Rightarrow> string \<Rightarrow> bool"  \<comment> \<open>\<open>lstrcmpi\<close> returns 0\<close>
  ga_open_process :: "'o \<Rightarrow> u32 \<Rightarrow> game_handle"
  ga_find_window :: "'o \<Rightarrow> string \<Rightarrow> u64"
  ga_first_module :: "'o \<Rightarrow> u32 \<Rightarrow> u64 option option"  \<comment> \<open>snapshot, then \<open>Module32First\<close>\<close>
  ga_native_arch :: "'o \<Rightarrow> nat"
  ga_window_pid :: "'o \<Rightarrow> u64 \<Rightarrow> u32 option"

record 'o gtlibc =
  gt_os :: 'o
  gt_game_name :: string
  gt_window :: u64
  gt_process_id :: u32
  gt_handle :: game_handle
  gt_base :: dword
  gt_enable_logs :: bool
  gt_log :: "string list"
  gt_errors :: "string list"

definition AddLog :: "string \<Rightarrow> 'o gtlibc \<Rightarrow> 'o gtlibc" where
  "AddLog m g = (if gt_enable_logs g then g\<lparr>gt_log := gt_log g @ [m]\<rparr> else g)"

definition ShowErrorLog :: "string \<Rightarrow> 'o gtlibc \<Rightarrow> 'o gtlibc" where
  "ShowErrorLog m g = (AddLog m g)\<lparr>gt_errors := gt_errors g @ [m]\<rparr>"

definition EnableLogs :: "bool \<Rightarrow> 'o gtlibc \<Rightarrow> 'o gtlibc" where
  "EnableLogs status g = (AddLog ''EnableLogs'' g)\<lparr>gt_enable_logs := status\<rparr>"

lemma log_frame [simp]:
  "gt_os (AddLog m g) = gt_os g" "gt_handle (AddLog m g) = gt_handle g" "gt_base (AddLog m g) = gt_base g"
  "gt_os (ShowErrorLog m g) = gt_os g" "gt_handle (ShowErrorLog m g) = gt_handle g"
  "gt_base (ShowErrorLog m g) = gt_base g" "gt_errors (AddLog m g) = gt_errors g"
  "gt_errors (ShowErrorLog m g) = gt_errors g @ [m]"
  by (simp_all add: AddLog_def ShowErrorLog_def)

section \<open>Reading and writing\<close>

definition ReadAddress :: "'o gt_api \<Rightarrow> dword \<Rightarrow> 'o gtlibc \<Rightarrow> ('a::len word) \<times> 'o gtlibc" where
  "ReadAddress api address g =
     (let m = ''ReadAddress''; g = AddLog m g; size = LENGTH('a) div 8 in
      case ga_read api (gt_os g) (gt_handle g) address size of
        (ok, bytes, bytesRead) \<Rightarrow>
          (if ok \<and> bytesRead = size then (word_of_bytes bytes, AddLog m g) else (0, ShowErrorLog m g)))"

definition WriteAddress :: "'o gt_api \<Rightarrow> dword \<Rightarrow> 'a::len word \<Rightarrow> 'o gtlibc \<Rightarrow> bool \<times> 'o gtlibc" where
  "WriteAddress api address v g =
     (let m = ''WriteAddress''; g = AddLog m g; size = LENGTH('a) div 8 in
      case ga_write api (gt_os g) (gt_handle g) address (bytes_of_word v) of
        ((ok, bytesWritten), os') \<Rightarrow>
          (let g = g\<lparr>gt_os := os'\<rparr>
           in if ok \<and> bytesWritten = size then (True, g) else (False, ShowErrorLog m g)))"

definition ReadAddressOffset :: "'o gt_api \<Rightarrow> dword \<Rightarrow> dword \<Rightarrow> 'o gtlibc \<Rightarrow> ('a::len word) \<times> 'o gtlibc" where
  "ReadAddressOffset api address offset g =
     (let m = ''ReadAddressOffset'' in
      case ReadAddress api (address + offset) (AddLog m g) of (v, g) \<Rightarrow> (v, AddLog m g))"

text \<open>The text of the offsets loses its last character; an empty one has none to lose.\<close>

fun deref_chain :: "'o gt_api \<Rightarrow> dword \<Rightarrow> dword list \<Rightarrow> 'o gtlibc \<Rightarrow> dword \<times> 'o gtlibc" where
  "deref_chain api current [] g = (current, g)"
| "deref_chain api current (off # offs) g =
     (case ReadAddress api (current + off) g of (p, g') \<Rightarrow> deref_chain api p offs g')"

definition ReadAddressOffsets ::
  "'o gt_api \<Rightarrow> dword \<Rightarrow> dword list \<Rightarrow> 'o gtlibc \<Rightarrow> (('a::len word) \<times> 'o gtlibc) option" where
  "ReadAddressOffsets api address offsets g =
     (let g = AddLog ''ReadAddressOffsets'' g in
      if offsets = [] then None
      else (case deref_chain api address offsets (AddLog ''ReadPointerOffsets'' g) of
              (currentAddress, g) \<Rightarrow> Some (0, g)))"

definition WriteAddressOffset ::
  "'o gt_api \<Rightarrow> dword \<Rightarrow> dword \<Rightarrow> 'a::len word \<Rightarrow> 'o gtlibc \<Rightarrow> bool \<times> 'o gtlibc" where
  "WriteAddressOffset api address offset v g = WriteAddress api (address + offset) v (AddLog ''WriteAddressOffset'' g)"

text \<open>The results of the single writes are dropped, and the result is always \<open>false\<close>.\<close>

definition WriteAddressOffsets ::
  "'o gt_api \<Rightarrow> dword \<Rightarrow> dword list \<Rightarrow> 'a::len word \<Rightarrow> 'o gtlibc \<Rightarrow> bool \<times> 'o gtlibc" where
  "WriteAddressOffsets api address offsets v g =
     (False, fold (\<lambda>offset g. snd (WriteAddressOffset api address offset v g)) offsets
        (AddLog ''WriteAddressOffsets'' g))"

section \<open>Pointers\<close>

definition WritePointer :: "'o gt_api \<Rightarrow> dword \<Rightarrow> dword \<Rightarrow> 'a::len word \<Rightarrow> 'o gtlibc \<Rightarrow> bool \<times> 'o gtlibc" where
  "WritePointer api address offset v g =
     (case ReadAddress api address (AddLog ''WritePointer'' g) of
        (pointerAddress, g) \<Rightarrow> WriteAddressOffset api pointerAddress offset v g)"

text \<open>A pointer is a \<open>DWORD\<close> whatever \<open>T\<close> is; it is converted to \<open>T\<close> by the \<open>return\<close>.\<close>

definition ReadPointerOffset :: "'o gt_api \<Rightarrow> dword \<Rightarrow> dword \<Rightarrow> 'o gtlibc \<Rightarrow> ('a::len word) \<times> 'o gtlibc" where
  "ReadPointerOffset api address offset g =
     (let m = ''ReadPointerOffset'' in
      case ReadAddress api (address + offset) (AddLog m g) of
        (pointerAddress :: dword, g) \<Rightarrow> (ucast pointerAddress, AddLog m g))"

definition ReadPointer :: "'o gt_api \<Rightarrow> dword \<Rightarrow> 'o gtlibc \<Rightarrow> ('a::len word) \<times> 'o gtlibc" where
  "ReadPointer api address g =
     (let m = ''ReadPointer'' in
      case ReadAddress api address (AddLog m g) of
        (pointerAddress, g) \<Rightarrow>
          (case ReadPointerOffset api pointerAddress 0 g of (returnValue, g) \<Rightarrow> (returnValue, AddLog m g)))"

fun pointer_chain :: "'o gt_api \<Rightarrow> dword \<Rightarrow> dword list \<Rightarrow> 'o gtlibc \<Rightarrow> dword \<times> 'o gtlibc" where
  "pointer_chain api p [] g = (p, g)"
| "pointer_chain api p (off # offs) g =
     (case ReadPointerOffset api p off g of (p', g') \<Rightarrow> pointer_chain api p' offs g')"

definition ReadPointerOffsets ::
  "'o gt_api \<Rightarrow> dword \<Rightarrow> dword list \<Rightarrow> 'o gtlibc \<Rightarrow> (('a::len word) \<times> 'o gtlibc) option" where
  "ReadPointerOffsets api address offsets g =
     (let m = ''ReadPointerOffsets''; g = AddLog m g in
      if offsets = [] then None
      else (case pointer_chain api address offsets (AddLog m g) of
              (pointerAddress, g) \<Rightarrow> Some (ucast pointerAddress, AddLog m g)))"

definition WritePointerOffset ::
  "'o gt_api \<Rightarrow> dword \<Rightarrow> dword list \<Rightarrow> 'a::len word \<Rightarrow> 'o gtlibc \<Rightarrow> (bool \<times> 'o gtlibc) option" where
  "WritePointerOffset api address offsets v g =
     (case ReadPointerOffsets api address offsets (AddLog ''WritePointerOffset'' g) of
        None \<Rightarrow> None
      | Some (pointerAddress, g) \<Rightarrow> Some (WriteAddress api pointerAddress v g))"

definition WritePointerOffsets ::
  "'o gt_api \<Rightarrow> dword \<Rightarrow> dword list \<Rightarrow> 'a::len word \<Rightarrow> 'o gtlibc \<Rightarrow> (bool \<times> 'o gtlibc) option" where
  "WritePointerOffsets api address offsets v g =
     (case ReadPointerOffsets api address offsets (AddLog ''WritePointerOffsets'' g) of
        None \<Rightarrow> None
      | Some (pointerAddress, g) \<Rightarrow> Some (WriteAddress api pointerAddress v g))"

section \<open>Strings\<close>

definition char_bytes :: "string \<Rightarrow> u8 list" where
  "char_bytes s = map (\<lambda>c. of_nat (code_of c)) s"

definition byte_chars :: "u8 list \<Rightarrow> string" where
  "byte_chars bs = map (\<lambda>b. char_of (unat b)) bs"

definition ReadString :: "'o gt_api \<Rightarrow> dword \<Rightarrow> nat \<Rightarrow> 'o gtlibc \<Rightarrow> string \<times> 'o gtlibc" where
  "ReadString api address n g =
     (let m = ''ReadString''; g = AddLog m g in
      case ga_read api (gt_os g) (gt_handle g) address n of
        (ok, bytes, bytesRead) \<Rightarrow>
          (if \<not> ok then ([], ShowErrorLog m g) else (c_str (byte_chars bytes), AddLog m g)))"

definition WriteString :: "'o gt_api \<Rightarrow> dword \<Rightarrow> string \<Rightarrow> 'o gtlibc \<Rightarrow> bool \<times> 'o gtlibc" where
  "WriteString api address v g =
     (let m = ''WriteString''; g = AddLog m g in
      case ga_write api (gt_os g) (gt_handle g) address (char_bytes v @ [0]) of
        ((ok, n), os') \<Rightarrow>
          (let g = g\<lparr>gt_os := os'\<rparr> in if \<not> ok then (False, ShowErrorLog m g) else (True, AddLog m g)))"

section \<open>Keys\<close>

text \<open>\<open>state\<close> is \<open>GetAsyncKeyState\<close> at the time of the call; no key is undefined behaviour.\<close>

definition HotKeysDown :: "(32 word \<Rightarrow> 16 word) \<Rightarrow> 32 word list \<Rightarrow> bool option" where
  "HotKeysDown state keys =
     (case keys of
        [] \<Rightarrow> None
      | k # _ \<Rightarrow> Some (fold (\<lambda>key result. result AND state key) keys (state k) AND 0x8000 \<noteq> 0))"

definition IsKeyPressed :: "(32 word \<Rightarrow> 16 word) \<Rightarrow> 32 word \<Rightarrow> bool" where
  "IsKeyPressed state keycode \<longleftrightarrow> state keycode AND 0x8000 \<noteq> 0"

definition IsKeyToggled :: "(32 word \<Rightarrow> 16 word) \<Rightarrow> 32 word \<Rightarrow> bool" where
  "IsKeyToggled state keycode \<longleftrightarrow> state keycode AND 0x1 \<noteq> 0"

section \<open>The game's process\<close>

definition FindGameWindow :: "'o gt_api \<Rightarrow> string \<Rightarrow> 'o gtlibc \<Rightarrow> u64 \<times> 'o gtlibc" where
  "FindGameWindow api windowName g =
     (let g = AddLog ''FindGameWindow'' g in (ga_find_window api (gt_os g) windowName, g))"

definition GetGameName :: "'o gtlibc \<Rightarrow> string \<times> 'o gtlibc" where
  "GetGameName g =
     (let m = ''GetGameName''; g = AddLog m g
      in if gt_game_name g \<noteq> [] then (gt_game_name g, g) else ([], AddLog m g))"

definition GetProcessId :: "'o gtlibc \<Rightarrow> u32 \<times> 'o gtlibc" where
  "GetProcessId g =
     (let m = ''GetProcessId''; g = AddLog m g
      in if gt_process_id g \<noteq> 0 then (gt_process_id g, g) else (0, AddLog m g))"

definition GetGameHandle :: "'o gtlibc \<Rightarrow> game_handle \<times> 'o gtlibc" where
  "GetGameHandle g =
     (let m = ''GetGameHandle''; g = AddLog m g
      in if gt_handle g \<noteq> 0 then (gt_handle g, g) else (0, AddLog m g))"

text \<open>The base of the first module, cut to 32 bits.\<close>

definition GetGameBaseAddress :: "'o gt_api \<Rightarrow> 'o gtlibc \<Rightarrow> dword \<times> 'o gtlibc" where
  "GetGameBaseAddress api g =
     (let m = ''GetGameBaseAddress''; g = AddLog m g in
      case ga_first_module api (gt_os g) (gt_process_id g) of
        Some (Some modBaseAddr) \<Rightarrow>
          (let g = AddLog m (g\<lparr>gt_base := ucast modBaseAddr\<rparr>) in (gt_base g, g))
      | _ \<Rightarrow> (0, AddLog m g))"

text \<open>A local variable of the same name hides the one that is returned, which stays null.\<close>

definition GetGameHandle4mHWND :: "'o gt_api \<Rightarrow> u64 \<Rightarrow> 'o gtlibc \<Rightarrow> game_handle \<times> 'o gtlibc" where
  "GetGameHandle4mHWND api hwnd g =
     (let m = ''GetGameHandle4mHWND''; g = AddLog m g in
      case ga_window_pid api (gt_os g) hwnd of
        None \<Rightarrow> (0, ShowErrorLog m g)
      | Some pid \<Rightarrow>
          (let h = ga_open_process api (gt_os g) pid
           in if h = 0 then (0, ShowErrorLog m g) else (0, (AddLog m g)\<lparr>gt_handle := h\<rparr>)))"

definition GetProcessID4mHWND :: "'o gt_api \<Rightarrow> u64 \<Rightarrow> 'o gtlibc \<Rightarrow> u32 \<times> 'o gtlibc" where
  "GetProcessID4mHWND api hwnd g =
     (let m = ''GetProcessID4mHWND''; g = AddLog m g in
      case ga_window_pid api (gt_os g) hwnd of
        None \<Rightarrow> (0, ShowErrorLog m g)
      | Some pid \<Rightarrow> (pid, (AddLog m g)\<lparr>gt_process_id := pid\<rparr>))"

definition PROCESSOR_ARCHITECTURE_INTEL :: nat where "PROCESSOR_ARCHITECTURE_INTEL = 0"
definition PROCESSOR_ARCHITECTURE_AMD64 :: nat where "PROCESSOR_ARCHITECTURE_AMD64 = 9"

definition GetArchitectureString :: "nat \<Rightarrow> string" where
  "GetArchitectureString arch =
     (if arch = 0 then ''x86'' else if arch = 5 then ''ARM'' else if arch = 6 then ''IA-64''
      else if arch = 9 then ''x64'' else if arch = 12 then ''ARM64'' else if arch = 7 then ''Alpha64''
      else if arch = 4 then ''SHX'' else if arch = 1 then ''MIPS'' else if arch = 3 then ''PPC''
      else ''unknown'')"

text \<open>\<open>None\<close> is \<open>std::exit\<close>: a 32-bit trainer and a 64-bit game.\<close>

definition CheckGameTrainerArch :: "'o gt_api \<Rightarrow> 'o gtlibc \<Rightarrow> (bool \<times> 'o gtlibc) option" where
  "CheckGameTrainerArch api g =
     (let m = ''CheckGameTrainerArch''; current = ga_native_arch api (gt_os g);
          remote = (case ga_first_module api (gt_os g) (gt_process_id g) of
             Some (Some base) \<Rightarrow> if base \<ge> 0x80000000 then PROCESSOR_ARCHITECTURE_AMD64 else PROCESSOR_ARCHITECTURE_INTEL
           | _ \<Rightarrow> PROCESSOR_ARCHITECTURE_INTEL)
      in if current \<noteq> remote
         then (if current = PROCESSOR_ARCHITECTURE_INTEL \<and> remote = PROCESSOR_ARCHITECTURE_AMD64 then None
               else Some (False, AddLog m g))
         else Some (True, AddLog m g))"

definition game_exe :: "string \<Rightarrow> string" where
  "game_exe name =
     (if length name < 4 \<or> drop (length name - 4) name \<noteq> ''.exe'' then name @ ''.exe'' else name)"

text \<open>What the loop does with the entry it finds.\<close>

definition attach_game ::
  "'o gt_api \<Rightarrow> string \<Rightarrow> u32 \<Rightarrow> 'o gtlibc \<Rightarrow> (game_handle \<times> 'o gtlibc) option" where
  "attach_game api name pid g =
     (let m = ''FindGameProcess''; g = g\<lparr>gt_handle := ga_open_process api (gt_os g) pid\<rparr>
      in if gt_handle g = 0 \<and> pid > 0 then Some (gt_handle g, ShowErrorLog m g)
         else (case FindGameWindow api name (g\<lparr>gt_game_name := name, gt_process_id := pid\<rparr>) of
                 (w, g) \<Rightarrow>
                   (case GetGameBaseAddress api (g\<lparr>gt_window := w\<rparr>) of
                      (b, g) \<Rightarrow>
                        (case CheckGameTrainerArch api (AddLog m (g\<lparr>gt_base := b\<rparr>)) of
                           None \<Rightarrow> None
                         | Some (_, g) \<Rightarrow> Some (gt_handle g, g)))))"

text \<open>A game that is not found leaves, and returns, the previous handle.\<close>

definition FindGameProcess :: "'o gt_api \<Rightarrow> string \<Rightarrow> 'o gtlibc \<Rightarrow> (game_handle \<times> 'o gtlibc) option" where
  "FindGameProcess api gameName g =
     (let m = ''FindGameProcess''; exe = game_exe gameName; g = AddLog m g;
          g = (if exe \<noteq> gameName then AddLog m g else g); g = AddLog m g
      in case ga_processes api (gt_os g) of
           None \<Rightarrow> Some (0, ShowErrorLog m g)
         | Some [] \<Rightarrow> Some (0, ShowErrorLog m g)
         | Some procs \<Rightarrow>
             (case List.find (\<lambda>(name, pid). ga_same_name api name exe) procs of
                Some (_, pid) \<Rightarrow> attach_game api gameName pid g
              | None \<Rightarrow> Some (gt_handle g, ShowErrorLog m g)))"

text \<open>The constructors do not set every member: \<open>junk\<close> is what the object held before.\<close>

definition GTLibc_new :: "'o gt_api \<Rightarrow> 'o gtlibc \<Rightarrow> string \<Rightarrow> bool \<Rightarrow> 'o gtlibc option" where
  "GTLibc_new api junk gameName enableLogs =
     (let g = junk\<lparr>gt_game_name := [], gt_enable_logs := enableLogs\<rparr>
      in if gameName \<noteq> [] then map_option snd (FindGameProcess api gameName g) else Some g)"

section \<open>Lawful memory\<close>

text \<open>
  The documented behaviour of the memory calls, on the memory \<open>mem os h\<close> of the process behind a
  handle: a read of a mapped range succeeds with its bytes, nothing else does, a successful write
  stores all its bytes, a failed one none.
\<close>

definition wide :: "dword \<Rightarrow> address" where "wide a = ucast a"

definition gt_memory_api :: "'o gt_api \<Rightarrow> ('o \<Rightarrow> game_handle \<Rightarrow> mem) \<Rightarrow> bool" where
  "gt_memory_api api mem \<longleftrightarrow>
     (\<forall>os h a n. (case mem_slice (mem os h) (wide a) n of
        Some bs \<Rightarrow> ga_read api os h a n = (True, bs, n)
      | None \<Rightarrow> \<not> fst (ga_read api os h a n))) \<and>
     (\<forall>os h a bs ok n os'. ga_write api os h a bs = ((ok, n), os') \<longrightarrow>
        mem os' h = (if ok then mem_store (mem os h) (wide a) bs else mem os h) \<and> (ok \<longrightarrow> n = length bs))"

text \<open>The memory of the game, the value a read finds there (0 if it cannot), and the pointer walk.\<close>

abbreviation gt_mem :: "('o \<Rightarrow> game_handle \<Rightarrow> mem) \<Rightarrow> 'o gtlibc \<Rightarrow> mem" where
  "gt_mem mem g \<equiv> mem (gt_os g) (gt_handle g)"

definition word_at :: "mem \<Rightarrow> dword \<Rightarrow> 'a::len word" where
  "word_at m a = (case mem_slice m (wide a) (LENGTH('a) div 8) of Some bs \<Rightarrow> word_of_bytes bs | None \<Rightarrow> 0)"

fun dword_walk :: "mem \<Rightarrow> dword \<Rightarrow> dword list \<Rightarrow> dword" where
  "dword_walk m p [] = p"
| "dword_walk m p (off # offs) = dword_walk m (word_at m (p + off)) offs"

lemma ReadAddress_value:
  fixes g :: "'o gtlibc"
  assumes "gt_memory_api api mem"
  shows "fst (ReadAddress api a g :: 'a::len word \<times> 'o gtlibc) = word_at (gt_mem mem g) a"
proof -
  have "case mem_slice (gt_mem mem g) (wide a) (LENGTH('a) div 8) of
      Some bs \<Rightarrow> ga_read api (gt_os g) (gt_handle g) a (LENGTH('a) div 8) = (True, bs, LENGTH('a) div 8)
    | None \<Rightarrow> \<not> fst (ga_read api (gt_os g) (gt_handle g) a (LENGTH('a) div 8))"
    using assms unfolding gt_memory_api_def by blast
  then show ?thesis
    by (auto simp: ReadAddress_def word_at_def Let_def split: option.splits prod.splits)
qed

text \<open>Reading keeps the system and the attachment; of the rest only the logs change.\<close>

definition same_game :: "'o gtlibc \<Rightarrow> 'o gtlibc \<Rightarrow> bool" where
  "same_game g g' \<longleftrightarrow> gt_os g' = gt_os g \<and> gt_handle g' = gt_handle g \<and> gt_base g' = gt_base g"

lemma same_game_log [simp]:
  "same_game g g" "same_game g (AddLog m g') \<longleftrightarrow> same_game g g'" "same_game (AddLog m g) g' \<longleftrightarrow> same_game g g'"
  "same_game g (ShowErrorLog m g') \<longleftrightarrow> same_game g g'"
  by (simp_all add: same_game_def)

lemma same_game_trans: "same_game a b \<Longrightarrow> same_game b c \<Longrightarrow> same_game a c"
  by (simp add: same_game_def)

lemma ReadAddress_same: "same_game g (snd (ReadAddress api a g))"
  by (simp add: ReadAddress_def Let_def split: prod.split)

lemma ReadPointerOffset_spec:
  fixes g :: "'o gtlibc"
  assumes "gt_memory_api api mem"
  shows "fst (ReadPointerOffset api p off g) = (ucast (word_at (gt_mem mem g) (p + off) :: dword) :: 'a::len word)"
    "same_game g (snd (ReadPointerOffset api p off g :: 'a word \<times> 'o gtlibc))"
proof -
  let ?g = "AddLog ''ReadPointerOffset'' g"
  have "fst (ReadAddress api (p + off) ?g :: dword \<times> 'o gtlibc) = word_at (gt_mem mem g) (p + off)"
    using ReadAddress_value [OF assms, where a = "p + off" and g = ?g] by simp
  moreover have "same_game ?g (snd (ReadAddress api (p + off) ?g :: dword \<times> 'o gtlibc))" by (rule ReadAddress_same)
  ultimately show "fst (ReadPointerOffset api p off g) = (ucast (word_at (gt_mem mem g) (p + off) :: dword) :: 'a word)"
    "same_game g (snd (ReadPointerOffset api p off g :: 'a word \<times> 'o gtlibc))"
    by (simp_all add: ReadPointerOffset_def Let_def case_prod_beta)
qed

lemma pointer_chain_walk32:
  fixes g :: "'o gtlibc"
  assumes "gt_memory_api api mem"
  shows "fst (pointer_chain api p offs g) = dword_walk (gt_mem mem g) p offs \<and> same_game g (snd (pointer_chain api p offs g))"
proof (induction offs arbitrary: p g)
  case (Cons off offs)
  obtain p' g' where r: "(ReadPointerOffset api p off g :: dword \<times> 'o gtlibc) = (p', g')" by fastforce
  then have "p' = word_at (gt_mem mem g) (p + off)" "same_game g g'"
    using ReadPointerOffset_spec [OF assms, where p = p and off = off and g = g and ?'a = 32] by simp_all
  then show ?case
    using Cons.IH [of p' g'] r by (auto simp: same_game_def)
qed simp

lemma WriteAddress_cases:
  fixes g :: "'o gtlibc"
  assumes "gt_memory_api api mem"
  obtains (stored) g' where "WriteAddress api a (v :: 'a::len word) g = (True, g')" "gt_handle g' = gt_handle g"
    "gt_mem mem g' = mem_store (gt_mem mem g) (wide a) (bytes_of_word v)"
    "fst (fst (ga_write api (gt_os g) (gt_handle g) a (bytes_of_word v)))"
  | (refused) g' where "WriteAddress api a v g = (False, g')" "gt_handle g' = gt_handle g" "gt_mem mem g' = gt_mem mem g"
    "\<not> fst (fst (ga_write api (gt_os g) (gt_handle g) a (bytes_of_word v)))"
proof -
  obtain ok n os' where w: "ga_write api (gt_os g) (gt_handle g) a (bytes_of_word v) = ((ok, n), os')"
    by (metis prod.collapse)
  then have "mem os' (gt_handle g) = (if ok then mem_store (gt_mem mem g) (wide a) (bytes_of_word v) else gt_mem mem g)"
    "ok \<longrightarrow> n = length (bytes_of_word v)"
    using assms unfolding gt_memory_api_def by blast+
  then show ?thesis using w stored refused by (cases ok) (auto simp: WriteAddress_def Let_def)
qed

lemma ReadPointerOffsets_walk:
  fixes g :: "'o gtlibc"
  assumes "gt_memory_api api mem" "offsets \<noteq> []"
  obtains g' where "ReadPointerOffsets api a offsets g = Some (ucast (dword_walk (gt_mem mem g) a offsets) :: 'a::len word, g')"
    "same_game g g'"
proof -
  define g0 where "g0 = AddLog ''ReadPointerOffsets'' (AddLog ''ReadPointerOffsets'' g)"
  obtain p g1 where "pointer_chain api a offsets g0 = (p, g1)" by fastforce
  then show ?thesis
    using pointer_chain_walk32 [OF assms(1), of a offsets g0] assms(2)
    by (intro that [of "AddLog ''ReadPointerOffsets'' g1"]) (simp_all add: ReadPointerOffsets_def Let_def g0_def)
qed

section \<open>Properties\<close>

text \<open>
  \<open>WritePointerOffsets\<close> follows the pointers of the game and writes there: for a non-empty list
  of offsets it is defined, and when it reports success the value is stored at the end of the walk
  (at each step add the offset, then dereference, the last step included), where \<open>ReadAddress\<close>
  finds it; when it does not, the game's memory is unchanged.
\<close>

theorem legacy_pointer_write:
  fixes g :: "'o gtlibc" and v :: "'a::len word"
  assumes "gt_memory_api api mem" and "offsets \<noteq> []" and "8 dvd LENGTH('a)" and "LENGTH('a) \<le> 64"
  shows "\<exists>ok g'. WritePointerOffsets api a offsets v g = Some (ok, g') \<and>
    ok = fst (fst (ga_write api (gt_os g) (gt_handle g) (dword_walk (gt_mem mem g) a offsets) (bytes_of_word v))) \<and>
    (ok \<longrightarrow> gt_mem mem g' = mem_store (gt_mem mem g) (wide (dword_walk (gt_mem mem g) a offsets)) (bytes_of_word v) \<and>
       fst (ReadAddress api (dword_walk (gt_mem mem g) a offsets) g') = v) \<and>
    (\<not> ok \<longrightarrow> gt_mem mem g' = gt_mem mem g)"
proof -
  let ?t = "dword_walk (gt_mem mem g) a offsets"
  obtain g1 where g1: "ReadPointerOffsets api a offsets (AddLog ''WritePointerOffsets'' g) = Some (?t, g1)" "same_game g g1"
    using ReadPointerOffsets_walk [OF assms(1,2), where a = a and g = "AddLog ''WritePointerOffsets'' g" and ?'a = 32] by auto
  have m: "gt_mem mem g1 = gt_mem mem g" "gt_os g1 = gt_os g" "gt_handle g1 = gt_handle g"
    using g1(2) by (simp_all add: same_game_def)
  show ?thesis
  proof (rule WriteAddress_cases [OF assms(1), where a = ?t and v = v and g = g1])
    fix g' assume w: "WriteAddress api ?t v g1 = (True, g')"
      "gt_mem mem g' = mem_store (gt_mem mem g1) (wide ?t) (bytes_of_word v)"
      "fst (fst (ga_write api (gt_os g1) (gt_handle g1) ?t (bytes_of_word v)))"
    have len: "length (bytes_of_word v) \<le> 2 ^ 64" using assms(4) by simp
    have "mem_slice (gt_mem mem g') (wide ?t) (LENGTH('a) div 8) = Some (bytes_of_word v)"
      using mem_slice_store [OF len, of "gt_mem mem g1" "wide ?t"] w(2) by simp
    then have "fst (ReadAddress api ?t g') = v"
      using ReadAddress_value [OF assms(1), where a = ?t and g = g' and ?'a = 'a]
      by (simp add: word_at_def word_of_bytes_of_word [OF assms(3)])
    then show ?thesis
      using g1(1) w m by (intro exI [of _ True] exI [of _ g']) (simp add: WritePointerOffsets_def)
  next
    fix g' assume "WriteAddress api ?t v g1 = (False, g')" "gt_mem mem g' = gt_mem mem g1"
      "\<not> fst (fst (ga_write api (gt_os g1) (gt_handle g1) ?t (bytes_of_word v)))"
    then show ?thesis
      using g1(1) m by (intro exI [of _ False] exI [of _ g']) (simp add: WritePointerOffsets_def)
  qed
qed

text \<open>A game whose memory is the system's state.\<close>

definition one_game :: "mem gt_api" where
  "one_game = \<lparr>ga_read = (\<lambda>os h a n. case mem_slice os (wide a) n of Some bs \<Rightarrow> (True, bs, n) | None \<Rightarrow> (False, [], 0)),
     ga_write = (\<lambda>os h a bs. ((True, length bs), mem_store os (wide a) bs)),
     ga_processes = (\<lambda>os. Some [(''game.exe'', 7)]), ga_same_name = (=), ga_open_process = (\<lambda>os pid. 1),
     ga_find_window = (\<lambda>os title. 0), ga_first_module = (\<lambda>os pid. Some (Some 0x400000)),
     ga_native_arch = (\<lambda>os. 9), ga_window_pid = (\<lambda>os w. Some 7)\<rparr>"

lemma one_game_api: "gt_memory_api one_game (\<lambda>os h. os)"
  by (auto simp: gt_memory_api_def one_game_def split: option.split)

lemma one_game_writes: "fst (fst (ga_write one_game os h a bs))"
  by (simp add: one_game_def)

definition game_at :: "mem \<Rightarrow> mem gtlibc" where
  "game_at m = \<lparr>gt_os = m, gt_game_name = ''game'', gt_window = 0, gt_process_id = 7, gt_handle = 1, gt_base = 0x400000,
     gt_enable_logs = False, gt_log = [], gt_errors = []\<rparr>"

theorem legacy_pointer_write_witness:
  "\<exists>g'. WritePointerOffsets one_game 0x400000 [0x10] (100 :: u32)
      (game_at (mem_store (\<lambda>_. None) 0x400010 [0x00, 0x50, 0, 0])) = Some (True, g') \<and>
    fst (ReadAddress one_game 0x5000 g') = (100 :: u32)"
proof -
  have "word_at (mem_store (\<lambda>_. None) 0x400010 [0x00, 0x50, 0, 0]) 0x400010 = (0x5000 :: dword)"
    by (simp add: word_at_def wide_def mem_slice_numeral)
  then show ?thesis
    using legacy_pointer_write [OF one_game_api, where offsets = "[0x10]" and a = "0x400000" and v = "100 :: u32"
        and g = "game_at (mem_store (\<lambda>_. None) 0x400010 [0x00, 0x50, 0, 0])"]
    by (auto simp: game_at_def one_game_writes)
qed

text \<open>
  the batch operations lose their results. \<open>WriteAddressOffsets\<close> writes the value at every
  offset, in order, and returns \<open>false\<close> although every write succeeded; \<open>ReadAddressOffsets\<close>
  follows the whole chain and returns 0 whatever is there (and is undefined for no offsets).
\<close>

theorem legacy_batch_results_lost:
  fixes g :: "'o gtlibc" and v :: "'a::len word"
  assumes "gt_memory_api api mem" and "\<And>os h a bs. fst (fst (ga_write api os h a bs))"
  shows "\<not> fst (WriteAddressOffsets api address offsets v g) \<and>
    gt_mem mem (snd (WriteAddressOffsets api address offsets v g))
      = fold (\<lambda>off m. mem_store m (wide (address + off)) (bytes_of_word v)) offsets (gt_mem mem g) \<and>
    map_option fst (ReadAddressOffsets api address offsets g :: (('b::len word) \<times> 'o gtlibc) option)
      = (if offsets = [] then None else Some 0)"
proof -
  have "gt_mem mem (fold (\<lambda>off g. snd (WriteAddressOffset api address off v g)) offsets g)
      = fold (\<lambda>off m. mem_store m (wide (address + off)) (bytes_of_word v)) offsets (gt_mem mem g)" for g
  proof (induction offsets arbitrary: g)
    case (Cons off offsets)
    have "gt_mem mem (snd (WriteAddressOffset api address off v g)) = mem_store (gt_mem mem g) (wide (address + off)) (bytes_of_word v)"
      unfolding WriteAddressOffset_def
      by (rule WriteAddress_cases [OF assms(1), where a = "address + off" and v = v and g = "AddLog ''WriteAddressOffset'' g"])
        (use assms(2) in auto)
    then show ?case using Cons [of "snd (WriteAddressOffset api address off v g)"] by simp
  qed simp
  then show ?thesis by (simp add: WriteAddressOffsets_def ReadAddressOffsets_def Let_def case_prod_beta)
qed

theorem legacy_batch_results_lost_witness:
  "\<not> fst (WriteAddressOffsets one_game 0x5000 [0, 4] (100 :: u32) (game_at (\<lambda>_. None))) \<and>
   gt_os (snd (WriteAddressOffsets one_game 0x5000 [0, 4] (100 :: u32) (game_at (\<lambda>_. None))))
     = mem_store (mem_store (\<lambda>_. None) (wide 0x5000) (bytes_of_word (100 :: u32))) (wide 0x5004) (bytes_of_word (100 :: u32))"
proof -
  have os: "gt_os (game_at (\<lambda>_. None)) = (\<lambda>_. None)" by (simp add: game_at_def)
  have "\<not> fst (WriteAddressOffsets one_game 0x5000 [0, 4] (100 :: u32) (game_at (\<lambda>_. None))) \<and>
      gt_os (snd (WriteAddressOffsets one_game 0x5000 [0, 4] (100 :: u32) (game_at (\<lambda>_. None))))
        = fold (\<lambda>off m. mem_store m (wide (0x5000 + off)) (bytes_of_word (100 :: u32))) [0, 4] (gt_os (game_at (\<lambda>_. None)))"
    using legacy_batch_results_lost [OF one_game_api one_game_writes, where address = "0x5000" and offsets = "[0, 4]"
        and v = "100 :: u32" and g = "game_at (\<lambda>_. None)" and ?'b = 32] by blast
  then show ?thesis by (simp only: os) simp
qed

end
