(* ===== verification/Legacy_Parser.thy ===== *)
theory Legacy_Parser
  imports Number_Text
begin

text \<open>
  The regular-expression parser of Cheat Engine tables, \<open>libs/gtlibc/src/CEParser.cpp\<close>. Each
  \<open>std::regex\<close> of the file is a sequence of literals, character runs and lazy gaps, and is
  modelled as the scanner it denotes: a lazy gap before a literal ends at the first occurrence
  of the literal, because a later one leaves less text for the rest. \<open>std::stoul\<close> is that of a
  32-bit \<open>unsigned long\<close>. \<open>Inl\<close> is an exception, \<open>None\<close> a recursion that does not end.
\<close>

section \<open>Scanners\<close>

definition strip_lit :: "string \<Rightarrow> string \<Rightarrow> string option" where
  "strip_lit lit s = (if take (length lit) s = lit then Some (drop (length lit) s) else None)"

text \<open>A lazy gap and the literal that ends it: the gap and what follows.\<close>

fun gap_until :: "string \<Rightarrow> string \<Rightarrow> (string \<times> string) option" where
  "gap_until lit [] = (if lit = [] then Some ([], []) else None)"
| "gap_until lit (c # s) =
     (case strip_lit lit (c # s) of
        Some rest \<Rightarrow> Some ([], rest)
      | None \<Rightarrow> map_option (\<lambda>(gap, rest). (c # gap, rest)) (gap_until lit s))"

text \<open>\<open>regex_search\<close>: the leftmost position where a matcher succeeds.\<close>

fun search :: "(string \<Rightarrow> 'm option) \<Rightarrow> string \<Rightarrow> 'm option" where
  "search matcher [] = matcher []"
| "search matcher (c # s) = (case matcher (c # s) of Some m \<Rightarrow> Some m | None \<Rightarrow> search matcher s)"

text \<open>\<open>sregex_iterator\<close>: the next search starts after the match; the matchers here all consume.\<close>

function all_matches :: "(string \<Rightarrow> ('m \<times> string) option) \<Rightarrow> string \<Rightarrow> 'm list" where
  "all_matches matcher s =
     (case search matcher s of
        None \<Rightarrow> []
      | Some (m, rest) \<Rightarrow> (if length rest < length s then m # all_matches matcher rest else [m]))"
  by pat_completeness auto
termination
  by (relation "measure (\<lambda>(_, s). length s)") auto

declare all_matches.simps [simp del]

definition is_xdigit :: "char \<Rightarrow> bool" where
  "is_xdigit c \<longleftrightarrow> char_digit c < 16"

text \<open>A tag around a run of digits.\<close>

definition digits_tag :: "string \<Rightarrow> string \<Rightarrow> (char \<Rightarrow> bool) \<Rightarrow> string \<Rightarrow> (string \<times> string) option" where
  "digits_tag opening closing digit s =
     (case strip_lit opening s of
        None \<Rightarrow> None
      | Some r \<Rightarrow>
          (let ds = takeWhile digit r in
           if ds = [] then None
           else map_option (\<lambda>rest. (ds, rest)) (strip_lit closing (dropWhile digit r))))"

text \<open>A tag around text on one line: \<open>.\<close> matches no line terminator.\<close>

definition line_tag :: "string \<Rightarrow> string \<Rightarrow> string \<Rightarrow> (string \<times> string) option" where
  "line_tag opening closing s =
     (case strip_lit opening s of
        None \<Rightarrow> None
      | Some r \<Rightarrow>
          (case gap_until closing r of
             None \<Rightarrow> None
           | Some (txt, rest) \<Rightarrow>
               (if list_ex (\<lambda>c. c = CHR 0x0A \<or> c = CHR 0x0D) txt then None else Some (txt, rest))))"

text \<open>\<open>matches[1].str()\<close> after a search: empty when nothing matched.\<close>

definition first_text :: "(string \<Rightarrow> (string \<times> string) option) \<Rightarrow> string \<Rightarrow> string" where
  "first_text matcher s = (case search matcher s of Some (txt, rest) \<Rightarrow> txt | None \<Rightarrow> [])"

definition stoul32 :: "nat \<Rightarrow> string \<Rightarrow> string + u32" where
  "stoul32 base s =
     (case strto base s of
        None \<Rightarrow> Inl ''stoul''
      | Some (neg, n) \<Rightarrow>
          (if 2 ^ 32 \<le> n then Inl ''stoul'' else Inr (if neg then - of_nat n else of_nat n)))"

definition stoi32 :: "string \<Rightarrow> string + int" where
  "stoi32 s =
     (case strto 10 s of
        None \<Rightarrow> Inl ''stoi''
      | Some (neg, n) \<Rightarrow>
          (let v = (if neg then - int n else int n)
           in if v < - (2 ^ 31) \<or> 2 ^ 31 \<le> v then Inl ''stoi'' else Inr v))"

text \<open>A function that may throw, over a list.\<close>

fun map_throw :: "('a \<Rightarrow> string + 'b) \<Rightarrow> 'a list \<Rightarrow> string + 'b list" where
  "map_throw f [] = Inr []"
| "map_throw f (x # xs) =
     (case f x of
        Inl e \<Rightarrow> Inl e
      | Inr y \<Rightarrow> (case map_throw f xs of Inl e \<Rightarrow> Inl e | Inr ys \<Rightarrow> Inr (y # ys)))"

section \<open>Addresses and offsets\<close>

text \<open>The module in quotes, if the text starts with one, and the rest.\<close>

definition quoted_module :: "string \<Rightarrow> string \<times> string" where
  "quoted_module s =
     (case s of
        [] \<Rightarrow> ([], s)
      | q # r \<Rightarrow>
          (let m = takeWhile (\<lambda>c. c \<noteq> CHR 0x22) r in
           if q = CHR 0x22 \<and> m \<noteq> [] \<and> length m < length r then (m, drop (length m + 1) r) else ([], s)))"

text \<open>The groups 2 or 3 (the module) and 6 (the offset) of the address expression.\<close>

definition address_parts :: "string \<Rightarrow> string \<times> string" where
  "address_parts s =
     (case quoted_module s of
        (quoted, r) \<Rightarrow>
          (let plain = takeWhile (\<lambda>c. c \<noteq> CHR ''+'') r;
               r = dropWhile is_space (dropWhile (\<lambda>c. c \<noteq> CHR ''+'') r);
               r = (if r \<noteq> [] \<and> hd r = CHR ''+'' then tl r else r);
               r = dropWhile is_space r;
               r = (if take 2 r = ''0x'' then drop 2 r else r)
           in (if quoted = [] then plain else quoted, takeWhile is_xdigit r)))"

definition ParseAddress :: "u32 \<Rightarrow> string \<Rightarrow> string + u32" where
  "ParseAddress gameBaseAddress s =
     (case address_parts s of
        (moduleName, offsetStr) \<Rightarrow>
          (if list_all is_xdigit moduleName then stoul32 16 moduleName
           else (case (if offsetStr = [] then Inr 0 else stoul32 16 offsetStr) of
                   Inl e \<Rightarrow> Inl e
                 | Inr offset \<Rightarrow> Inr ((if moduleName = [] then 0 else gameBaseAddress) + offset))))"

definition ParseOffsets :: "string \<Rightarrow> string + u32 list" where
  "ParseOffsets s = map_throw (stoul32 16) (all_matches (digits_tag ''<Offset>'' ''</Offset>'' is_xdigit) s)"

section \<open>Hotkeys\<close>

record legacy_hotkey =
  hk_action :: string
  hk_keys :: "u32 list"
  hk_value :: string
  hk_id :: int

text \<open>The groups of the hotkey expression: action, keys, value, id.\<close>

definition hotkey_tail :: "string \<Rightarrow> (string \<times> string) option" where
  "hotkey_tail s =
     (case gap_until ''<ID>'' s of
        None \<Rightarrow> None
      | Some (_, s) \<Rightarrow>
          (case gap_until ''</ID>'' s of
             None \<Rightarrow> None
           | Some (ident, s) \<Rightarrow>
               (case gap_until ''</Hotkey>'' s of None \<Rightarrow> None | Some (_, rest) \<Rightarrow> Some (ident, rest))))"

definition hotkey_value_tail :: "string \<Rightarrow> (string \<times> string \<times> string) option" where
  "hotkey_value_tail s =
     (case gap_until ''<Value>'' s of
        None \<Rightarrow> None
      | Some (_, s) \<Rightarrow>
          (case gap_until ''</Value>'' s of
             None \<Rightarrow> None
           | Some (v, s) \<Rightarrow> map_option (\<lambda>(ident, rest). (v, ident, rest)) (hotkey_tail s)))"

definition match_hotkey :: "string \<Rightarrow> ((string \<times> string \<times> string \<times> string) \<times> string) option" where
  "match_hotkey s =
     (case strip_lit ''<Hotkey>'' s of
        None \<Rightarrow> None
      | Some s \<Rightarrow>
     (case gap_until ''<Action>'' s of
        None \<Rightarrow> None
      | Some (_, s) \<Rightarrow>
     (case gap_until ''</Action>'' s of
        None \<Rightarrow> None
      | Some (action, s) \<Rightarrow>
     (case gap_until ''<Keys>'' s of
        None \<Rightarrow> None
      | Some (_, s) \<Rightarrow>
     (case gap_until ''</Keys>'' s of
        None \<Rightarrow> None
      | Some (keys, s) \<Rightarrow>
          (case hotkey_value_tail s of
             Some (v, ident, rest) \<Rightarrow> Some ((action, keys, v, ident), rest)
           | None \<Rightarrow> map_option (\<lambda>(ident, rest). ((action, keys, [], ident), rest)) (hotkey_tail s)))))))"

text \<open>\<open>substr(1, size - 2)\<close> of an empty text throws.\<close>

definition convert_hotkey :: "string \<times> string \<times> string \<times> string \<Rightarrow> string + legacy_hotkey" where
  "convert_hotkey groups =
     (case groups of
        (action, keysStr, v, ident) \<Rightarrow>
          (if keysStr = [] then Inl ''basic_string::substr''
           else (case map_throw (stoul32 10) (all_matches (digits_tag ''<Key>'' ''</Key>'' is_digit)
                        (take (length keysStr - 2) (tl keysStr))) of
                   Inl e \<Rightarrow> Inl e
                 | Inr keys \<Rightarrow>
                     (case stoi32 ident of
                        Inl e \<Rightarrow> Inl e
                      | Inr n \<Rightarrow> Inr \<lparr>hk_action = action, hk_keys = keys, hk_value = v, hk_id = n\<rparr>))))"

definition ParseHotkeys :: "string \<Rightarrow> string + legacy_hotkey list" where
  "ParseHotkeys s = map_throw convert_hotkey (all_matches match_hotkey s)"

section \<open>Entries\<close>

datatype cheat_value =
    CV_u8 u8 | CV_u16 "16 word" | CV_u32 u32 | CV_u64 u64
  | CV_float u32 | CV_double u64 | CV_string string

datatype legacy_entry = LegacyEntry
  (lent_description: string) (lent_id: int) (lent_type: string) (lent_address: u32) (lent_offsets: "u32 list")
  (lent_hotkeys: "legacy_hotkey list") (lent_nested: "legacy_entry list")
  (lent_value: cheat_value) (lent_action: string) (lent_hotkey_ids: "u32 list")

definition entry_of_text :: "u32 \<Rightarrow> string \<Rightarrow> string + legacy_entry" where
  "entry_of_text gameBaseAddress s =
     (let description = first_text (line_tag ''<Description>'' ''</Description>'') s in
      case stoi32 (first_text (digits_tag ''<ID>'' ''</ID>'' is_digit) s) of
        Inl e \<Rightarrow> Inl e
      | Inr n \<Rightarrow>
          (let variableType = first_text (line_tag ''<VariableType>'' ''</VariableType>'') s in
           case (if variableType = ''Auto Assembler Script'' then Inr 0
                 else ParseAddress gameBaseAddress (first_text (line_tag ''<Address>'' ''</Address>'') s)) of
             Inl e \<Rightarrow> Inl e
           | Inr address \<Rightarrow>
               (case ParseOffsets s of
                  Inl e \<Rightarrow> Inl e
                | Inr offsets \<Rightarrow>
                    (case ParseHotkeys s of
                       Inl e \<Rightarrow> Inl e
                     | Inr hotkeys \<Rightarrow>
                         Inr (LegacyEntry description n variableType address offsets hotkeys [] (CV_u8 0) [] [])))))"

definition with_nested :: "legacy_entry \<Rightarrow> legacy_entry list \<Rightarrow> legacy_entry" where
  "with_nested e ns =
     (case e of LegacyEntry d n t a os hs _ v act ks \<Rightarrow> LegacyEntry d n t a os hs ns v act ks)"

text \<open>The entries a node contains: on one line for the nested ones, over lines for the table's.\<close>

definition line_entries :: "string \<Rightarrow> string list" where
  "line_entries s = map (\<lambda>body. ''<CheatEntry>'' @ body @ ''</CheatEntry>'')
     (all_matches (line_tag ''<CheatEntry>'' ''</CheatEntry>'') s)"

definition block_tag :: "string \<Rightarrow> (string \<times> string) option" where
  "block_tag s =
     (case strip_lit ''<CheatEntry>'' s of None \<Rightarrow> None | Some r \<Rightarrow> gap_until ''</CheatEntry>'' r)"

definition block_entries :: "string \<Rightarrow> string list" where
  "block_entries s = map (\<lambda>body. ''<CheatEntry>'' @ body @ ''</CheatEntry>'') (all_matches block_tag s)"

text \<open>
  \<open>ParseNestedCheatEntries\<close>, over the list of the texts its expression matches: each entry is
  parsed, then searched for nested ones.
\<close>

partial_function (option) parse_entries :: "u32 \<Rightarrow> string list \<Rightarrow> (string + legacy_entry list) option" where
  "parse_entries base ss =
     (case ss of
        [] \<Rightarrow> Some (Inr [])
      | s # rest \<Rightarrow>
          (case entry_of_text base s of
             Inl e \<Rightarrow> Some (Inl e)
           | Inr entry \<Rightarrow>
               Option.bind (parse_entries base (line_entries s)) (\<lambda>nested.
                 (case nested of
                    Inl e \<Rightarrow> Some (Inl e)
                  | Inr ns \<Rightarrow>
                      Option.bind (parse_entries base rest) (\<lambda>others.
                        (case others of
                           Inl e \<Rightarrow> Some (Inl e)
                         | Inr es \<Rightarrow> Some (Inr (with_nested entry ns # es))))))))"

definition ParseNestedCheatEntries :: "u32 \<Rightarrow> string \<Rightarrow> (string + legacy_entry list) option" where
  "ParseNestedCheatEntries base parentNode = parse_entries base (line_entries parentNode)"

text \<open>A positive \<open>entries\<close> bounds the number of entries parsed.\<close>

fun table_entries :: "u32 \<Rightarrow> int \<Rightarrow> string list \<Rightarrow> legacy_entry list \<Rightarrow> (string + legacy_entry list) option" where
  "table_entries base entries [] acc = Some (Inr acc)"
| "table_entries base entries (s # rest) acc =
     (case entry_of_text base s of
        Inl e \<Rightarrow> Some (Inl e)
      | Inr entry \<Rightarrow>
          (case ParseNestedCheatEntries base s of
             None \<Rightarrow> None
           | Some (Inl e) \<Rightarrow> Some (Inl e)
           | Some (Inr ns) \<Rightarrow>
               (let acc = acc @ [with_nested entry ns] in
                if entries > 0 \<and> int (length acc) \<ge> entries then Some (Inr acc)
                else table_entries base entries rest acc)))"

definition ParseCheatTable :: "u32 \<Rightarrow> string \<Rightarrow> int \<Rightarrow> (string + legacy_entry list) option" where
  "ParseCheatTable base cheatTableData entries = table_entries base entries (block_entries cheatTableData) []"

section \<open>Lemmas: scanning\<close>

lemma strip_lit_append [simp]: "strip_lit lit (lit @ s) = Some s"
  by (simp add: strip_lit_def)

lemma search_here: "matcher s = Some m \<Longrightarrow> search matcher s = Some m"
  by (cases s) simp_all

lemma all_matches_here:
  "matcher s = Some (m, rest) \<Longrightarrow> length rest < length s \<Longrightarrow> all_matches matcher s = m # all_matches matcher rest"
  by (subst all_matches.simps) (simp add: search_here)

lemma all_matches_none: "search matcher s = None \<Longrightarrow> all_matches matcher s = []"
  by (subst all_matches.simps) simp

section \<open>Lemmas: hexadecimal text\<close>

definition hex_digit :: "nat \<Rightarrow> char" where
  "hex_digit n = char_of (if n < 10 then 48 + n else 55 + n)"

fun show_hex :: "nat \<Rightarrow> string" where
  "show_hex n = (if n < 16 then [hex_digit n] else show_hex (n div 16) @ [hex_digit (n mod 16)])"

declare show_hex.simps [simp del]

lemma char_digit_hex [simp]: "n < 16 \<Longrightarrow> char_digit (hex_digit n) = n"
  by (auto simp: hex_digit_def char_digit_def is_digit_def)

lemma base_value_append: "base_value b acc (xs @ ys) = base_value b (base_value b acc xs) ys"
  by (induction xs arbitrary: acc) simp_all

lemma show_hex_value: "base_value 16 0 (show_hex n) = n"
proof (induction n rule: show_hex.induct)
  case (1 n)
  then show ?case by (subst show_hex.simps) (simp add: base_value_append)
qed

lemma show_hex_xdigits: "c \<in> set (show_hex n) \<Longrightarrow> is_xdigit c"
proof (induction n rule: show_hex.induct)
  case (1 n)
  then show ?case by (subst (asm) show_hex.simps) (auto simp: is_xdigit_def split: if_splits)
qed

lemma show_hex_nonempty [simp]: "show_hex n \<noteq> []"
  by (subst show_hex.simps) simp

lemma xdigit_facts:
  assumes "is_xdigit c"
  shows "\<not> is_space c" "c \<noteq> CHR ''-''" "c \<noteq> CHR ''+''" "c \<noteq> CHR ''x''" "c \<noteq> CHR ''X''" "c \<noteq> CHR ''<''" "c \<noteq> CHR 0x22"
  using assms by (auto simp: is_xdigit_def char_digit_def is_space_def is_digit_def split: if_splits)

lemma strto_xdigits:
  assumes "ds \<noteq> []" "\<And>c. c \<in> set ds \<Longrightarrow> is_xdigit c"
  shows "strto 16 ds = Some (False, base_value 16 0 ds)"
proof -
  obtain c cs where ds: "ds = c # cs" using assms(1) by (cases ds) auto
  have c: "is_xdigit c" using assms(2) ds by simp
  have "\<not> has_hex_prefix ds"
    using assms(2) xdigit_facts(4,5) unfolding ds by (cases cs; cases "tl cs") auto
  moreover have "takeWhile (\<lambda>c. char_digit c < 16) ds = ds"
    using assms(2) by (auto simp: takeWhile_eq_all_conv is_xdigit_def)
  ultimately show ?thesis
    using xdigit_facts [OF c] by (simp add: strto_def Let_def ds)
qed

lemma stoul32_show_hex: "n < 2 ^ 32 \<Longrightarrow> stoul32 16 (show_hex n) = Inr (of_nat n)"
  using strto_xdigits [of "show_hex n"] show_hex_xdigits [of _ n] by (simp add: stoul32_def show_hex_value)

lemma takeWhile_show_hex:
  "\<not> is_xdigit c \<Longrightarrow> takeWhile is_xdigit (show_hex n @ c # s) = show_hex n"
  "\<not> is_xdigit c \<Longrightarrow> dropWhile is_xdigit (show_hex n @ c # s) = c # s"
  "takeWhile is_xdigit (show_hex n) = show_hex n"
  using show_hex_xdigits [of _ n] by (simp_all add: takeWhile_append dropWhile_append takeWhile_eq_all_conv)

section \<open>Properties\<close>

definition offset_text :: "u32 \<Rightarrow> string" where
  "offset_text w = ''<Offset>'' @ show_hex (unat w) @ ''</Offset>''"

text \<open>
  the offsets of an entry are read back: a list of 32-bit offsets written as \<open><Offset>\<close>
  elements in hexadecimal is parsed to that list, in order and without an exception.
\<close>

theorem parse_offsets_roundtrip: "ParseOffsets (concat (map offset_text ws)) = Inr ws"
proof -
  have tag: "digits_tag ''<Offset>'' ''</Offset>'' is_xdigit (offset_text w @ r) = Some (show_hex (unat w), r)" for w r
    using takeWhile_show_hex(1,2) [of "CHR ''<''" "unat w" "''/Offset>'' @ r"]
    by (simp add: digits_tag_def offset_text_def strip_lit_def is_xdigit_def char_digit_def is_digit_def)
  have len: "offset_text w \<noteq> []" for w by (simp add: offset_text_def)
  have all: "all_matches (digits_tag ''<Offset>'' ''</Offset>'' is_xdigit) (concat (map offset_text ws))
      = map (\<lambda>w. show_hex (unat w)) ws"
  proof (induction ws)
    case Nil
    show ?case by (simp add: all_matches_none digits_tag_def strip_lit_def)
  next
    case (Cons w ws)
    then show ?case
      using all_matches_here [of "digits_tag ''<Offset>'' ''</Offset>'' is_xdigit", OF tag [of w "concat (map offset_text ws)"]]
      by (simp add: len)
  qed
  have "unat w < 2 ^ 32" for w :: u32 using unsigned_less [of w] by simp
  then have "map_throw (stoul32 16) (map (\<lambda>w. show_hex (unat w)) ws) = Inr ws" for ws :: "u32 list"
    by (induction ws) (simp_all add: stoul32_show_hex)
  then show ?thesis by (simp add: ParseOffsets_def all)
qed

text \<open>
  what an address means. Hexadecimal digits alone are an absolute address; a quoted module
  name, unless it is itself hexadecimal digits only, is the game's base address plus the offset
  (32-bit addition); an empty text, and an offset without a module, are not the address 0 the
  code asks for but an exception, since the empty name counts as hexadecimal.
\<close>

theorem parse_address_meaning:
  assumes "n < 2 ^ 32" and "m \<noteq> []" and "CHR 0x22 \<notin> set m" and "\<not> list_all is_xdigit m"
  shows "ParseAddress base (show_hex n) = Inr (of_nat n) \<and>
    ParseAddress base (CHR 0x22 # m @ CHR 0x22 # CHR ''+'' # show_hex n) = Inr (base + of_nat n) \<and>
    ParseAddress base [] = Inl ''stoul'' \<and> ParseAddress base (CHR ''+'' # show_hex n) = Inl ''stoul''"
proof -
  obtain c cs where h: "show_hex n = c # cs" by (cases "show_hex n") auto
  have c: "is_xdigit c" using show_hex_xdigits [of c n] h by simp
  note f = xdigit_facts [OF c]
  have all: "list_all is_xdigit (show_hex n)" using show_hex_xdigits by (auto simp: list_all_iff)
  have noplus: "takeWhile (\<lambda>c. c \<noteq> CHR ''+'') (show_hex n) = show_hex n"
    using show_hex_xdigits xdigit_facts(3) by (fastforce simp: takeWhile_eq_all_conv)
  have noplus': "dropWhile (\<lambda>c. c \<noteq> CHR ''+'') (show_hex n) = []"
    using show_hex_xdigits xdigit_facts(3) by (fastforce simp: dropWhile_eq_Nil_conv)
  have noquote: "quoted_module (show_hex n) = ([], show_hex n)" using f(7) by (simp add: quoted_module_def h)
  have nox: "take 2 (show_hex n) \<noteq> ''0x''"
    using show_hex_xdigits [of "CHR ''x''" n] xdigit_facts(4) [of "CHR ''x''"] set_take_subset [of 2 "show_hex n"] by auto
  have tail: "dropWhile is_space (show_hex n) = show_hex n" "takeWhile is_xdigit (show_hex n) = show_hex n"
    using f takeWhile_show_hex(3) [of n] by (simp_all only: h) simp_all
  have quote: "takeWhile (\<lambda>c. c \<noteq> CHR 0x22) (m @ CHR 0x22 # r) = m" for r
    using assms(3) by (simp add: takeWhile_append)
  have "address_parts (show_hex n) = (show_hex n, takeWhile is_xdigit [])"
    by (simp add: address_parts_def noquote noplus noplus' Let_def)
  moreover have "quoted_module (CHR 0x22 # m @ CHR 0x22 # CHR ''+'' # show_hex n) = (m, CHR ''+'' # show_hex n)"
    using assms(2) by (simp add: quoted_module_def quote Let_def)
  then have "address_parts (CHR 0x22 # m @ CHR 0x22 # CHR ''+'' # show_hex n) = (m, show_hex n)"
    using assms(2) nox tail by (simp add: address_parts_def Let_def is_space_def)
  moreover have "address_parts (CHR ''+'' # show_hex n) = ([], show_hex n)"
    using nox tail by (simp add: address_parts_def quoted_module_def Let_def is_space_def)
  moreover have "address_parts [] = ([], [])" by (simp add: address_parts_def quoted_module_def)
  ultimately show ?thesis
    using assms all stoul32_show_hex [OF assms(1)] by (simp add: ParseAddress_def stoul32_def strto_def Let_def)
qed

theorem parse_address_meaning_witness:
  "ParseAddress 0x400000 (CHR 0x22 # ''ac_client.exe'' @ CHR 0x22 # CHR ''+'' # show_hex 0x17E0A8) = Inr 0x57E0A8"
  using parse_address_meaning [of "0x17E0A8" "''ac_client.exe''" "0x400000"]
  by (simp add: is_xdigit_def char_digit_def is_digit_def)

section \<open>Nested entries\<close>

lemma gap_until_cut:
  "gap_until lit (body @ lit @ r) = Some (body, r) \<Longrightarrow> gap_until lit (body @ lit) = Some (body, [])"
proof (induction body)
  case Nil
  show ?case by (cases lit) (simp_all add: strip_lit_def)
next
  case (Cons c body)
  have no: "strip_lit lit (c # body @ lit @ r) = None"
    using Cons.prems by (auto split: option.splits)
  have "take (length lit) (c # body @ lit @ r) = take (length lit) (c # body @ lit)"
    by (cases "length lit") simp_all
  then have "strip_lit lit (c # body @ lit) = None" using no by (simp add: strip_lit_def split: if_splits)
  then show ?case using Cons no by (auto split: option.splits)
qed

lemma entry_lines:
  assumes "gap_until ''</CheatEntry>'' (body @ ''</CheatEntry>'') = Some (body, [])"
    and "\<not> list_ex (\<lambda>c. c = CHR 0x0A \<or> c = CHR 0x0D) body"
  shows "line_entries (''<CheatEntry>'' @ body @ ''</CheatEntry>'') = [''<CheatEntry>'' @ body @ ''</CheatEntry>'']"
proof -
  have "line_tag ''<CheatEntry>'' ''</CheatEntry>'' (''<CheatEntry>'' @ body @ ''</CheatEntry>'') = Some (body, [])"
    using assms by (simp only: line_tag_def strip_lit_append option.case prod.case if_False)
  then have "all_matches (line_tag ''<CheatEntry>'' ''</CheatEntry>'') (''<CheatEntry>'' @ body @ ''</CheatEntry>'')
      = body # all_matches (line_tag ''<CheatEntry>'' ''</CheatEntry>'') []"
    by (rule all_matches_here) simp
  also have "all_matches (line_tag ''<CheatEntry>'' ''</CheatEntry>'') [] = []"
    by (rule all_matches_none) (simp add: line_tag_def strip_lit_def)
  finally show ?thesis by (simp only: line_entries_def list.map)
qed

lemma parse_entries_diverges:
  assumes "line_entries e = [e]" "entry_of_text base e = Inr entry"
  shows "parse_entries base [e] = None"
proof -
  have "b = base \<longrightarrow> ss \<noteq> [e]" if "parse_entries b ss = Some r" for b ss r
  proof (rule parse_entries.raw_induct [where P = "\<lambda>b ss r. b = base \<longrightarrow> ss \<noteq> [e]", OF _ that])
    fix parse b ss r
    assume IH: "\<And>b ss r. parse b ss = Some r \<Longrightarrow> b = base \<longrightarrow> ss \<noteq> [e]"
      and body: "(case ss of [] \<Rightarrow> Some (Inr [])
        | s # rest \<Rightarrow> (case entry_of_text b s of
             Inl e \<Rightarrow> Some (Inl e)
           | Inr entry \<Rightarrow> Option.bind (parse b (line_entries s)) (\<lambda>nested. (case nested of
                Inl e \<Rightarrow> Some (Inl e)
              | Inr ns \<Rightarrow> Option.bind (parse b rest) (\<lambda>others. (case others of
                   Inl e \<Rightarrow> Some (Inl e)
                 | Inr es \<Rightarrow> Some (Inr (with_nested entry ns # es)))))))) = Some r"
    show "b = base \<longrightarrow> ss \<noteq> [e]"
    proof (intro impI notI)
      assume "b = base" "ss = [e]"
      then obtain nested where "parse base [e] = Some nested"
        using body assms by (auto simp: bind_eq_Some_conv)
      then show False using IH by blast
    qed
  qed
  then show ?thesis by fastforce
qed

text \<open>
  C39: a table with an entry written on one line never finishes parsing. The expression that looks
  for nested entries finds the entry itself, which is parsed as its own nested entry without end:
  if the table's text starts with an entry whose element fits on one line and parses,
  \<open>ParseCheatTable\<close> does not return, whatever follows and however few entries are asked for.
\<close>

theorem one_line_entry_diverges:
  assumes "gap_until ''</CheatEntry>'' (body @ ''</CheatEntry>'' @ post) = Some (body, post)"
    and "\<not> list_ex (\<lambda>c. c = CHR 0x0A \<or> c = CHR 0x0D) body"
    and "entry_of_text base (''<CheatEntry>'' @ body @ ''</CheatEntry>'') = Inr entry"
  shows "ParseCheatTable base (''<CheatEntry>'' @ body @ ''</CheatEntry>'' @ post) entries = None"
proof -
  note lines = entry_lines [OF gap_until_cut [OF assms(1)] assms(2)]
  let ?e = "''<CheatEntry>'' @ body @ ''</CheatEntry>''"
  have "block_tag (''<CheatEntry>'' @ body @ ''</CheatEntry>'' @ post) = Some (body, post)"
    using assms(1) by (simp only: block_tag_def strip_lit_append option.case)
  then have "block_entries (''<CheatEntry>'' @ body @ ''</CheatEntry>'' @ post) = ?e # block_entries post"
    using all_matches_here [of block_tag "''<CheatEntry>'' @ body @ ''</CheatEntry>'' @ post" body post]
    by (simp add: block_entries_def)
  moreover have "ParseNestedCheatEntries base ?e = None"
    unfolding ParseNestedCheatEntries_def lines by (rule parse_entries_diverges [OF lines assms(3)])
  ultimately show ?thesis using assms(3) by (simp only: ParseCheatTable_def table_entries.simps sum.case option.case)
qed

definition one_line_body :: string where
  "one_line_body = ''<ID>1</ID><VariableType>4 Bytes</VariableType><Address>1000</Address>''"

theorem one_line_entry_diverges_witness:
  "ParseCheatTable 0x400000 (''<CheatEntry>'' @ one_line_body @ ''</CheatEntry>'' @ ''</CheatEntries>'') 1 = None"
proof -
  have g: "gap_until ''</CheatEntry>'' (one_line_body @ ''</CheatEntry>'' @ ''</CheatEntries>'') = Some (one_line_body, ''</CheatEntries>'')"
    "\<not> list_ex (\<lambda>c. c = CHR 0x0A \<or> c = CHR 0x0D) one_line_body"
    by code_simp+
  let ?e = "''<CheatEntry>'' @ one_line_body @ ''</CheatEntry>''"
  have parts: "first_text (digits_tag ''<ID>'' ''</ID>'' is_digit) ?e = ''1''"
    "first_text (line_tag ''<VariableType>'' ''</VariableType>'') ?e = ''4 Bytes''"
    "first_text (line_tag ''<Address>'' ''</Address>'') ?e = ''1000''"
    "all_matches (digits_tag ''<Offset>'' ''</Offset>'' is_xdigit) ?e = []" "all_matches match_hotkey ?e = []"
    "address_parts ''1000'' = (''1000'', [])" "list_all is_xdigit ''1000''"
    by code_simp+
  have "stoi32 ''1'' = Inr 1"
    by (simp add: stoi32_def strto_def Let_def is_space_def char_digit_def is_digit_def)
  moreover have "stoul32 16 ''1000'' = Inr 0x1000"
    by (simp add: stoul32_def strto_def Let_def is_space_def char_digit_def is_digit_def)
  ultimately have "\<exists>entry. entry_of_text 0x400000 ?e = Inr entry"
    by (simp only: entry_of_text_def ParseAddress_def ParseOffsets_def ParseHotkeys_def parts Let_def) simp
  then show ?thesis using one_line_entry_diverges [OF g] by blast
qed

lemma entry_not_nested: "entry_of_text base s = Inr entry \<Longrightarrow> with_nested entry [] = entry"
  by (auto simp: entry_of_text_def with_nested_def Let_def split: sum.splits)

lemma table_entries_flat:
  assumes "\<forall>s \<in> set ss. line_entries s = []" "entries > 0 \<longrightarrow> int (length acc) < entries"
  shows "\<exists>r. table_entries base entries ss acc = Some r \<and>
    (\<forall>es. r = Inr es \<longrightarrow> map Inr es = map Inr acc @ map (entry_of_text base)
       (take (if entries > 0 then nat entries - length acc else length ss) ss))"
  using assms
proof (induction ss arbitrary: acc)
  case (Cons s ss)
  have nested: "ParseNestedCheatEntries base s = Some (Inr [])"
    using Cons.prems(1) by (simp add: ParseNestedCheatEntries_def parse_entries.simps)
  show ?case
  proof (cases "entry_of_text base s")
    case (Inr entry)
    note flat = entry_not_nested [OF Inr]
    show ?thesis
    proof (cases "entries > 0 \<and> int (length acc) + 1 \<ge> entries")
      case True
      then have "nat entries - length acc = 1" using Cons.prems(2) by linarith
      then show ?thesis using Inr nested True flat by (simp add: Let_def)
    next
      case False
      have "\<exists>r. table_entries base entries ss (acc @ [entry]) = Some r \<and>
          (\<forall>es. r = Inr es \<longrightarrow> map Inr es = map Inr (acc @ [entry]) @ map (entry_of_text base)
            (take (if entries > 0 then nat entries - length (acc @ [entry]) else length ss) ss))"
        by (rule Cons.IH) (use Cons.prems(1) False in auto)
      moreover have "entries > 0 \<Longrightarrow> nat entries - length acc = Suc (nat entries - length (acc @ [entry]))"
        using False by simp
      ultimately show ?thesis using Inr nested False flat by (auto simp: Let_def)
    qed
  qed simp
qed simp

text \<open>
  without one-line entries parsing ends and is flat: if no entry of the table contains a
  complete \<open><CheatEntry>\<close> element on one line, \<open>ParseCheatTable\<close> returns (or throws), and what it
  returns is the table's entries parsed one by one, in order, cut at the number asked for.
\<close>

theorem multi_line_table_parses:
  assumes "\<forall>s \<in> set (block_entries data). line_entries s = []"
  shows "\<exists>r. ParseCheatTable base data entries = Some r \<and>
    (\<forall>es. r = Inr es \<longrightarrow> map Inr es = map (entry_of_text base)
       (take (if entries > 0 then nat entries else length (block_entries data)) (block_entries data)))"
  using table_entries_flat [OF assms, of entries "[]" base] by (cases "0 < entries") (simp_all add: ParseCheatTable_def)

theorem multi_line_table_parses_witness:
  "block_entries (''<CheatEntry>'' @ CHR 0x0A # one_line_body @ ''</CheatEntry>'') \<noteq> [] \<and>
   ParseCheatTable 0x400000 (''<CheatEntry>'' @ CHR 0x0A # one_line_body @ ''</CheatEntry>'') 0 \<noteq> None"
proof -
  have "block_entries (''<CheatEntry>'' @ CHR 0x0A # one_line_body @ ''</CheatEntry>'') \<noteq> []"
    "\<forall>s \<in> set (block_entries (''<CheatEntry>'' @ CHR 0x0A # one_line_body @ ''</CheatEntry>'')). line_entries s = []"
    by code_simp+
  then show ?thesis
    using multi_line_table_parses [of "''<CheatEntry>'' @ CHR 0x0A # one_line_body @ ''</CheatEntry>''" "0x400000" 0] by auto
qed

end
