(* ===== verification/Legacy_Cheats.thy ===== *)
theory Legacy_Cheats
  imports Legacy_Memory Legacy_Parser
begin

text \<open>
  The cheat-table functions of \<open>GTLibc\<close> (\<open>libs/gtlibc/src/GTLibc.cpp\<close>): resolving the addresses
  of a table, converting the texts of its values, the cheat actions with their freezing threads,
  and the trainer loop \<open>ExecuteCheatTable\<close>. What the standard library computes with floating
  point is the record \<open>float_text\<close>. Printing is not modelled. \<open>None\<close> is undefined behaviour.
\<close>

section \<open>Values and their texts\<close>

text \<open>\<open>operator>>\<close> into a number gives the value and the text that is left; \<open>None\<close> is a failure.\<close>

record float_text =
  ft_get_float :: "string \<Rightarrow> (u32 \<times> string) option"
  ft_get_double :: "string \<Rightarrow> (u64 \<times> string) option"
  ft_show_float :: "u32 \<Rightarrow> string"
  ft_show_double :: "u64 \<Rightarrow> string"
  ft_add_float :: "u32 \<Rightarrow> u32 \<Rightarrow> u32"
  ft_sub_float :: "u32 \<Rightarrow> u32 \<Rightarrow> u32"
  ft_add_double :: "u64 \<Rightarrow> u64 \<Rightarrow> u64"
  ft_sub_double :: "u64 \<Rightarrow> u64 \<Rightarrow> u64"

text \<open>An unsigned integer of \<open>w\<close> bits: a minus sign negates, a magnitude out of range fails.\<close>

definition get_unsigned :: "string \<Rightarrow> (('a::len word) \<times> string) option" where
  "get_unsigned s =
     (let s = dropWhile is_space s;
          neg = (s \<noteq> [] \<and> hd s = CHR ''-'');
          s = (if s \<noteq> [] \<and> (hd s = CHR ''-'' \<or> hd s = CHR ''+'') then tl s else s);
          ds = takeWhile is_digit s; n = digits_value 0 ds
      in if ds = [] \<or> 2 ^ LENGTH('a) \<le> n then None
         else Some (if neg then - of_nat n else of_nat n, dropWhile is_digit s))"

text \<open>\<open>std::uint8_t\<close> is a character type: one character is read.\<close>

definition get_char :: "string \<Rightarrow> (u8 \<times> string) option" where
  "get_char s =
     (case dropWhile is_space s of [] \<Rightarrow> None | c # rest \<Rightarrow> Some (of_nat (code_of c), rest))"

definition get_word :: "string \<Rightarrow> (string \<times> string) option" where
  "get_word s =
     (let s = dropWhile is_space s; t = takeWhile (\<lambda>c. \<not> is_space c) s
      in if t = [] then None else Some (t, dropWhile (\<lambda>c. \<not> is_space c) s))"

text \<open>
  \<open>TryParse\<close>: the extraction gives a value and has met the end of the text. A number or a word is
  read up to the first character that does not belong to it, so it meets the end when nothing is
  left; reading one character looks no further (\<open>reads_on\<close>).
\<close>

definition try_parse :: "bool \<Rightarrow> (string \<Rightarrow> ('v \<times> string) option) \<Rightarrow> string \<Rightarrow> 'v option" where
  "try_parse reads_on get s =
     (case get s of Some (v, rest) \<Rightarrow> if reads_on \<and> rest = [] then Some v else None | None \<Rightarrow> None)"

definition convert_text :: "float_text \<Rightarrow> string \<Rightarrow> cheat_value option" where
  "convert_text fl s =
     (case try_parse False get_char s of Some v \<Rightarrow> Some (CV_u8 v) | None \<Rightarrow>
      (case try_parse True get_unsigned s of Some v \<Rightarrow> Some (CV_u16 v) | None \<Rightarrow>
       (case try_parse True get_unsigned s of Some v \<Rightarrow> Some (CV_u32 v) | None \<Rightarrow>
        (case try_parse True get_unsigned s of Some v \<Rightarrow> Some (CV_u64 v) | None \<Rightarrow>
         (case try_parse True (ft_get_float fl) s of Some v \<Rightarrow> Some (CV_float v) | None \<Rightarrow>
          (case try_parse True (ft_get_double fl) s of Some v \<Rightarrow> Some (CV_double v) | None \<Rightarrow>
           map_option CV_string (try_parse True get_word s)))))))"

definition ConvertStringToDataType :: "float_text \<Rightarrow> string \<Rightarrow> cheat_value" where
  "ConvertStringToDataType fl s = (case convert_text fl s of Some v \<Rightarrow> v | None \<Rightarrow> CV_u8 0)"

fun ValueToString :: "float_text \<Rightarrow> cheat_value \<Rightarrow> string" where
  "ValueToString fl (CV_u8 v) = show_nat (unat v)"
| "ValueToString fl (CV_u16 v) = show_nat (unat v)"
| "ValueToString fl (CV_u32 v) = show_nat (unat v)"
| "ValueToString fl (CV_u64 v) = show_nat (unat v)"
| "ValueToString fl (CV_float v) = ft_show_float fl v"
| "ValueToString fl (CV_double v) = ft_show_double fl v"
| "ValueToString fl (CV_string v) = v"

text \<open>The type names of a table, and the value of that type at the front of a text.\<close>

datatype cheat_type = CT_byte | CT_short | CT_integer | CT_long | CT_float | CT_double | CT_string

definition cheat_type_of :: "string \<Rightarrow> cheat_type option" where
  "cheat_type_of t =
     (if t = ''Byte'' then Some CT_byte else if t = ''2 Bytes'' then Some CT_short
      else if t = ''4 Bytes'' then Some CT_integer else if t = ''8 Bytes'' then Some CT_long
      else if t = ''Float'' then Some CT_float else if t = ''Double'' then Some CT_double
      else if t = ''String'' then Some CT_string else None)"

fun extract_value :: "float_text \<Rightarrow> cheat_type \<Rightarrow> string \<Rightarrow> cheat_value option" where
  "extract_value fl CT_byte s = map_option (\<lambda>(v, r). CV_u8 v) (get_char s)"
| "extract_value fl CT_short s = map_option (\<lambda>(v, r). CV_u16 v) (get_unsigned s)"
| "extract_value fl CT_integer s = map_option (\<lambda>(v, r). CV_u32 v) (get_unsigned s)"
| "extract_value fl CT_long s = map_option (\<lambda>(v, r). CV_u64 v) (get_unsigned s)"
| "extract_value fl CT_float s = map_option (\<lambda>(v, r). CV_float v) (ft_get_float fl s)"
| "extract_value fl CT_double s = map_option (\<lambda>(v, r). CV_double v) (ft_get_double fl s)"
| "extract_value fl CT_string s = map_option (\<lambda>(v, r). CV_string v) (get_word s)"

section \<open>Addresses\<close>

text \<open>All offsets but the last are dereferenced.\<close>

definition ResolveAddressGeneric :: "'o gt_api \<Rightarrow> dword \<Rightarrow> dword list \<Rightarrow> 'o gtlibc \<Rightarrow> dword \<times> 'o gtlibc" where
  "ResolveAddressGeneric api address offsets g =
     (let m = ''ResolveAddressGeneric''; g = AddLog m g in
      if offsets = [] then (address, AddLog m g)
      else (let staticAddress = address - gt_base g; g = AddLog m g in
        case ReadPointerOffset api (gt_base g) staticAddress g of
          (result, g) \<Rightarrow>
            (case pointer_chain api result (butlast offsets) (AddLog m g) of
               (result, g) \<Rightarrow> (result + last offsets, AddLog m g))))"

definition typed_read :: "'o gt_api \<Rightarrow> cheat_type \<Rightarrow> dword \<Rightarrow> 'o gtlibc \<Rightarrow> cheat_value \<times> 'o gtlibc" where
  "typed_read api ty a g =
     (case ty of
        CT_byte \<Rightarrow> (case ReadAddress api a g of (v, g) \<Rightarrow> (CV_u8 v, g))
      | CT_short \<Rightarrow> (case ReadAddress api a g of (v, g) \<Rightarrow> (CV_u16 v, g))
      | CT_integer \<Rightarrow> (case ReadAddress api a g of (v, g) \<Rightarrow> (CV_u32 v, g))
      | CT_long \<Rightarrow> (case ReadAddress api a g of (v, g) \<Rightarrow> (CV_u64 v, g))
      | CT_float \<Rightarrow> (case ReadAddress api a g of (v, g) \<Rightarrow> (CV_float v, g))
      | CT_double \<Rightarrow> (case ReadAddress api a g of (v, g) \<Rightarrow> (CV_double v, g))
      | CT_string \<Rightarrow> (case ReadString api a 260 g of (v, g) \<Rightarrow> (CV_string v, g)))"

definition ReadAddressGeneric ::
  "'o gt_api \<Rightarrow> string \<Rightarrow> dword \<Rightarrow> dword list \<Rightarrow> 'o gtlibc \<Rightarrow> cheat_value \<times> 'o gtlibc" where
  "ReadAddressGeneric api dataType address offsets g =
     (case cheat_type_of dataType of
        None \<Rightarrow> (CV_u8 0, AddLog ''ReadAddressGeneric'' g)
      | Some ty \<Rightarrow>
          (if offsets = [] then typed_read api ty address g
           else (case ResolveAddressGeneric api address offsets g of (a, g) \<Rightarrow> typed_read api ty a g)))"

section \<open>The trainer's state\<close>

text \<open>
  A freezing thread: it checks its flag, writes, and checks again. The flags are shared, a token
  is the index of one; \<open>lt_tokens\<close> is the map \<open>freezeTokenSrcs\<close>.
\<close>

datatype thread_pc = T_check | T_write | T_done

record freeze_thread =
  fth_address :: dword
  fth_bytes :: "u8 list"
  fth_token :: nat
  fth_pc :: thread_pc

record 'o legacy_trainer =
  lt_gt :: "'o gtlibc"
  lt_table :: "legacy_entry list"
  lt_tokens :: "dword \<Rightarrow> nat option"
  lt_flags :: "bool list"
  lt_threads :: "freeze_thread list"

definition lt_write :: "'o gt_api \<Rightarrow> dword \<Rightarrow> 'a::len word \<Rightarrow> 'o legacy_trainer \<Rightarrow> 'o legacy_trainer" where
  "lt_write api a v t = t\<lparr>lt_gt := snd (WriteAddress api a v (lt_gt t))\<rparr>"

definition lt_log :: "string \<Rightarrow> 'o legacy_trainer \<Rightarrow> 'o legacy_trainer" where
  "lt_log m t = t\<lparr>lt_gt := AddLog m (lt_gt t)\<rparr>"

definition write_value :: "'o gt_api \<Rightarrow> dword \<Rightarrow> cheat_value \<Rightarrow> 'o legacy_trainer \<Rightarrow> 'o legacy_trainer" where
  "write_value api a v t =
     (case v of CV_u8 x \<Rightarrow> lt_write api a x t | CV_u16 x \<Rightarrow> lt_write api a x t | CV_u32 x \<Rightarrow> lt_write api a x t
      | CV_u64 x \<Rightarrow> lt_write api a x t | CV_float x \<Rightarrow> lt_write api a x t | CV_double x \<Rightarrow> lt_write api a x t
      | CV_string x \<Rightarrow> t\<lparr>lt_gt := snd (WriteString api a x (lt_gt t))\<rparr>)"

text \<open>The object representation of a value of a number type, and its comparison with \<open>T(0)\<close>.\<close>

fun value_bytes :: "cheat_value \<Rightarrow> u8 list" where
  "value_bytes (CV_u8 x) = bytes_of_word x"
| "value_bytes (CV_u16 x) = bytes_of_word x"
| "value_bytes (CV_u32 x) = bytes_of_word x"
| "value_bytes (CV_u64 x) = bytes_of_word x"
| "value_bytes (CV_float x) = bytes_of_word x"
| "value_bytes (CV_double x) = bytes_of_word x"
| "value_bytes (CV_string x) = []"

fun value_is_zero :: "cheat_value \<Rightarrow> bool" where
  "value_is_zero (CV_u8 x) \<longleftrightarrow> x = 0"
| "value_is_zero (CV_u16 x) \<longleftrightarrow> x = 0"
| "value_is_zero (CV_u32 x) \<longleftrightarrow> x = 0"
| "value_is_zero (CV_u64 x) \<longleftrightarrow> x = 0"
| "value_is_zero (CV_float x) \<longleftrightarrow> x AND 0x7FFFFFFF = 0"
| "value_is_zero (CV_double x) \<longleftrightarrow> x AND 0x7FFFFFFFFFFFFFFF = 0"
| "value_is_zero (CV_string x) \<longleftrightarrow> False"

fun type_of_value :: "cheat_value \<Rightarrow> cheat_type" where
  "type_of_value (CV_u8 x) = CT_byte" | "type_of_value (CV_u16 x) = CT_short"
| "type_of_value (CV_u32 x) = CT_integer" | "type_of_value (CV_u64 x) = CT_long"
| "type_of_value (CV_float x) = CT_float" | "type_of_value (CV_double x) = CT_double"
| "type_of_value (CV_string x) = CT_string"

section \<open>The actions\<close>

text \<open>
  \<open>GetDataTypeInfo\<close> in the log text of an action starts a process; \<open>popen_ok\<close> tells whether it
  could. If not, the exception leaves the action before it writes.
\<close>

definition CheatAction_SetValue ::
  "'o gt_api \<Rightarrow> dword \<Rightarrow> cheat_value \<Rightarrow> 'o legacy_trainer \<Rightarrow> 'o legacy_trainer" where
  "CheatAction_SetValue api a v t = write_value api a v (lt_log ''CheatAction_SetValue'' t)"

definition combine_values ::
  "(u32 \<Rightarrow> u32 \<Rightarrow> u32) \<Rightarrow> (u64 \<Rightarrow> u64 \<Rightarrow> u64) \<Rightarrow> bool \<Rightarrow> cheat_value \<Rightarrow> cheat_value \<Rightarrow> cheat_value" where
  "combine_values on_float on_double adding x y =
     (case (x, y) of
        (CV_u8 a, CV_u8 b) \<Rightarrow> CV_u8 (if adding then a + b else a - b)
      | (CV_u16 a, CV_u16 b) \<Rightarrow> CV_u16 (if adding then a + b else a - b)
      | (CV_u32 a, CV_u32 b) \<Rightarrow> CV_u32 (if adding then a + b else a - b)
      | (CV_u64 a, CV_u64 b) \<Rightarrow> CV_u64 (if adding then a + b else a - b)
      | (CV_float a, CV_float b) \<Rightarrow> CV_float (on_float a b)
      | (CV_double a, CV_double b) \<Rightarrow> CV_double (on_double a b)
      | _ \<Rightarrow> y)"

definition CheatAction_IncreaseValue ::
  "'o gt_api \<Rightarrow> float_text \<Rightarrow> dword \<Rightarrow> cheat_value \<Rightarrow> 'o legacy_trainer \<Rightarrow> 'o legacy_trainer" where
  "CheatAction_IncreaseValue api fl a v t =
     (let t = lt_log ''CheatAction_IncreaseValue'' t in
      case v of
        CV_string x \<Rightarrow>
          (case ReadString api a (length x) (lt_gt t) of
             (cur, g) \<Rightarrow> t\<lparr>lt_gt := snd (WriteString api a (cur @ x) g)\<rparr>)
      | _ \<Rightarrow>
          (case typed_read api (type_of_value v) a (lt_gt t) of
             (cur, g) \<Rightarrow>
               write_value api a (combine_values (ft_add_float fl) (ft_add_double fl) True cur v) (t\<lparr>lt_gt := g\<rparr>)))"

text \<open>\<open>None\<close>: the exception of the specialisation for strings.\<close>

definition CheatAction_DecreaseValue ::
  "'o gt_api \<Rightarrow> float_text \<Rightarrow> dword \<Rightarrow> cheat_value \<Rightarrow> 'o legacy_trainer \<Rightarrow> 'o legacy_trainer option" where
  "CheatAction_DecreaseValue api fl a v t =
     (case v of
        CV_string x \<Rightarrow> None
      | _ \<Rightarrow>
          (let t = lt_log ''CheatAction_DecreaseValue'' t in
           case typed_read api (type_of_value v) a (lt_gt t) of
             (cur, g) \<Rightarrow>
               Some (write_value api a (combine_values (ft_sub_float fl) (ft_sub_double fl) False cur v) (t\<lparr>lt_gt := g\<rparr>))))"

text \<open>Cancelling the thread registered for an address.\<close>

definition CheatAction_UnfreezeValue :: "dword \<Rightarrow> 'o legacy_trainer \<Rightarrow> 'o legacy_trainer" where
  "CheatAction_UnfreezeValue a t =
     (case lt_tokens t a of
        None \<Rightarrow> t
      | Some k \<Rightarrow> t\<lparr>lt_flags := (lt_flags t)[k := True], lt_tokens := (lt_tokens t)(a := None)\<rparr>)"

definition start_freeze :: "dword \<Rightarrow> u8 list \<Rightarrow> 'o legacy_trainer \<Rightarrow> 'o legacy_trainer" where
  "start_freeze a bytes t =
     (let k = length (lt_flags t); t = CheatAction_UnfreezeValue a t
      in t\<lparr>lt_flags := lt_flags t @ [False], lt_tokens := (lt_tokens t)(a \<mapsto> k),
           lt_threads := lt_threads t @
             [\<lparr>fth_address = a, fth_bytes = bytes, fth_token = k, fth_pc = T_check\<rparr>]\<rparr>)"

text \<open>A value of 0 freezes what is there; \<open>T(0)\<close> of a string is undefined.\<close>

definition CheatAction_FreezeValue ::
  "'o gt_api \<Rightarrow> dword \<Rightarrow> cheat_value \<Rightarrow> 'o legacy_trainer \<Rightarrow> 'o legacy_trainer option" where
  "CheatAction_FreezeValue api a v t =
     (case v of
        CV_string x \<Rightarrow> None
      | _ \<Rightarrow>
          (if value_is_zero v
           then (case typed_read api (type_of_value v) a (lt_gt t) of
                   (cur, g) \<Rightarrow> Some (start_freeze a (value_bytes cur) (t\<lparr>lt_gt := g\<rparr>)))
           else Some (start_freeze a (value_bytes v) t)))"

text \<open>What an action does: it returns, throws (and the caller logs), or is undefined.\<close>

datatype 's action_result = Acted 's | Action_threw 's | Undefined_action

definition ExecuteCheatAction ::
  "'o gt_api \<Rightarrow> float_text \<Rightarrow> bool \<Rightarrow> string \<Rightarrow> dword \<Rightarrow> cheat_value \<Rightarrow> 'o legacy_trainer
     \<Rightarrow> 'o legacy_trainer action_result" where
  "ExecuteCheatAction api fl popen_ok cheatAction a v t =
     (let freezing = (case CheatAction_FreezeValue api a v t of Some t' \<Rightarrow> Acted t' | None \<Rightarrow> Undefined_action) in
      if cheatAction = ''Set Value''
      then (if popen_ok then Acted (CheatAction_SetValue api a v t) else Action_threw t)
      else if cheatAction = ''Increase Value''
      then (if popen_ok then Acted (CheatAction_IncreaseValue api fl a v t) else Action_threw t)
      else if cheatAction = ''Decrease Value''
      then (case CheatAction_DecreaseValue api fl a v t of
              None \<Rightarrow> Action_threw t
            | Some t' \<Rightarrow> if popen_ok then Acted t' else Action_threw t)
      else if cheatAction = ''Activate'' then freezing
      else if cheatAction = ''Deactivate'' then Acted (CheatAction_UnfreezeValue a t)
      else if cheatAction = ''Toggle Activation''
      then (if lt_tokens t a \<noteq> None then Acted (CheatAction_UnfreezeValue a t) else freezing)
      else Acted (lt_log ''ExecuteCheatAction'' t))"

definition ExecuteCheatActionType ::
  "'o gt_api \<Rightarrow> float_text \<Rightarrow> bool \<Rightarrow> string \<Rightarrow> dword \<Rightarrow> string \<Rightarrow> string \<Rightarrow> 'o legacy_trainer
     \<Rightarrow> 'o legacy_trainer action_result" where
  "ExecuteCheatActionType api fl popen_ok cheatAction a valueStr variableType t =
     (let t = lt_log ''ExecuteCheatActionType'' t in
      case cheat_type_of variableType of
        None \<Rightarrow> Acted (lt_log ''ExecuteCheatActionType'' t)
      | Some ty \<Rightarrow>
          (let t = lt_log ''ExecuteCheatActionTypeHelper'' t in
           case extract_value fl ty valueStr of
             None \<Rightarrow> Acted t
           | Some v \<Rightarrow> ExecuteCheatAction api fl popen_ok cheatAction a v t))"

text \<open>An exception is caught and logged; \<open>None\<close> is undefined behaviour.\<close>

definition ExecuteCheatActionForType ::
  "'o gt_api \<Rightarrow> float_text \<Rightarrow> bool \<Rightarrow> string \<Rightarrow> dword \<Rightarrow> cheat_value \<Rightarrow> string \<Rightarrow> 'o legacy_trainer
     \<Rightarrow> 'o legacy_trainer option" where
  "ExecuteCheatActionForType api fl popen_ok cheatAction a v variableType t =
     (case ExecuteCheatActionType api fl popen_ok cheatAction a (ValueToString fl v) variableType
             (lt_log ''ExecuteCheatActionForType'' t) of
        Acted t' \<Rightarrow> Some t'
      | Action_threw t' \<Rightarrow> Some (lt_log ''ExecuteCheatActionForType'' t')
      | Undefined_action \<Rightarrow> None)"

section \<open>The table\<close>

definition IsValidCheatTable :: "string \<Rightarrow> bool" where
  "IsValidCheatTable xmlData \<longleftrightarrow>
     gap_until ''<CheatEntries>'' xmlData \<noteq> None \<and> gap_until ''</CheatEntries>'' xmlData \<noteq> None"

text \<open>
  The returned table and the new state; \<open>None\<close> is an exception of the parser or a parse that
  does not end.
\<close>

definition ReadCheatTable ::
  "(string \<Rightarrow> string option) \<Rightarrow> string \<Rightarrow> int \<Rightarrow> 'o legacy_trainer \<Rightarrow> (legacy_entry list \<times> 'o legacy_trainer) option" where
  "ReadCheatTable files cheatTableFile entries t =
     (let m = ''ReadCheatTable''; data = (case files cheatTableFile of Some x \<Rightarrow> x | None \<Rightarrow> []); g = lt_gt t in
      if data = [] then Some ([], t\<lparr>lt_gt := ShowErrorLog m g\<rparr>)
      else if \<not> IsValidCheatTable data then Some ([], t)
      else (let g = AddLog m g in
        if gt_base g = 0 \<or> gt_handle g = 0 \<or> gt_process_id g = 0 then Some ([], t\<lparr>lt_gt := ShowErrorLog m g\<rparr>)
        else (case ParseCheatTable (gt_base g) data entries of
                Some (Inr es) \<Rightarrow> Some (es, t\<lparr>lt_gt := (AddLog ''ParseCheatTable'' ^^ (1 + 2 * length es)) g, lt_table := es\<rparr>)
              | _ \<Rightarrow> None)))"

definition AddCheatTableEntry ::
  "string \<Rightarrow> string \<Rightarrow> dword \<Rightarrow> dword list \<Rightarrow> u32 list \<Rightarrow> string \<Rightarrow> string \<Rightarrow> 'o legacy_trainer \<Rightarrow> 'o legacy_trainer" where
  "AddCheatTableEntry description dataType address offsets hotkeys hotkeyAction hotkeyValue t =
     t\<lparr>lt_table := lt_table t @
        [LegacyEntry description (int (length (lt_table t))) dataType address offsets
           [\<lparr>hk_action = hotkeyAction, hk_keys = hotkeys, hk_value = hotkeyValue, hk_id = 0\<rparr>] [] (CV_u8 0) [] []]\<rparr>"

text \<open>Whether one of the indices names entry \<open>i\<close> of \<open>n\<close>; an index out of range is undefined.\<close>

fun names_entry :: "nat \<Rightarrow> nat \<Rightarrow> int list \<Rightarrow> bool option" where
  "names_entry n i [] = Some False"
| "names_entry n i (x # xs) =
     (if x < 0 \<or> int n \<le> x then None else if x = int i then Some True else names_entry n i xs)"

fun keep_named :: "nat \<Rightarrow> int list \<Rightarrow> nat \<Rightarrow> legacy_entry list \<Rightarrow> legacy_entry list option" where
  "keep_named n ids i [] = Some []"
| "keep_named n ids i (e # es) =
     (case names_entry n i ids of
        None \<Rightarrow> None
      | Some keep \<Rightarrow> map_option (\<lambda>kept. if keep then e # kept else kept) (keep_named n ids (Suc i) es))"

definition ActivateCheatTableEntries :: "int list \<Rightarrow> 'o legacy_trainer \<Rightarrow> 'o legacy_trainer option" where
  "ActivateCheatTableEntries ids t =
     map_option (\<lambda>es. t\<lparr>lt_table := es\<rparr>) (keep_named (length (lt_table t)) ids 0 (lt_table t))"

text \<open>The values of the entries, with their offsets in reverse.\<close>

fun read_entries :: "'o gt_api \<Rightarrow> legacy_entry list \<Rightarrow> 'o gtlibc \<Rightarrow> cheat_value list \<times> 'o gtlibc" where
  "read_entries api [] g = ([], g)"
| "read_entries api (e # es) g =
     (if lent_offsets e \<noteq> [] \<or> lent_address e \<noteq> 0
      then (case ReadAddressGeneric api (lent_type e) (lent_address e) (rev (lent_offsets e)) g of
              (v, g) \<Rightarrow> (case read_entries api es g of (vs, g) \<Rightarrow> (v # vs, g)))
      else read_entries api es g)"

definition ReadCheatTableEntries :: "'o gt_api \<Rightarrow> 'o legacy_trainer \<Rightarrow> cheat_value list \<times> 'o legacy_trainer" where
  "ReadCheatTableEntries api t = (case read_entries api (lt_table t) (lt_gt t) of (vs, g) \<Rightarrow> (vs, t\<lparr>lt_gt := g\<rparr>))"

section \<open>Running a table\<close>

text \<open>The value, action and keys of the first hotkey; an empty text leaves the entry's own.\<close>

definition resolve_hotkey :: "float_text \<Rightarrow> legacy_entry \<Rightarrow> legacy_entry" where
  "resolve_hotkey fl e =
     (case e of LegacyEntry d n ty a os hs ns v act ks \<Rightarrow>
        (case hs of
           [] \<Rightarrow> e
         | h # _ \<Rightarrow>
             LegacyEntry d n ty a os hs ns
               (if hk_value h \<noteq> [] then ConvertStringToDataType fl (hk_value h) else v)
               (if hk_action h \<noteq> [] then hk_action h else act) (hk_keys h)))"

definition with_address :: "legacy_entry \<Rightarrow> dword \<Rightarrow> legacy_entry" where
  "with_address e a = (case e of LegacyEntry d n ty _ os hs ns v act ks \<Rightarrow> LegacyEntry d n ty a os hs ns v act ks)"

text \<open>What is logged after an address is resolved.\<close>

definition hotkey_logs :: "float_text \<Rightarrow> legacy_entry \<Rightarrow> 'o gtlibc \<Rightarrow> 'o gtlibc" where
  "hotkey_logs fl e g =
     (let m = ''ExecuteCheatTable'' in
      case lent_hotkeys e of
        [] \<Rightarrow> AddLog m g
      | h # _ \<Rightarrow>
          (let g = (if hk_value h = [] then AddLog m g
                    else if convert_text fl (hk_value h) = None then AddLog ''ConvertStringToDataType'' g else g);
               g = (if hk_action h = [] then AddLog m g else g)
           in AddLog m g))"

definition resolve_entry :: "'o gt_api \<Rightarrow> float_text \<Rightarrow> legacy_entry \<Rightarrow> 'o gtlibc \<Rightarrow> legacy_entry \<times> 'o gtlibc" where
  "resolve_entry api fl e g =
     (let m = ''ExecuteCheatTable''; g = AddLog m g in
      if lent_address e = 0 then (e, AddLog m g)
      else (case ResolveAddressGeneric api (lent_address e) (rev (lent_offsets e)) g of
              (a, g) \<Rightarrow> (resolve_hotkey fl (with_address e a), hotkey_logs fl e g)))"

fun resolve_table :: "'o gt_api \<Rightarrow> float_text \<Rightarrow> legacy_entry list \<Rightarrow> 'o gtlibc \<Rightarrow> legacy_entry list \<times> 'o gtlibc" where
  "resolve_table api fl [] g = ([], g)"
| "resolve_table api fl (e # es) g =
     (case resolve_entry api fl e g of
        (e', g) \<Rightarrow> (case resolve_table api fl es g of (es', g) \<Rightarrow> (e' # es', g)))"

text \<open>Steps 1 and 2: resolve, then drop the entries without keys.\<close>

definition prepare_table :: "'o gt_api \<Rightarrow> float_text \<Rightarrow> 'o legacy_trainer \<Rightarrow> 'o legacy_trainer" where
  "prepare_table api fl t =
     (case resolve_table api fl (lt_table t) (lt_gt t) of
        (es, g) \<Rightarrow> t\<lparr>lt_gt := g, lt_table := filter (\<lambda>e. lent_hotkey_ids e \<noteq> []) es\<rparr>)"

text \<open>The first entry whose keys are all down.\<close>

definition pressed_entry :: "(u32 \<Rightarrow> 16 word) \<Rightarrow> legacy_entry list \<Rightarrow> legacy_entry option" where
  "pressed_entry keys es = List.find (\<lambda>e. HotKeysDown keys (lent_hotkey_ids e) = Some True) es"

text \<open>
  The loop over the keyboard states of its iterations; it ends when the exit key is toggled, or
  here with the list.
\<close>

fun trainer_loop ::
  "'o gt_api \<Rightarrow> float_text \<Rightarrow> bool \<Rightarrow> u32 \<Rightarrow> (u32 \<Rightarrow> 16 word) list \<Rightarrow> 'o legacy_trainer \<Rightarrow> 'o legacy_trainer option" where
  "trainer_loop api fl popen_ok exit_key [] t = Some t"
| "trainer_loop api fl popen_ok exit_key (keys # later) t =
     (case pressed_entry keys (lt_table t) of
        Some e \<Rightarrow>
          (case ExecuteCheatActionForType api fl popen_ok (lent_action e) (lent_address e) (lent_value e) (lent_type e) t of
             None \<Rightarrow> None
           | Some t' \<Rightarrow> trainer_loop api fl popen_ok exit_key later t')
      | None \<Rightarrow> (if IsKeyToggled keys exit_key then Some t else trainer_loop api fl popen_ok exit_key later t))"

definition ExecuteCheatTable ::
  "'o gt_api \<Rightarrow> float_text \<Rightarrow> bool \<Rightarrow> u32 \<Rightarrow> (u32 \<Rightarrow> 16 word) list \<Rightarrow> 'o legacy_trainer \<Rightarrow> 'o legacy_trainer option" where
  "ExecuteCheatTable api fl popen_ok exit_key key_states t =
     (if lt_table t = [] then Some (t\<lparr>lt_gt := ShowErrorLog ''ExecuteCheatTable'' (lt_gt t)\<rparr>)
      else trainer_loop api fl popen_ok exit_key key_states (prepare_table api fl t))"

section \<open>The freezing threads\<close>

definition thread_turn :: "'o gt_api \<Rightarrow> nat \<Rightarrow> 'o legacy_trainer \<Rightarrow> 'o legacy_trainer" where
  "thread_turn api i t =
     (if length (lt_threads t) \<le> i then t
      else (let th = lt_threads t ! i in
        case fth_pc th of
          T_check \<Rightarrow>
            t\<lparr>lt_threads := (lt_threads t)[i := th\<lparr>fth_pc := (if lt_flags t ! fth_token th then T_done else T_write)\<rparr>]\<rparr>
        | T_write \<Rightarrow>
            (let g = lt_gt t in
             case ga_write api (gt_os g) (gt_handle g) (fth_address th) (fth_bytes th) of
               ((ok, n), os') \<Rightarrow>
                 (let g' = g\<lparr>gt_os := os'\<rparr>;
                      g' = (if \<not> ok \<and> n = length (fth_bytes th) then AddLog ''CheatAction_FreezeValue'' g' else g')
                  in t\<lparr>lt_gt := g', lt_threads := (lt_threads t)[i := th\<lparr>fth_pc := T_check\<rparr>]\<rparr>))
        | T_done \<Rightarrow> t))"

end
