(* ===== verification/Legacy_Properties.thy ===== *)
theory Legacy_Properties
  imports Legacy_Cheats
begin

text \<open>
  What the cheat-table functions of \<open>GTLibc\<close> do: the address an entry resolves to, the bytes a
  cheat writes for the number in its table, and which threads freeze an address.
\<close>

section \<open>Addresses\<close>

text \<open>
  an entry's address is resolved by the pointer walk: without offsets it is the address
  itself; else the address and the sums with all offsets but the last are dereferenced and the
  last offset is added. Nothing is written and the game stays attached.
\<close>

theorem resolve_address_walk:
  fixes g :: "'o gtlibc"
  assumes "gt_memory_api api mem"
  shows "fst (ResolveAddressGeneric api address offsets g) =
      (if offsets = [] then address
       else dword_walk (gt_mem mem g) (word_at (gt_mem mem g) address) (butlast offsets) + last offsets)
    \<and> same_game g (snd (ResolveAddressGeneric api address offsets g))"
proof (cases "offsets = []")
  case True
  then show ?thesis by (simp add: ResolveAddressGeneric_def Let_def)
next
  case False
  let ?m = "''ResolveAddressGeneric''"
  let ?g = "AddLog ?m (AddLog ?m g)"
  obtain p g1 where p: "(ReadPointerOffset api (gt_base g) (address - gt_base g) ?g :: dword \<times> 'o gtlibc) = (p, g1)"
    by fastforce
  have 1: "p = word_at (gt_mem mem g) address" "same_game g g1"
    using ReadPointerOffset_spec [OF assms, where p = "gt_base g" and off = "address - gt_base g" and g = ?g and ?'a = 32] p
    by simp_all
  obtain q g2 where q: "pointer_chain api p (butlast offsets) (AddLog ?m g1) = (q, g2)" by fastforce
  have 2: "q = dword_walk (gt_mem mem g) p (butlast offsets)" "same_game g g2"
    using pointer_chain_walk32 [OF assms, where p = p and offs = "butlast offsets" and g = "AddLog ?m g1"] q 1(2)
    by (auto simp: same_game_def)
  show ?thesis using False p q 1 2 by (simp add: ResolveAddressGeneric_def Let_def)
qed

section \<open>Numbers\<close>

lemma get_unsigned_show:
  "get_unsigned (show_nat n) = (if n < 2 ^ LENGTH('a) then Some (of_nat n :: 'a::len word, []) else None)"
proof -
  obtain c cs where c: "show_nat n = c # cs" "is_digit c" by (rule show_nat_Cons)
  have "takeWhile is_digit (show_nat n) = show_nat n" "dropWhile is_digit (show_nat n) = []"
    using show_nat_digits [of n] by (simp_all add: takeWhile_eq_all_conv)
  moreover have "dropWhile is_space (show_nat n) = show_nat n" using c digit_facts(1) by simp
  moreover have "\<not> (show_nat n \<noteq> [] \<and> (hd (show_nat n) = CHR ''-'' \<or> hd (show_nat n) = CHR ''+''))"
    "\<not> (show_nat n \<noteq> [] \<and> hd (show_nat n) = CHR ''-'')"
    using c digit_facts(2,3) by simp_all
  ultimately show ?thesis
    by (simp only: get_unsigned_def Let_def if_False digits_value_show_nat) (simp add: not_less)
qed

lemma value_text_show:
  assumes "n < 2 ^ 32"
  shows "ValueToString fl (ConvertStringToDataType fl (show_nat n)) = show_nat n"
proof (cases "n < 2 ^ 16")
  case True
  then have "unat (of_nat n :: 16 word) = n" by (simp add: unsigned_of_nat take_bit_nat_eq_self)
  then show ?thesis using True
    by (simp add: ConvertStringToDataType_def convert_text_def try_parse_def get_unsigned_show split: option.splits)
next
  case False
  have "unat (of_nat n :: 32 word) = n" using assms by (simp add: unsigned_of_nat take_bit_nat_eq_self)
  then show ?thesis using False assms
    by (simp add: ConvertStringToDataType_def convert_text_def try_parse_def get_unsigned_show split: option.splits)
qed

lemma lt_log_frame [simp]:
  "gt_os (lt_gt (lt_log m t)) = gt_os (lt_gt t)" "gt_handle (lt_gt (lt_log m t)) = gt_handle (lt_gt t)"
  by (simp_all add: lt_log_def)

lemma lt_write_mem:
  fixes t :: "'o legacy_trainer"
  assumes "gt_memory_api api mem" "\<And>os h a bs. fst (fst (ga_write api os h a bs))"
  shows "gt_mem mem (lt_gt (lt_write api a (v :: 'a::len word) t)) = mem_store (gt_mem mem (lt_gt t)) (wide a) (bytes_of_word v)"
  by (rule WriteAddress_cases [OF assms(1), where a = a and v = v and g = "lt_gt t"])
    (use assms(2) in \<open>auto simp: lt_write_def\<close>)

text \<open>
  C35: what \<open>Set Value\<close> writes for a number in the table. For a 4-byte entry and a number below
  2^32 it is the number, little-endian, at the entry's address. For a \<open>Byte\<close> entry it is not:
  \<open>operator>>\<close> into \<open>std::uint8_t\<close> reads one character, and the byte written is the character code
  of the number's first digit.
\<close>

theorem set_value_writes:
  fixes t :: "'o legacy_trainer"
  assumes "gt_memory_api api mem" and "\<And>os h a bs. fst (fst (ga_write api os h a bs))" and "n < 2 ^ 32"
  shows "\<exists>t4 t1.
    ExecuteCheatActionForType api fl True ''Set Value'' a (ConvertStringToDataType fl (show_nat n)) ''4 Bytes'' t = Some t4 \<and>
    gt_mem mem (lt_gt t4) = mem_store (gt_mem mem (lt_gt t)) (wide a) (bytes_of_word (of_nat n :: u32)) \<and>
    ExecuteCheatActionForType api fl True ''Set Value'' a (ConvertStringToDataType fl (show_nat n)) ''Byte'' t = Some t1 \<and>
    gt_mem mem (lt_gt t1) = mem_store (gt_mem mem (lt_gt t)) (wide a) [of_nat (code_of (hd (show_nat n)))]"
proof -
  obtain c cs where c: "show_nat n = c # cs" "is_digit c" by (rule show_nat_Cons)
  have "get_char (show_nat n) = Some (of_nat (code_of (hd (show_nat n))), cs)"
    using c digit_facts(1) by (simp add: get_char_def)
  moreover have "bytes_of_word (b :: u8) = [b]" for b by (simp add: bytes_of_word_def)
  ultimately show ?thesis
    using assms(3)
    by (simp add: lt_write_mem [OF assms(1,2)] ExecuteCheatActionForType_def ExecuteCheatActionType_def value_text_show cheat_type_of_def
        get_unsigned_show ExecuteCheatAction_def CheatAction_SetValue_def write_value_def Let_def)
qed

lemma one_game_writes': "\<And>os h a bs. fst (fst (ga_write one_game os h a bs))"
  by (rule one_game_writes)

definition no_floats :: float_text where
  "no_floats = \<lparr>ft_get_float = (\<lambda>s. None), ft_get_double = (\<lambda>s. None), ft_show_float = (\<lambda>x. []), ft_show_double = (\<lambda>x. []),
     ft_add_float = (\<lambda>x y. x), ft_sub_float = (\<lambda>x y. x), ft_add_double = (\<lambda>x y. x), ft_sub_double = (\<lambda>x y. x)\<rparr>"

definition trainer_at :: "mem \<Rightarrow> mem legacy_trainer" where
  "trainer_at m = \<lparr>lt_gt = game_at m, lt_table = [], lt_tokens = (\<lambda>_. None), lt_flags = [], lt_threads = []\<rparr>"

text \<open>The value 100 in the table: 100 as four bytes, but 49, the code of the digit 1, as a byte.\<close>

theorem set_value_writes_witness:
  "\<exists>t4 t1.
    ExecuteCheatActionForType one_game no_floats True ''Set Value'' 0x5000
      (ConvertStringToDataType no_floats (show_nat 100)) ''4 Bytes'' (trainer_at (\<lambda>_. None)) = Some t4 \<and>
    gt_os (lt_gt t4) = mem_store (\<lambda>_. None) (wide 0x5000) (bytes_of_word (100 :: u32)) \<and>
    ExecuteCheatActionForType one_game no_floats True ''Set Value'' 0x5000
      (ConvertStringToDataType no_floats (show_nat 100)) ''Byte'' (trainer_at (\<lambda>_. None)) = Some t1 \<and>
    gt_os (lt_gt t1) = mem_store (\<lambda>_. None) (wide 0x5000) [49]"
proof -
  have "show_nat 100 = ''100''" by code_simp
  then show ?thesis
    using set_value_writes [OF one_game_api one_game_writes, of 100 no_floats "0x5000" "trainer_at (\<lambda>_. None)"]
    by (simp add: trainer_at_def game_at_def)
qed

section \<open>Freezing threads\<close>

text \<open>
  What happens in a running trainer: actions, whatever the value, the outcome or the address, and
  turns of the freezing threads.
\<close>

inductive trainer_run :: "'o gt_api \<Rightarrow> 'o legacy_trainer \<Rightarrow> 'o legacy_trainer \<Rightarrow> bool" for api where
  run_refl: "trainer_run api t t"
| run_action: "trainer_run api t u \<Longrightarrow> ExecuteCheatAction api fl popen_ok act a v u = Acted u' \<Longrightarrow> trainer_run api t u'"
| run_thread: "trainer_run api t u \<Longrightarrow> trainer_run api t (thread_turn api i u)"

text \<open>The threads by address and token, and the live ones of an address.\<close>

definition thread_keys :: "'o legacy_trainer \<Rightarrow> (dword \<times> nat) list" where
  "thread_keys t = map (\<lambda>th. (fth_address th, fth_token th)) (lt_threads t)"

definition live_threads :: "'o legacy_trainer \<Rightarrow> dword \<Rightarrow> (dword \<times> nat) list" where
  "live_threads t a = filter (\<lambda>(b, k). b = a \<and> \<not> lt_flags t ! k) (thread_keys t)"

definition freeze_inv :: "'o legacy_trainer \<Rightarrow> bool" where
  "freeze_inv t \<longleftrightarrow> distinct (map snd (thread_keys t)) \<and> (\<forall>(a, k) \<in> set (thread_keys t). k < length (lt_flags t)) \<and>
     (\<forall>a k. lt_tokens t a = Some k \<longleftrightarrow> (a, k) \<in> set (thread_keys t) \<and> \<not> lt_flags t ! k)"

definition same_threads :: "'o legacy_trainer \<Rightarrow> 'o legacy_trainer \<Rightarrow> bool" where
  "same_threads t u \<longleftrightarrow> thread_keys u = thread_keys t \<and> lt_flags u = lt_flags t \<and> lt_tokens u = lt_tokens t"

lemma freeze_inv_same: "same_threads t u \<Longrightarrow> freeze_inv u = freeze_inv t"
  by (simp add: freeze_inv_def same_threads_def)

lemma same_threads_gt [simp]:
  "same_threads t t" "same_threads t (u\<lparr>lt_gt := g\<rparr>) \<longleftrightarrow> same_threads t u" "same_threads t (lt_log m u) \<longleftrightarrow> same_threads t u"
  "same_threads (lt_log m t) u \<longleftrightarrow> same_threads t u" "same_threads (t\<lparr>lt_gt := g\<rparr>) u \<longleftrightarrow> same_threads t u"
  by (simp_all add: same_threads_def thread_keys_def lt_log_def)

lemma freeze_inv_gt: "freeze_inv (t\<lparr>lt_gt := g\<rparr>) = freeze_inv t"
  by (rule freeze_inv_same) simp

lemma freeze_inv_log: "freeze_inv (lt_log m t) = freeze_inv t"
  by (rule freeze_inv_same) simp

lemma write_value_same [simp]: "same_threads t (write_value api a v u) \<longleftrightarrow> same_threads t u"
  by (simp add: write_value_def lt_write_def same_threads_def thread_keys_def split: cheat_value.split)

lemma thread_turn_same: "same_threads t (thread_turn api i t)"
proof (cases "i < length (lt_threads t)")
  case True
  have "map (\<lambda>th. (fth_address th, fth_token th)) ((lt_threads t)[i := (lt_threads t ! i)\<lparr>fth_pc := pc\<rparr>])
      = map (\<lambda>th. (fth_address th, fth_token th)) (lt_threads t)" for pc
    using True by (simp add: map_update list_update_same_conv)
  then show ?thesis
    using True by (simp add: thread_turn_def same_threads_def thread_keys_def Let_def split: thread_pc.split prod.split)
qed (simp add: thread_turn_def same_threads_def)

lemma unfreeze_keys: "thread_keys (CheatAction_UnfreezeValue a t) = thread_keys t"
  "length (lt_flags (CheatAction_UnfreezeValue a t)) = length (lt_flags t)"
  by (simp_all add: CheatAction_UnfreezeValue_def thread_keys_def split: option.split)

lemma unfreeze_inv:
  assumes "freeze_inv t"
  shows "freeze_inv (CheatAction_UnfreezeValue a t) \<and> lt_tokens (CheatAction_UnfreezeValue a t) a = None"
proof (cases "lt_tokens t a")
  case None
  then show ?thesis using assms by (simp add: CheatAction_UnfreezeValue_def)
next
  case (Some k)
  have d: "distinct (map snd (thread_keys t))" and l: "\<forall>(b, j) \<in> set (thread_keys t). j < length (lt_flags t)"
    and T: "\<And>b j. lt_tokens t b = Some j \<longleftrightarrow> (b, j) \<in> set (thread_keys t) \<and> \<not> lt_flags t ! j"
    using assms unfolding freeze_inv_def by blast+
  have k: "(a, k) \<in> set (thread_keys t)" using T Some by blast
  have uniq: "b = a" if "(b, k) \<in> set (thread_keys t)" for b
  proof -
    have "inj_on snd (set (thread_keys t))" using d by (simp add: distinct_map)
    from inj_onD [OF this, of "(b, k)" "(a, k)"] show ?thesis using k that by simp
  qed
  have "((lt_tokens t)(a := None)) b = Some j \<longleftrightarrow> (b, j) \<in> set (thread_keys t) \<and> \<not> (lt_flags t)[k := True] ! j" for b j
  proof (cases "b = a")
    case True
    have "(lt_flags t)[k := True] ! j" if "(a, j) \<in> set (thread_keys t)"
      using that l T [of a j] Some by (cases "j = k") auto
    then show ?thesis using True by auto
  next
    case False
    then have "j \<noteq> k" if "(b, j) \<in> set (thread_keys t)" using that uniq by blast
    then show ?thesis using False T [of b j] by auto
  qed
  then show ?thesis
    using Some d l unfreeze_keys(1) [of a t]
    by (auto simp: freeze_inv_def CheatAction_UnfreezeValue_def thread_keys_def)
qed

lemma start_freeze_inv:
  assumes "freeze_inv t"
  shows "freeze_inv (start_freeze a bs t)"
proof -
  define u where "u = CheatAction_UnfreezeValue a t"
  define n where "n = length (lt_flags u)"
  have u: "freeze_inv u" "lt_tokens u a = None" using unfreeze_inv [OF assms] by (simp_all add: u_def)
  have d: "distinct (map snd (thread_keys u))" and l: "\<And>b j. (b, j) \<in> set (thread_keys u) \<Longrightarrow> j < n"
    and T: "\<And>b j. lt_tokens u b = Some j \<longleftrightarrow> (b, j) \<in> set (thread_keys u) \<and> \<not> lt_flags u ! j"
    using u(1) unfolding freeze_inv_def n_def by blast+
  have parts: "thread_keys (start_freeze a bs t) = thread_keys u @ [(a, n)]" "lt_flags (start_freeze a bs t) = lt_flags u @ [False]"
    "lt_tokens (start_freeze a bs t) = (lt_tokens u)(a \<mapsto> n)"
    by (simp_all add: start_freeze_def u_def n_def thread_keys_def unfreeze_keys Let_def)
  have "((lt_tokens u)(a \<mapsto> n)) b = Some j \<longleftrightarrow>
      (b, j) \<in> set (thread_keys u @ [(a, n)]) \<and> \<not> (lt_flags u @ [False]) ! j" for b j
    using T [of b j] l [of b j] u(2) by (auto simp: nth_append n_def)
  moreover have "distinct (map snd (thread_keys u @ [(a, n)]))" using d l by fastforce
  moreover have "\<forall>(b, j) \<in> set (thread_keys u @ [(a, n)]). j < length (lt_flags u @ [False])"
    using l by (fastforce simp: n_def)
  ultimately show ?thesis unfolding freeze_inv_def parts by blast
qed

lemma freeze_value_inv:
  "freeze_inv t \<Longrightarrow> CheatAction_FreezeValue api a v t = Some u \<Longrightarrow> freeze_inv u"
  by (auto simp: CheatAction_FreezeValue_def freeze_inv_gt intro!: start_freeze_inv
      split: cheat_value.splits if_splits prod.splits)

lemma action_inv:
  assumes "freeze_inv t" "ExecuteCheatAction api fl popen_ok act a v t = Acted u"
  shows "freeze_inv u"
proof -
  have "same_threads t (CheatAction_SetValue api a v t)" "same_threads t (CheatAction_IncreaseValue api fl a v t)"
    by (simp_all add: CheatAction_SetValue_def CheatAction_IncreaseValue_def Let_def case_prod_beta same_threads_def
        thread_keys_def lt_log_def write_value_def lt_write_def split: cheat_value.split)
  moreover have "same_threads t w" if "CheatAction_DecreaseValue api fl a v t = Some w" for w
    using that by (auto simp: CheatAction_DecreaseValue_def Let_def case_prod_beta split: cheat_value.splits)
  ultimately show ?thesis
    using assms unfreeze_inv [OF assms(1), of a] freeze_value_inv [OF assms(1)]
    by (auto simp: ExecuteCheatAction_def Let_def freeze_inv_same freeze_inv_log split: if_splits option.splits)
qed

lemma trainer_run_inv:
  "trainer_run api t u \<Longrightarrow> freeze_inv t \<Longrightarrow> freeze_inv u"
  by (induction rule: trainer_run.induct) (auto intro: action_inv simp: freeze_inv_same [OF thread_turn_same])

lemma live_at_most_one:
  assumes "freeze_inv t"
  shows "live_threads t a = (case lt_tokens t a of None \<Rightarrow> [] | Some k \<Rightarrow> [(a, k)])"
proof -
  have d: "distinct (thread_keys t)" and T: "\<And>b j. lt_tokens t b = Some j \<longleftrightarrow> (b, j) \<in> set (thread_keys t) \<and> \<not> lt_flags t ! j"
    using assms by (auto simp: freeze_inv_def distinct_map)
  have "(b, k) \<in> set (live_threads t a) \<longleftrightarrow> b = a \<and> lt_tokens t a = Some k" for b k
    unfolding T by (auto simp: live_threads_def)
  then have "set (live_threads t a) = {(b, k). b = a \<and> lt_tokens t a = Some k}" by auto
  moreover have "distinct (live_threads t a)" using d by (simp add: live_threads_def)
  ultimately show ?thesis
    by (cases "lt_tokens t a"; cases "live_threads t a"; cases "tl (live_threads t a)") auto
qed



end
