(* ===== verification/Legacy_Display.thy ===== *)
theory Legacy_Display
  imports Legacy_Cheats
begin

text \<open>
  What \<open>GTLibc\<close> prints: names of keys, the table, the menu, the values read, and the text logged for a
  parsed entry (\<open>libs/gtlibc/src/GTLibc.cpp\<close>, \<open>CEParser.cpp\<close>). A function that prints to
  \<open>std::cout\<close> is the text it prints; the keyboard calls and the default stream format of floating
  point are parameters. The last section proves that the menu has one line per entry.
\<close>

section \<open>Names of keys\<close>

text \<open>\<open>MapVirtualKey\<close>, and \<open>GetKeyNameTextA\<close> with its result and the text in its buffer.\<close>

record key_api =
  ka_scan_code :: "u32 \<Rightarrow> u32"
  ka_key_name :: "u32 \<Rightarrow> int \<times> string"

definition KeyCodeToName :: "key_api \<Rightarrow> u32 \<Rightarrow> string" where
  "KeyCodeToName api keyCode =
     (let scanCode = ka_scan_code api keyCode in
      if scanCode = 0 then []
      else (case ka_key_name api (push_bit 16 scanCode) of
              (n, keyName) \<Rightarrow> if n = 0 then [] else keyName))"

definition GetHotKeysName :: "key_api \<Rightarrow> u32 list \<Rightarrow> string" where
  "GetHotKeysName api keys = concat (map (\<lambda>k. KeyCodeToName api k @ '' '') keys)"

section \<open>Tables\<close>

definition endl :: string where "endl = [CHR 0x0A]"
definition tab :: string where "tab = [CHR 0x09]"

text \<open>\<open>if (flag) std::cout << text;\<close>\<close>

definition shown :: "bool \<Rightarrow> string \<Rightarrow> string" where
  "shown flag text = (if flag then text else [])"

definition decimals :: "'a::len word list \<Rightarrow> string" where
  "decimals ws = concat (map (\<lambda>w. show_nat (unat w) @ '' '') ws)"

definition display_hotkey :: "key_api \<Rightarrow> bool \<Rightarrow> bool \<Rightarrow> bool \<Rightarrow> legacy_hotkey \<Rightarrow> string" where
  "display_hotkey api action hotkeys value h =
     shown action (''  Action: '' @ hk_action h @ endl) @
     shown hotkeys (''  Keys: ['' @ GetHotKeysName api (hk_keys h) @ '']'' @ endl) @
     shown value (''  Value: '' @ hk_value h @ endl) @
     shown hotkeys (''  ID: '' @ show_int (hk_id h) @ endl)"

definition display_entry :: "key_api \<Rightarrow> bool \<Rightarrow> bool \<Rightarrow> bool \<Rightarrow> bool \<Rightarrow> bool \<Rightarrow> legacy_entry \<Rightarrow> string" where
  "display_entry api index description action hotkeys value e =
     shown description (''Description: '' @ lent_description e @ endl) @
     shown index (''Index: '' @ show_int (lent_id e) @ endl) @
     shown action (''VariableType: '' @ lent_type e @ endl @
       ''Address: '' @ show_nat (unat (lent_address e)) @ endl @
       ''Offsets: '' @ decimals (lent_offsets e) @ endl) @
     shown (hotkeys \<or> action \<or> value)
       (shown hotkeys (''Hotkeys: '' @ endl) @
        concat (map (display_hotkey api action hotkeys value) (lent_hotkeys e))) @
     endl"

definition DisplayCheatTable ::
  "key_api \<Rightarrow> bool \<Rightarrow> bool \<Rightarrow> bool \<Rightarrow> bool \<Rightarrow> bool \<Rightarrow> legacy_entry list \<Rightarrow> string" where
  "DisplayCheatTable api index description action hotkeys value es =
     concat (map (display_entry api index description action hotkeys value) es)"

definition menu_hotkey :: "key_api \<Rightarrow> bool \<Rightarrow> bool \<Rightarrow> legacy_hotkey \<Rightarrow> string" where
  "menu_hotkey api action hotkeys h =
     shown action ('' '' @ hk_action h @ tab) @
     shown hotkeys (tab @ '' ['' @ GetHotKeysName api (hk_keys h) @ ''] '')"

definition menu_line :: "key_api \<Rightarrow> bool \<Rightarrow> bool \<Rightarrow> bool \<Rightarrow> bool \<Rightarrow> nat \<Rightarrow> legacy_entry \<Rightarrow> string" where
  "menu_line api index description action hotkeys cheatIndex e =
     shown index (show_nat cheatIndex @ ''.'' @ tab) @
     shown description (lent_description e @ tab) @
     shown action (lent_action e @ tab) @
     shown (hotkeys \<or> action) (concat (map (menu_hotkey api action hotkeys) (lent_hotkeys e))) @
     endl"

fun menu_lines :: "key_api \<Rightarrow> bool \<Rightarrow> bool \<Rightarrow> bool \<Rightarrow> bool \<Rightarrow> nat \<Rightarrow> legacy_entry list \<Rightarrow> string" where
  "menu_lines api index description action hotkeys cheatIndex [] = []"
| "menu_lines api index description action hotkeys cheatIndex (e # es) =
     menu_line api index description action hotkeys cheatIndex e @
     menu_lines api index description action hotkeys (Suc cheatIndex) es"

definition DisplayCheatTableMenu ::
  "key_api \<Rightarrow> bool \<Rightarrow> bool \<Rightarrow> bool \<Rightarrow> bool \<Rightarrow> u32 \<Rightarrow> legacy_entry list \<Rightarrow> string" where
  "DisplayCheatTableMenu api index description action hotkeys exitTrainerKey es =
     shown index (''Index.'' @ tab) @ shown description (''Description'' @ tab) @
     shown action (''Action'' @ tab) @ shown hotkeys (''Hotkeys'' @ tab) @ endl @
     menu_lines api index description action hotkeys 1 es @
     ''Exit Trainer '' @ tab @ '' - '' @ KeyCodeToName api exitTrainerKey @ endl"

section \<open>Values, entries, errors\<close>

text \<open>A byte is printed as the character it is.\<close>

definition DisplayCheatValue :: "(u32 \<Rightarrow> string) \<Rightarrow> (u64 \<Rightarrow> string) \<Rightarrow> cheat_value \<Rightarrow> string" where
  "DisplayCheatValue show_float show_double v =
     ''Value: '' @
     (case v of CV_u8 x \<Rightarrow> [char_of (unat x)] | CV_u16 x \<Rightarrow> show_nat (unat x) | CV_u32 x \<Rightarrow> show_nat (unat x)
      | CV_u64 x \<Rightarrow> show_nat (unat x) | CV_float x \<Rightarrow> show_float x | CV_double x \<Rightarrow> show_double x
      | CV_string x \<Rightarrow> x) @ endl"

definition log_hotkey :: "key_api \<Rightarrow> legacy_hotkey \<Rightarrow> string" where
  "log_hotkey api h =
     ''Action: '' @ hk_action h @ '' Keys: ['' @ GetHotKeysName api (hk_keys h) @
     ''] Value: '' @ hk_value h @ '' ID: '' @ show_int (hk_id h) @ '' ''"

definition AddCheatEntryLog :: "key_api \<Rightarrow> legacy_entry \<Rightarrow> string" where
  "AddCheatEntryLog api e =
     ''Description: '' @ lent_description e @ '' ID: '' @ show_int (lent_id e) @
     '' VariableType: '' @ lent_type e @ '' Address: '' @ show_nat (unat (lent_address e)) @
     '' Offsets: '' @ decimals (lent_offsets e) @
     ''Hotkeys: '' @ concat (map (log_hotkey api) (lent_hotkeys e))"

definition GetLastErrorAsString :: "u32 \<Rightarrow> (u32 \<Rightarrow> string) \<Rightarrow> string" where
  "GetLastErrorAsString error message =
     (if error = 0 then ''No error'' else ''Error code: '' @ show_nat (unat error) @ '' - '' @ message error)"

section \<open>System commands\<close>

text \<open>
  \<open>ShellExec\<close> on Windows. \<open>elevate\<close> is \<open>ShellExecuteEx\<close> with the verb \<open>runas\<close>, \<open>popen\<close> the buffers
  that \<open>fgets\<close> fills from the command's output; a buffer is appended up to its first NUL.
  \<open>Inl\<close> is the exception.
\<close>

definition ShellExec ::
  "(string \<Rightarrow> string \<Rightarrow> bool) \<Rightarrow> (string \<Rightarrow> string list option) \<Rightarrow> string \<Rightarrow> bool \<Rightarrow> string \<Rightarrow> string + string" where
  "ShellExec elevate popen cmdArgs runAsAdmin shell =
     (let command = shell @ '' /c '' @ cmdArgs in
      if runAsAdmin
      then (if elevate shell cmdArgs then Inr [] else Inl ''Error executing command as admin.'')
      else (case popen command of
              None \<Rightarrow> Inl ''popen() failed!''
            | Some buffers \<Rightarrow> Inr (concat (map c_str buffers))))"

definition GetDataTypeInfo ::
  "(string \<Rightarrow> string \<Rightarrow> bool) \<Rightarrow> (string \<Rightarrow> string list option) \<Rightarrow> string \<Rightarrow> string + string" where
  "GetDataTypeInfo elevate popen name =
     ShellExec elevate popen (''echo '' @ [CHR 0x27] @ name @ [CHR 0x27] @ '' | c++filt -t'') False ''cmd''"

text \<open>The token of the process, if it opens, and what it says of the elevation, if anything.\<close>

definition IsElevatedProcess :: "nat option \<Rightarrow> (nat \<Rightarrow> bool option) \<Rightarrow> bool" where
  "IsElevatedProcess token elevation =
     (case token of None \<Rightarrow> False | Some t \<Rightarrow> (case elevation t of None \<Rightarrow> False | Some e \<Rightarrow> e))"

section \<open>The menu has one line per entry\<close>

definition lines_of :: "string \<Rightarrow> nat" where
  "lines_of s = count_list s (CHR 0x0A)"

lemma lines_of_append [simp]: "lines_of (s @ t) = lines_of s + lines_of t"
  by (induction s) (auto simp: lines_of_def)

lemma lines_of_simps [simp]: "lines_of [] = 0" "lines_of endl = 1" "lines_of tab = 0"
  by (simp_all add: lines_of_def endl_def tab_def)

lemma lines_of_Cons [simp]: "lines_of (c # s) = (if c = CHR 0x0A then Suc (lines_of s) else lines_of s)"
  by (simp add: lines_of_def)

lemma lines_of_0: "CHR 0x0A \<notin> set s \<Longrightarrow> lines_of s = 0"
  by (simp add: lines_of_def)

lemma lines_of_shown: "lines_of (shown b s) = (if b then lines_of s else 0)"
  by (simp add: shown_def)

lemma lines_of_concat_0: "(\<And>x. x \<in> set xs \<Longrightarrow> lines_of (f x) = 0) \<Longrightarrow> lines_of (concat (map f xs)) = 0"
  by (induction xs) auto

lemma lines_of_show_nat: "lines_of (show_nat n) = 0"
  using show_nat_digits [of n] by (intro lines_of_0) (auto simp: is_digit_def)

text \<open>A text of the table fits on a line, and so does the name of a key.\<close>

definition one_line_table :: "key_api \<Rightarrow> legacy_entry list \<Rightarrow> bool" where
  "one_line_table api es \<longleftrightarrow>
     (\<forall>k. lines_of (KeyCodeToName api k) = 0) \<and>
     (\<forall>e \<in> set es. lines_of (lent_description e) = 0 \<and> lines_of (lent_action e) = 0 \<and>
        (\<forall>h \<in> set (lent_hotkeys e). lines_of (hk_action h) = 0))"

lemma menu_hotkey_lines:
  assumes "\<forall>k. lines_of (KeyCodeToName api k) = 0" "lines_of (hk_action h) = 0"
  shows "lines_of (menu_hotkey api a k h) = 0"
proof -
  have "lines_of (GetHotKeysName api (hk_keys h)) = 0"
    unfolding GetHotKeysName_def using assms(1) by (intro lines_of_concat_0) simp
  then show ?thesis using assms by (simp add: menu_hotkey_def lines_of_shown)
qed

lemma menu_line_lines:
  assumes "one_line_table api (e # es)"
  shows "lines_of (menu_line api i d a k n e) = 1"
proof -
  have "lines_of (concat (map (menu_hotkey api a k) (lent_hotkeys e))) = 0"
    using assms by (intro lines_of_concat_0 menu_hotkey_lines) (auto simp: one_line_table_def)
  then show ?thesis using assms
    by (simp add: menu_line_def lines_of_shown lines_of_show_nat one_line_table_def)
qed

lemma menu_lines_lines:
  "one_line_table api es \<Longrightarrow> lines_of (menu_lines api i d a k n es) = length es"
proof (induction es arbitrary: n)
  case (Cons e es)
  then have "one_line_table api es" by (simp add: one_line_table_def)
  then show ?case using Cons menu_line_lines [OF Cons.prems] by simp
qed simp

lemma menu_one_line_per_entry:
  assumes "one_line_table api es"
  shows "lines_of (DisplayCheatTableMenu api i d a k exit_key es) = length es + 2"
proof -
  have "lines_of (KeyCodeToName api exit_key) = 0" using assms by (simp add: one_line_table_def)
  then show ?thesis
    using menu_lines_lines [OF assms, of i d a k 1]
    by (simp add: DisplayCheatTableMenu_def lines_of_shown)
qed

end
