(* ===== verification/Legacy_Demos.thy ===== *)
theory Legacy_Demos
  imports Legacy_Display Legacy_Properties
begin

text \<open>
  The demos of \<open>GTLibc\<close>: \<open>demos/IGITrainer.cpp\<close>, a trainer with three fixed cheats, and
  \<open>demos/GenericTrainer.cpp\<close>, which runs a cheat table; with them the rest of the class
  \<open>CheatTable\<close> of \<open>CEParser.hpp\<close>. A program is its exit code, what it prints to \<open>std::cout\<close> and
  the library object it leaves; \<open>None\<close> is \<open>std::exit\<close> or undefined behaviour inside the library.
\<close>

section \<open>\<open>CheatTable\<close>\<close>

record legacy_cheat_table =
  lct_entries :: "legacy_entry list"
  lct_base :: dword

definition CheatTable_default :: legacy_cheat_table where
  "CheatTable_default = \<lparr>lct_entries = [], lct_base = 0x00400000\<rparr>"

definition CheatTable_new :: "dword \<Rightarrow> legacy_cheat_table" where
  "CheatTable_new gameBaseAddress = \<lparr>lct_entries = [], lct_base = gameBaseAddress\<rparr>"

definition IsEmpty :: "legacy_cheat_table \<Rightarrow> bool" where
  "IsEmpty t \<longleftrightarrow> lct_entries t = []"

definition SetGameBaseAddress :: "dword \<Rightarrow> legacy_cheat_table \<Rightarrow> legacy_cheat_table" where
  "SetGameBaseAddress a t = t\<lparr>lct_base := a\<rparr>"

section \<open>\<open>IGITrainer\<close>\<close>

text \<open>The global object: static storage is zero before the constructor runs.\<close>

definition zeroed_gtlibc :: "'o \<Rightarrow> 'o gtlibc" where
  "zeroed_gtlibc os = \<lparr>gt_os = os, gt_game_name = [], gt_window = 0, gt_process_id = 0, gt_handle = 0, gt_base = 0,
     gt_enable_logs = False, gt_log = [], gt_errors = []\<rparr>"

definition GetClipsAddress :: "'o gt_api \<Rightarrow> dword \<Rightarrow> 'o gtlibc \<Rightarrow> (dword \<times> 'o gtlibc) option" where
  "GetClipsAddress api gameBaseAddress g =
     (case ReadPointerOffset api gameBaseAddress 0x00671890 g of
        (clipsBasePointer :: dword, g) \<Rightarrow>
          map_option (\<lambda>(p, g). (p + 0x144, g)) (ReadPointerOffsets api clipsBasePointer [0x0, 0x4C4] g))"

definition GetHumanBaseAddress :: "'o gt_api \<Rightarrow> dword \<Rightarrow> 'o gtlibc \<Rightarrow> (dword \<times> 'o gtlibc) option" where
  "GetHumanBaseAddress api gameBaseAddress g =
     (case ReadPointerOffset api gameBaseAddress 0x0016E210 g of
        (humanBasePointer :: dword, g) \<Rightarrow>
          map_option (\<lambda>(p, g). (p + 0x348, g)) (ReadPointerOffsets api humanBasePointer [0x8, 0x7CC, 0x14] g))"

definition weaponsOffsets :: "dword list" where
  "weaponsOffsets = [0x0, 0xC, 0x18, 0x24, 0x30, 0x3C, 0x48, 0x54, 0x60, 0x6C]"

definition SetAmmo :: "'o gt_api \<Rightarrow> dword \<Rightarrow> 'o gtlibc \<Rightarrow> (string \<times> 'o gtlibc) option" where
  "SetAmmo api gameBaseAddress g =
     map_option (\<lambda>(weaponBaseAddress, g).
        (case WriteAddressOffsets api weaponBaseAddress weaponsOffsets (0x7FFFFFFF :: 32 word) g of
           (ok, g) \<Rightarrow> (shown ok (''[+] Unlimited ammo enabled'' @ endl), g)))
       (GetHumanBaseAddress api gameBaseAddress g)"

definition SetClips :: "'o gt_api \<Rightarrow> dword \<Rightarrow> 'o gtlibc \<Rightarrow> (string \<times> 'o gtlibc) option" where
  "SetClips api gameBaseAddress g =
     map_option (\<lambda>(clipsAddress, g).
        (case WriteAddress api clipsAddress (0xFFFFFF :: 32 word) g of
           (ok, g) \<Rightarrow> (shown ok (''[+] Unlimited clips enabled'' @ endl), g)))
       (GetClipsAddress api gameBaseAddress g)"

definition SetHealth :: "'o gt_api \<Rightarrow> dword \<Rightarrow> 'o gtlibc \<Rightarrow> (string \<times> 'o gtlibc) option" where
  "SetHealth api gameBaseAddress g =
     map_option (\<lambda>(human, g).
        (let healthAddress = human - 0xF4 in
         case WriteAddress api healthAddress (0xFFFFFFFF :: 32 word) g of
           (ok, g) \<Rightarrow> (''Health address: '' @ show_hex (unat healthAddress) @ endl @
                        shown ok (''[+] Unlimited health enabled'' @ endl), g)))
       (GetHumanBaseAddress api gameBaseAddress g)"

definition VK_F1 :: "32 word" where "VK_F1 = 0x70"
definition VK_F2 :: "32 word" where "VK_F2 = 0x71"
definition VK_F3 :: "32 word" where "VK_F3 = 0x72"
definition VK_F5 :: "32 word" where "VK_F5 = 0x74"
definition VK_F12 :: "32 word" where "VK_F12 = 0x7B"

text \<open>
  The loop over the keyboard states of its iterations; it ends with F5, or here with the list.
  The flag tells which.
\<close>

fun igi_loop ::
  "'o gt_api \<Rightarrow> dword \<Rightarrow> (32 word \<Rightarrow> 16 word) list \<Rightarrow> string \<times> 'o gtlibc \<Rightarrow> (bool \<times> string \<times> 'o gtlibc) option" where
  "igi_loop api base [] (out, g) = Some (False, out, g)"
| "igi_loop api base (keys # later) (out, g) =
     (let act = (\<lambda>r. case r of None \<Rightarrow> None | Some (txt, g') \<Rightarrow> igi_loop api base later (out @ txt, g')) in
      if IsKeyToggled keys VK_F1 then act (SetHealth api base g)
      else if IsKeyToggled keys VK_F2 then act (SetAmmo api base g)
      else if IsKeyToggled keys VK_F3 then act (SetClips api base g)
      else if IsKeyToggled keys VK_F5 then Some (True, out, g)
      else igi_loop api base later (out, g))"

definition igi_banner :: string where
  "igi_banner = ''IGI Trainer +3.'' @ endl @ ''F1 - Unlimited health'' @ endl @ ''F2 - Unlimited ammo'' @ endl @
     ''F3 - Unlimited clips'' @ endl @ ''F5 - Exit'' @ endl"

text \<open>Without a game the exit code is \<open>EXIT_FAILURE\<close>.\<close>

definition igi_main ::
  "'o gt_api \<Rightarrow> 'o \<Rightarrow> (32 word \<Rightarrow> 16 word) list \<Rightarrow> (int \<times> string \<times> 'o gtlibc) option" where
  "igi_main api os key_states =
     (case GTLibc_new api (zeroed_gtlibc os) [] True of
        None \<Rightarrow> None
      | Some g \<Rightarrow>
          (case FindGameProcess api ''igi'' g of
             None \<Rightarrow> None
           | Some (gameHandle, g) \<Rightarrow>
               (if gameHandle = 0 then Some (1, igi_banner, g)
                else (case GetGameBaseAddress api g of
                        (base, g) \<Rightarrow>
                          (case igi_loop api base key_states (igi_banner, g) of
                             None \<Rightarrow> None
                           | Some (left, out, g) \<Rightarrow>
                               Some (0, out @ shown left (''Trainer made using GTLibc :)'' @ endl), g))))))"

section \<open>\<open>GenericTrainer\<close>\<close>

text \<open>What \<open>ReadCheatTableEntries\<close> prints: each value after its description.\<close>

definition entry_heading :: "legacy_entry \<Rightarrow> string" where
  "entry_heading e =
     (if lent_offsets e \<noteq> []
      then ''Description: '' @ lent_description e @ '' Address: '' @ show_hex (unat (lent_address e)) @ '' Offsets: '' @
           concat (map (\<lambda>d. show_hex (unat d) @ '','') (rev (lent_offsets e)))
      else ''Description: '' @ lent_description e @ '' '')"

definition read_entries_text :: "(u32 \<Rightarrow> string) \<Rightarrow> (u64 \<Rightarrow> string) \<Rightarrow> legacy_entry list \<Rightarrow> cheat_value list \<Rightarrow> string" where
  "read_entries_text show_float show_double es vs =
     concat (map (\<lambda>(e, v). entry_heading e @ DisplayCheatValue show_float show_double v)
       (zip (filter (\<lambda>e. lent_offsets e \<noteq> [] \<or> lent_address e \<noteq> 0) es) vs))"

record generic_env =
  gen_files :: "string \<Rightarrow> string option"
  gen_keys :: key_api
  gen_floats :: float_text
  gen_popen_ok :: bool
  gen_key_states :: "(u32 \<Rightarrow> 16 word) list"

text \<open>
  What is printed before the trainer runs, and the trainer after it; the menu that
  \<open>ExecuteCheatTable\<close> prints is \<open>DisplayCheatTableMenu\<close>.
\<close>

definition GenerateGenericTrainer ::
  "'o gt_api \<Rightarrow> generic_env \<Rightarrow> string \<Rightarrow> bool \<Rightarrow> bool \<Rightarrow> bool \<Rightarrow> int list \<Rightarrow> 'o legacy_trainer
     \<Rightarrow> (string \<times> 'o legacy_trainer) option" where
  "GenerateGenericTrainer api env cheatTableFile printCheat readCheat activateCheat cheatIds t =
     (case ReadCheatTable (gen_files env) cheatTableFile (-1) t of
        None \<Rightarrow> None
      | Some (table, t) \<Rightarrow>
          (if IsEmpty \<lparr>lct_entries = table, lct_base = gt_base (lt_gt t)\<rparr> then Some ([], t)
           else (let fl = gen_floats env;
                     printed = shown printCheat (DisplayCheatTable (gen_keys env) True True False True False (lt_table t));
                     (vs, t) = (if readCheat then ReadCheatTableEntries api t else ([], t));
                     printed = printed @ shown readCheat
                       (read_entries_text (ft_show_float fl) (ft_show_double fl) (lt_table t) vs)
                 in case (if activateCheat then ActivateCheatTableEntries cheatIds t else Some t) of
                      None \<Rightarrow> None
                    | Some t \<Rightarrow>
                        map_option (\<lambda>t. (printed, t))
                          (ExecuteCheatTable api fl (gen_popen_ok env) (ucast VK_F12) (gen_key_states env) t))))"

definition generic_main :: "'o gt_api \<Rightarrow> generic_env \<Rightarrow> 'o \<Rightarrow> (int \<times> string \<times> 'o legacy_trainer) option" where
  "generic_main api env os =
     (case GTLibc_new api (zeroed_gtlibc os) [] False of
        None \<Rightarrow> None
      | Some g \<Rightarrow>
          (case FindGameProcess api ''ac_client'' (EnableLogs True g) of
             None \<Rightarrow> None
           | Some (gameHandle, g) \<Rightarrow>
               map_option (\<lambda>(out, t). (0, out, t))
                 (GenerateGenericTrainer api env ''CheatTable/assaultcube.ct'' False False False []
                    \<lparr>lt_gt = g, lt_table = [], lt_tokens = (\<lambda>_. None), lt_flags = [], lt_threads = []\<rparr>)))"

section \<open>Lemmas\<close>

definition human_address :: "mem \<Rightarrow> dword \<Rightarrow> dword" where
  "human_address m base = dword_walk m (word_at m (base + 0x0016E210)) [0x8, 0x7CC, 0x14] + 0x348"

lemma GetHumanBaseAddress_walk:
  fixes g :: "'o gtlibc"
  assumes "gt_memory_api api mem"
  obtains g' where "GetHumanBaseAddress api base g = Some (human_address (gt_mem mem g) base, g')" "same_game g g'"
proof -
  obtain p g1 where p: "(ReadPointerOffset api base 0x0016E210 g :: dword \<times> 'o gtlibc) = (p, g1)" by fastforce
  have 1: "p = word_at (gt_mem mem g) (base + 0x0016E210)" "same_game g g1"
    using ReadPointerOffset_spec [OF assms, where p = base and off = "0x0016E210" and g = g and ?'a = 32] p by simp_all
  show ?thesis
  proof (rule ReadPointerOffsets_walk [OF assms, of "[0x8, 0x7CC, 0x14]" p g1, where ?'a = 32])
    fix g2 assume "ReadPointerOffsets api p [0x8, 0x7CC, 0x14] g1
        = Some (ucast (dword_walk (gt_mem mem g1) p [0x8, 0x7CC, 0x14]) :: dword, g2)" "same_game g1 g2"
    then show ?thesis
      using 1 p by (intro that [of g2]) (auto simp: GetHumanBaseAddress_def human_address_def same_game_def)
  qed simp
qed

lemma igi_loop_returns:
  assumes "gt_memory_api api mem"
  shows "igi_loop api base ks (out, g) \<noteq> None"
proof (induction ks arbitrary: out g)
  case (Cons keys later)
  have a: "SetAmmo api base g \<noteq> None" "SetHealth api base g \<noteq> None"
    by (rule GetHumanBaseAddress_walk [OF assms, of base g]; simp add: SetAmmo_def SetHealth_def)+
  have "SetClips api base g \<noteq> None"
    by (simp add: SetClips_def GetClipsAddress_def ReadPointerOffsets_def Let_def split: prod.split)
  then show ?case using a Cons.IH by (auto simp: Let_def)
qed simp

section \<open>Properties\<close>

text \<open>
  C15: the IGI trainer's "unlimited ammo" works and says it did not. Over a game whose memory behaves
  as documented and whose writes succeed, \<open>SetAmmo\<close> follows the pointers of the game to the player and
  stores 0x7FFFFFFF in the ten ammo slots, and it prints nothing, because the result of
  \<open>WriteAddressOffsets\<close> it tests is always false.
\<close>

theorem igi_ammo_silent:
  fixes g :: "'o gtlibc"
  assumes "gt_memory_api api mem" and "\<And>os h a bs. fst (fst (ga_write api os h a bs))"
  shows "\<exists>g'. SetAmmo api base g = Some ([], g') \<and>
    gt_mem mem g' = fold (\<lambda>off m. mem_store m (wide (human_address (gt_mem mem g) base + off)) (bytes_of_word (0x7FFFFFFF :: 32 word)))
      weaponsOffsets (gt_mem mem g)"
proof (rule GetHumanBaseAddress_walk [OF assms(1), of base g])
  fix g1 assume h: "GetHumanBaseAddress api base g = Some (human_address (gt_mem mem g) base, g1)" "same_game g g1"
  let ?a = "human_address (gt_mem mem g) base"
  note w = legacy_batch_results_lost [OF assms, where address = ?a and offsets = weaponsOffsets
      and v = "0x7FFFFFFF :: 32 word" and g = g1 and ?'b = 32]
  obtain ok g2 where "WriteAddressOffsets api ?a weaponsOffsets (0x7FFFFFFF :: 32 word) g1 = (ok, g2)" by fastforce
  then have "\<not> ok" "gt_mem mem g2 = fold (\<lambda>off m. mem_store m (wide (?a + off)) (bytes_of_word (0x7FFFFFFF :: 32 word)))
      weaponsOffsets (gt_mem mem g)" "SetAmmo api base g = Some (shown ok (''[+] Unlimited ammo enabled'' @ endl), g2)"
    using w h by (simp_all add: SetAmmo_def same_game_def)
  then show ?thesis by (simp add: shown_def)
qed

text \<open>A game whose player is at 0x6000: three pointers lead there, from 0x56E210 on.\<close>

definition igi_memory :: mem where
  "igi_memory = mem_store (mem_store (mem_store (mem_store (\<lambda>_. None) 0x56E210 (bytes_of_word (0x1000 :: u32)))
     0x1008 (bytes_of_word (0x2000 :: u32))) 0x27CC (bytes_of_word (0x3000 :: u32))) 0x3014 (bytes_of_word (0x6000 :: u32))"

lemma igi_memory_words:
  "word_at igi_memory 0x56E210 = (0x1000 :: dword)" "word_at igi_memory 0x1008 = (0x2000 :: dword)"
  "word_at igi_memory 0x27CC = (0x3000 :: dword)" "word_at igi_memory 0x3014 = (0x6000 :: dword)"
  by (simp_all add: word_at_def wide_def igi_memory_def mem_slice_numeral bytes_of_word_def upt_rec)

theorem igi_ammo_silent_witness:
  "\<exists>g'. SetAmmo one_game 0x400000 (game_at igi_memory) = Some ([], g') \<and>
     gt_os g' = fold (\<lambda>off m. mem_store m (wide (0x6348 + off)) (bytes_of_word (0x7FFFFFFF :: 32 word))) weaponsOffsets igi_memory"
proof -
  have "human_address igi_memory 0x400000 = 0x6348" by (simp add: human_address_def igi_memory_words)
  then show ?thesis
    using igi_ammo_silent [OF one_game_api one_game_writes, of "0x400000" "game_at igi_memory"]
    by (simp add: game_at_def)
qed

text \<open>
  without a running game the generic trainer changes nothing: if no process of the name is found
  and the system lists processes, the program ends with code 0, nothing printed, the system as it was,
  no cheat table kept and no freezing thread started, whatever the table file holds.
\<close>

theorem generic_trainer_needs_game:
  assumes "ga_processes api os = Some (p # ps)" and "\<forall>(name, pid) \<in> set (p # ps). \<not> ga_same_name api name ''ac_client.exe''"
  shows "\<exists>t. generic_main api env os = Some (0, [], t) \<and> gt_os (lt_gt t) = os \<and> lt_table t = [] \<and> lt_threads t = []"
proof -
  have none: "List.find (\<lambda>(name, pid). ga_same_name api name ''ac_client.exe'') (p # ps) = None"
    using assms(2) by (auto simp: find_None_iff)
  have exe: "game_exe ''ac_client'' = ''ac_client.exe''" by (simp add: game_exe_def)
  obtain g where g: "FindGameProcess api ''ac_client'' (EnableLogs True (zeroed_gtlibc os)) = Some (0, g)"
    "gt_os g = os" "gt_base g = 0"
    using assms(1) none
    by (auto simp: FindGameProcess_def exe Let_def EnableLogs_def zeroed_gtlibc_def split: list.split)
  have z: "GTLibc_new api (zeroed_gtlibc os) [] False = Some (zeroed_gtlibc os)"
    by (simp add: GTLibc_new_def zeroed_gtlibc_def)
  show ?thesis using g
    by (auto simp: generic_main_def z GenerateGenericTrainer_def ReadCheatTable_def Let_def IsEmpty_def split: option.split)
qed

theorem generic_trainer_needs_game_witness:
  "\<exists>t. generic_main one_game \<lparr>gen_files = (\<lambda>f. Some ''<CheatEntries></CheatEntries>''), gen_keys = \<lparr>ka_scan_code = (\<lambda>k. 0), ka_key_name = (\<lambda>k. (0, []))\<rparr>,
       gen_floats = no_floats, gen_popen_ok = True, gen_key_states = []\<rparr> (\<lambda>_. None) = Some (0, [], t) \<and> lt_threads t = []"
  using generic_trainer_needs_game [of one_game "\<lambda>_. None" "(''game.exe'', 7)" "[]"]
  by (auto simp: one_game_def)

end
