(* ===== verification/Example_Trainer.thy ===== *)
theory Example_Trainer
  imports Example_Tools Trainer_Properties
begin

text \<open>
  \<open>examples/assaultcube_trainer.cpp\<close>: the simulated game it falls back to, how it attaches on macOS
  and on Windows, and \<open>main\<close>. The schedule of the freeze worker (while \<open>main\<close> sleeps, while it
  joins the worker, at the end) is a parameter, and so is what the program computes and prints of
  floats.
\<close>

section \<open>\<open>SimulatedAssaultCubeBackend\<close>\<close>

record assault_sim =
  as_is_64bit :: bool
  as_memory :: mem

definition float_59_5 :: u32 where "float_59_5 = 0x426E0000"
definition float_47_2 :: u32 where "float_47_2 = 0x423CCCCD"

text \<open>The three helpers store the object representation of their value, byte by byte.\<close>

definition write_u32 :: "mem \<Rightarrow> address \<Rightarrow> u32 \<Rightarrow> mem" where
  "write_u32 m a v = (let p = bytes_of_word v in foldl (\<lambda>m i. m(a + of_nat i \<mapsto> p ! i)) m [0..<4])"

definition write_u64 :: "mem \<Rightarrow> address \<Rightarrow> u64 \<Rightarrow> mem" where
  "write_u64 m a v = (let p = bytes_of_word v in foldl (\<lambda>m i. m(a + of_nat i \<mapsto> p ! i)) m [0..<8])"

definition write_float :: "mem \<Rightarrow> address \<Rightarrow> u32 \<Rightarrow> mem" where
  "write_float m a v = (let p = bytes_of_word v in foldl (\<lambda>m i. m(a + of_nat i \<mapsto> p ! i)) m [0..<4])"

definition SimulatedAssaultCubeBackend_new :: "bool \<Rightarrow> assault_sim" where
  "SimulatedAssaultCubeBackend_new is_64bit = \<lparr>as_is_64bit = is_64bit, as_memory =
     (if is_64bit then
        (let base = 0x100000000; player_ptr = base + 0x1CBD38; player = 0x100500000;
             m = write_u64 (\<lambda>_. None) player_ptr player;
             m = write_u32 m (player + 0x100) 100;
             m = write_u32 m (player + 0x104) 50;
             m = write_u32 m (player + 0x108) 6;
             m = write_u32 m (player + 0x154) 20;
             m = write_u32 m (player + 0x130) 60;
             m = write_float m (player + 0x8) float_59_5;
             m = write_float m (player + 0xC) float_47_2
         in write_float m (player + 0x10) float_4_5)
      else
        (let base = 0x400000; player_ptr = base + 0x17E0A8; player = 0x500000;
             m = write_u32 (\<lambda>_. None) player_ptr (ucast (player :: address));
             m = write_u32 m (player + 0xEC) 100;
             m = write_u32 m (player + 0xF0) 50;
             m = write_u32 m (player + 0xFC) 6;
             m = write_u32 m (player + 0x140) 20;
             m = write_u32 m (player + 0x11C) 60;
             m = write_float m (player + 0x2C) float_59_5;
             m = write_float m (player + 0x28) float_47_2
         in write_float m (player + 0x30) float_4_5))\<rparr>"

text \<open>No request is validated here: a read stops at the first unmapped byte, a write always stores.\<close>

definition assault_read :: "assault_sim \<Rightarrow> address \<Rightarrow> size_t \<Rightarrow> u8 list result outcome \<times> assault_sim" where
  "assault_read b a n =
     (case mem_slice (as_memory b) a (unat n) of
        None \<Rightarrow> (Returned (failure (make_error EC_read_failed ''unmapped simulated address'' ''read'' a n)), b)
      | Some out \<Rightarrow> (Returned (success out), b))"

definition assault_write :: "assault_sim \<Rightarrow> address \<Rightarrow> u8 list \<Rightarrow> size_t result outcome \<times> assault_sim" where
  "assault_write b a bytes =
     (Returned (success (of_nat (length bytes))), b\<lparr>as_memory := mem_store (as_memory b) a bytes\<rparr>)"

definition assault_is_alive :: "assault_sim \<Rightarrow> bool" where
  "assault_is_alive b = True"

definition assault_target_id :: "assault_sim \<Rightarrow> string" where
  "assault_target_id b = (if as_is_64bit b then ''sim:assaultcube_x64'' else ''sim:assaultcube_x86'')"

definition assault_identity :: "assault_sim \<Rightarrow> target_identity" where
  "assault_identity b = \<lparr>ti_pid = 1337, ti_start_time = 1337,
     ti_image_path = (if as_is_64bit b then ''assaultcube'' else ''ac_client.exe''), ti_image_sha256 = [],
     ti_architecture = (if as_is_64bit b then Arch_x64 else Arch_x86)\<rparr>"

definition assault_ops :: "assault_sim backend_ops" where
  "assault_ops = \<lparr>be_read = assault_read, be_write = assault_write, be_is_alive = assault_is_alive,
     be_target_id = assault_target_id, be_identity = assault_identity\<rparr>"

interpretation assault: writable_backend assault_ops as_memory
proof unfold_locales
  fix b :: assault_sim and a :: address and n :: size_t and bs :: "u8 list"
  show "as_memory (snd (be_read assault_ops b a n)) = as_memory b"
    by (simp add: assault_ops_def assault_read_def split: option.split)
  show "fst (be_read assault_ops b a n) = Returned (Inr bs) \<Longrightarrow> length bs = unat n \<Longrightarrow>
      mem_slice (as_memory b) a (unat n) = Some bs"
    by (simp add: assault_ops_def assault_read_def split: option.splits)
  show "valid_request a (unat n) \<Longrightarrow> mem_slice (as_memory b) a (unat n) = Some bs \<Longrightarrow>
      fst (be_read assault_ops b a n) = Returned (Inr bs)"
    by (simp add: assault_ops_def assault_read_def)
  show "length bs < 2 ^ 64 \<Longrightarrow> fst (be_write assault_ops b a bs) = Returned (Inr n) \<Longrightarrow>
      as_memory (snd (be_write assault_ops b a bs)) = mem_store (as_memory b) a (take (unat n) bs)"
    by (auto simp: assault_ops_def assault_write_def unat_of_nat_u64)
  show "\<forall>n. fst (be_write assault_ops b a bs) \<noteq> Returned (Inr n) \<Longrightarrow>
      as_memory (snd (be_write assault_ops b a bs)) = as_memory b"
    by (simp add: assault_ops_def assault_write_def)
  show "valid_request a (length bs) \<Longrightarrow> fst (be_write assault_ops b a bs) = Returned (Inr (of_nat (length bs)))"
    by (simp add: assault_ops_def assault_write_def)
qed

section \<open>Attaching\<close>

definition found_line :: "string \<Rightarrow> string \<Rightarrow> printed" where
  "found_line pid path = Out (line (''[+] Found running AssaultCube process: PID '' @ pid @ '' ('' @ path @ '')''))"

text \<open>What is printed, the backend if there is one, and the player's address (0: not found).\<close>

type_synonym 'b attached = "printed list \<times> 'b option \<times> address"

definition assault_attach_windows ::
  "(string \<times> u32) list option \<Rightarrow> (u32 \<Rightarrow> u64) \<Rightarrow> (u64 \<Rightarrow> bool \<times> string) \<Rightarrow> 'o win_api \<Rightarrow> 'o
     \<Rightarrow> 'b backend_ops \<Rightarrow> ('o windows_backend \<Rightarrow> 'b) \<Rightarrow> 'b attached" where
  "assault_attach_windows snapshot open_limited image_name api os ops as_backend =
     (let pid = find_game_process snapshot ''ac_client'' in
      if pid = 0 then ([], None, 0)
      else (let path = get_process_image_path open_limited image_name pid;
                found = found_line (show_nat (unat pid)) path;
                backend = as_backend (make_windows_backend api os (backend_options pid path Arch_x86 False));
                mod_base = 0x400000
            in case session_read ops (open_session ops backend) (mod_base + 0x17E0A8) of
                 (Inl e, s) \<Rightarrow> ([found], Some (ses_backend s), 0)
               | (Inr (ptr :: u32), s) \<Rightarrow>
                   (if ptr = 0 then ([found], Some (ses_backend s), 0)
                    else ([found, Out (line (''[+] Resolved LocalPlayer pointer: 0x'' @ hex_text (unat ptr)))],
                          Some (ses_backend s), ucast ptr))))"

text \<open>\<open>None\<close>: the walk over the regions of the game does not end (\<open>module_walk\<close>).\<close>

definition assault_attach_darwin ::
  "(nat \<Rightarrow> int \<times> int list) \<Rightarrow> (int \<Rightarrow> string option) \<Rightarrow> int \<Rightarrow> (int \<Rightarrow> u32 option)
     \<Rightarrow> (u32 \<Rightarrow> address \<Rightarrow> (address \<times> u64) option) \<Rightarrow> (int \<Rightarrow> address \<Rightarrow> string option)
     \<Rightarrow> 'o mach_api \<Rightarrow> 'o \<Rightarrow> 'b backend_ops \<Rightarrow> ('o darwin_backend \<Rightarrow> 'b) \<Rightarrow> 'b attached option" where
  "assault_attach_darwin list_pids pid_path self task_port region region_file api os ops as_backend =
     (let pid = find_darwin_process list_pids pid_path self [''assaultcube'', ''ac_client''] in
      if pid = 0 then Some ([], None, 0)
      else (let path = get_darwin_process_path pid_path pid; found = found_line (show_int pid) path in
        case make_darwin_backend api os \<lparr>do_pid = of_int pid, do_image_path = path, do_architecture = Arch_x64,
               do_read_only = False\<rparr> of
          None \<Rightarrow> Some ([found], None, 0)
        | Some b \<Rightarrow>
            map_option (\<lambda>mod_base.
              (let base_line = Out (line (''[+] Resolved dynamic ASLR module base: 0x'' @ hex_text (unat mod_base)))
               in case session_read ops (open_session ops (as_backend b)) (mod_base + 0x1CBD38) of
                    (Inl e, s) \<Rightarrow> ([found, base_line], Some (ses_backend s), 0)
                  | (Inr (ptr :: u64), s) \<Rightarrow>
                      (if ptr = 0 then ([found, base_line], Some (ses_backend s), 0)
                       else ([found, base_line,
                              Out (line (''[+] Resolved LocalPlayer pointer (player1): 0x'' @ hex_text (unat ptr)))],
                             Some (ses_backend s), ptr))))
              (get_darwin_module_base task_port pid_path region region_file pid ''assaultcube'')))"

section \<open>The program\<close>

definition kWeaponNames :: "string list" where
  "kWeaponNames = [''Knife'', ''Pistol'', ''Carbine'', ''Shotgun'', ''Subgun'', ''Sniper Rifle'', ''Assault Rifle'',
     ''Grenade'', ''Akimbo'']"

record 'b assault_run =
  ar_is_64bit :: bool
  ar_attached :: "'b attached"
  ar_simulated :: "bool \<Rightarrow> 'b"
  ar_spawn :: "string option"
  ar_sleep :: "string list"
  ar_sched :: "string list"
  ar_joins :: "string \<Rightarrow> string list"
  ar_show :: "u32 \<Rightarrow> string"
  ar_add10 :: "u32 \<Rightarrow> u32"

definition assault_banner :: "printed list" where
  "assault_banner =
     [Out (line ''========================================================'' @
           line ''  gtlibcpp Example: AssaultCube Trainer & HUD Telemetry'' @
           line ''========================================================'')]"

text \<open>The backend and the player's address \<open>main\<close> works with.\<close>

definition assault_target :: "'b assault_run \<Rightarrow> printed list \<times> 'b \<times> address" where
  "assault_target run =
     (case ar_attached run of
        (out, found, player_base) \<Rightarrow>
          (if found = None \<or> player_base = 0
           then (out @ [Out (line ''[*] AssaultCube is not running; using high-fidelity simulated sandbox.'')],
                 ar_simulated run (ar_is_64bit run), if ar_is_64bit run then 0x100500000 else 0x500000)
           else (out, the found, player_base)))"

definition assault_field :: "bool \<Rightarrow> address \<Rightarrow> nat \<Rightarrow> nat \<Rightarrow> address" where
  "assault_field is_64bit player_base off64 off32 = player_base + (if is_64bit then of_nat off64 else of_nat off32)"

definition value_text :: "u32 result \<Rightarrow> string" where
  "value_text r = (case r of Inr v \<Rightarrow> show_nat (unat v) | Inl e \<Rightarrow> ''ERR'')"

definition coordinate_text :: "(u32 \<Rightarrow> string) \<Rightarrow> u32 result \<Rightarrow> string" where
  "coordinate_text show_float r = show_float (case r of Inr v \<Rightarrow> v | Inl e \<Rightarrow> 0)"

definition telemetry_text ::
  "(u32 \<Rightarrow> string) \<Rightarrow> u32 result \<Rightarrow> u32 result \<Rightarrow> 32 word result \<Rightarrow> u32 result \<Rightarrow> u32 result \<Rightarrow> u32 result \<Rightarrow> printed" where
  "telemetry_text show_float hp arm gun px py pz =
     (let weapon = (case gun of Inr g \<Rightarrow> if 0 \<le> sint g \<and> sint g < 9 then kWeaponNames ! nat (sint g) else ''Unknown''
                    | Inl e \<Rightarrow> ''Unknown'')
      in Out (line [] @ line ''--- Current Player State ---'' @
           line (''  Health   : '' @ value_text hp @ '' HP'') @
           line (''  Armor    : '' @ value_text arm @ '' AP'') @
           line (''  Weapon   : '' @ weapon) @
           line (''  Position : ('' @ coordinate_text show_float px @ '', '' @ coordinate_text show_float py @ '', '' @
             coordinate_text show_float pz @ '')'') @
           line ''----------------------------'' @ line []))"

definition ammo_freeze_request :: "address \<Rightarrow> freeze_request" where
  "ammo_freeze_request rifle_clip = \<lparr>fr_id = ''ammo_freeze'', fr_address = rifle_clip, fr_type_name = ''uint32'',
     fr_value_u64 = 999, fr_interval = 20, fr_size = 4\<rparr>"

text \<open>Action 2: freeze the ammo, sleep, read it, unfreeze.\<close>

definition assault_ammo ::
  "'b backend_ops \<Rightarrow> 'b assault_run \<Rightarrow> address \<Rightarrow> 'b freeze_state \<Rightarrow> printed list \<times> 'b freeze_state" where
  "assault_ammo ops run rifle_clip ms =
     (case freeze ops (ar_spawn run) (ammo_freeze_request rifle_clip) ms of
        (Inl e, ms) \<Rightarrow> ([], ms)
      | (Inr _, ms) \<Rightarrow>
          (case run_turns ops (ar_sleep run) ms of
             (m, s) \<Rightarrow>
               (case session_read ops s rifle_clip of
                  (ammo, s) \<Rightarrow>
                    ([Out (line (''  -> Ammo frozen at: '' @ (case ammo of Inr v \<Rightarrow> show_nat (unat (v :: u32)) | Inl e \<Rightarrow> ''0'') @
                        '' [OK]''))],
                     snd (unfreeze ops (ar_sched run) ''ammo_freeze'' (m, s))))))"

text \<open>Action 4 of the source: the jump, from the height read at the start.\<close>

definition assault_jump ::
  "'b backend_ops \<Rightarrow> 'b assault_run \<Rightarrow> address \<Rightarrow> u32 result \<Rightarrow> 'b session \<Rightarrow> printed list \<times> 'b session" where
  "assault_jump ops run z_addr pz s =
     (case pz of
        Inl e \<Rightarrow> ([], s)
      | Inr z \<Rightarrow>
          (let new_z = ar_add10 run z;
               s = snd (session_write ops s z_addr new_z);
               s = snd (session_write ops s z_addr z)
           in ([Out (line (''[Action 3] Performing High Jump: ZCord '' @ ar_show run z @ '' -> '' @ ar_show run new_z @ ''...'')),
                Out (line ''  -> High Jump verified and restored cleanly [OK]'')], s)))"

definition assault_main :: "'b backend_ops \<Rightarrow> 'b assault_run \<Rightarrow> int \<times> printed list \<times> 'b freeze_state" where
  "assault_main ops run =
     (let (attach_out, backend, player_base) = assault_target run; is_64bit = ar_is_64bit run;
          s = open_session ops backend;
          m = FreezeManager_new True;
          hp_addr = assault_field is_64bit player_base 0x100 0xEC;
          arm_addr = assault_field is_64bit player_base 0x104 0xF0;
          gun_addr = assault_field is_64bit player_base 0x108 0xFC;
          x_addr = assault_field is_64bit player_base 0x8 0x2C;
          y_addr = assault_field is_64bit player_base 0xC 0x28;
          z_addr = assault_field is_64bit player_base 0x10 0x30;
          rifle_clip = assault_field is_64bit player_base 0x154 0x140;
          (hp, s) = session_read ops s hp_addr;
          (arm, s) = session_read ops s arm_addr;
          (gun, s) = session_read ops s gun_addr;
          (px, s) = session_read ops s x_addr;
          (py, s) = session_read ops s y_addr;
          (pz, s) = session_read ops s z_addr;
          telemetry = telemetry_text (ar_show run) hp arm gun px py pz;
          s = snd (session_write ops s hp_addr (100 :: u32));
          s = snd (session_write ops s arm_addr (100 :: u32));
          (ammo_out, m, s) = assault_ammo ops run rifle_clip (m, s);
          (jump_out, s) = assault_jump ops run z_addr pz s
      in (0, assault_banner @ attach_out @
            [telemetry, Out (line ''[Action 1] Setting Health & Armor to 100 HP / 100 AP...''),
             Out (line ''  -> Health & Armor write verified [OK]''),
             Out (line ''[Action 2] Freezing Rifle Ammo at 999 (FreezeManager)...'')] @ ammo_out @ jump_out @
            [Out (line [] @ line ''[+] AssaultCube trainer example executed successfully.'')],
          cancel_all ops (ar_joins run) (m, s)))"

section \<open>Lemmas: a manager with one frozen range\<close>

definition only_freezes :: "address \<Rightarrow> u8 list \<Rightarrow> freeze_manager \<Rightarrow> bool" where
  "only_freezes a bs m \<longleftrightarrow> (\<forall>i e. entry_of m i = Some e \<longrightarrow> fr_address (fe_request e) = a \<and> frozen_bytes e = bs)"

definition none_running :: "freeze_manager \<Rightarrow> bool" where
  "none_running m \<longleftrightarrow> (\<forall>i e. entry_of m i = Some e \<longrightarrow> \<not> fe_joinable e)"

lemma only_freezes_put:
  "only_freezes a bs m \<Longrightarrow> entry_of m i = Some e \<Longrightarrow> fe_request e' = fe_request e \<Longrightarrow> only_freezes a bs (put_entry m i e')"
  using frozen_bytes_request [of e' e] by (auto simp: only_freezes_def)

lemma only_freezes_turn:
  assumes "only_freezes a bs (fst ms)"
  shows "only_freezes a bs (fst (worker_turn ops i ms))"
  unfolding only_freezes_def
proof (intro allI impI)
  fix j e assume "entry_of (fst (worker_turn ops i ms)) j = Some e"
  then obtain e0 where "entry_of (fst ms) j = Some e0" "fe_request e = fe_request e0"
    using worker_turn_core [of ops i ms j] by (cases "entry_of (fst ms) j") (auto simp: entry_core_def)
  then show "fr_address (fe_request e) = a \<and> frozen_bytes e = bs"
    using assms frozen_bytes_request [of e e0] by (auto simp: only_freezes_def)
qed

lemma only_freezes_turns: "only_freezes a bs (fst ms) \<Longrightarrow> only_freezes a bs (fst (run_turns ops sched ms))"
  by (induction sched arbitrary: ms) (simp_all add: only_freezes_turn)

lemma unfreeze_none_running:
  assumes e: "entry_of (fst ms) i = Some e" and others: "\<And>j. j \<noteq> i \<Longrightarrow> entry_of (fst ms) j = None"
  shows "none_running (fst (snd (unfreeze ops sched i ms)))"
proof (rule unfreeze_eq [OF e, of ops sched])
  fix e' assume u: "unfreeze ops sched i ms = (Inr (), (put_entry (fst (stop_worker ops sched i e ms)) i
      (e'\<lparr>fe_active := False\<rparr>), snd (stop_worker ops sched i e ms)))" "\<not> fe_joinable e'"
  have "entry_of (fst (stop_worker ops sched i e ms)) j = None" if "j \<noteq> i" for j
    using join_other [OF that, of ops sched "(put_entry (fst ms) i (e\<lparr>fe_cancel := True\<rparr>), snd ms)"] others that
    by (auto simp: stop_worker_def)
  then show ?thesis using u by (auto simp: none_running_def split: if_splits)
qed

lemma cancel_all_none_running:
  assumes "none_running m"
  shows "snd (cancel_all ops scheds (m, s)) = s" "none_running (fst (cancel_all ops scheds (m, s)))"
proof -
  have "join_all ops scheds ids ms = ms" if "none_running (fst ms)" for ids ms
    using that by (induction ids arbitrary: ms) (auto simp: none_running_def split: option.split)
  moreover have "none_running (m\<lparr>fm_entries := map (\<lambda>(i, e). (i, e\<lparr>fe_cancel := True, fe_active := False\<rparr>)) (fm_entries m)\<rparr>)"
    using assms by (auto simp: none_running_def entry_of_def map_of_map)
  ultimately show "snd (cancel_all ops scheds (m, s)) = s" "none_running (fst (cancel_all ops scheds (m, s)))"
    by (simp_all add: cancel_all_def)
qed

context writable_backend
begin

lemma one_range_turns:
  assumes "valid_request a (length bs)" "only_freezes a bs (fst ms)" "smem (snd ms) \<in> {M, mem_store M a bs}"
  shows "smem (snd (run_turns ops sched ms)) \<in> {M, mem_store M a bs}"
  using assms(2,3)
proof (induction sched arbitrary: ms)
  case (Cons i sched)
  have "smem (snd (worker_turn ops i ms)) \<in> {M, mem_store M a bs}"
  proof (rule worker_turn_cases [of ops i ms])
    fix e e' s' assume e: "entry_of (fst ms) i = Some e" "worker_step ops e (snd ms) = (e', s')"
      "worker_turn ops i ms = (put_entry (fst ms) i e', s')"
    have r: "fr_address (fe_request e) = a" "frozen_bytes e = bs" using Cons.prems(1) e(1) by (auto simp: only_freezes_def)
    have "smem (snd (write_bytes ops (snd ms) a bs)) \<in> {M, mem_store M a bs}"
      using write_bytes_ok(2) [OF assms(1), of "snd ms"] Cons.prems(2) by (auto simp: mem_store_twice)
    then have "smem s' \<in> {M, mem_store M a bs}"
      using e(2) r Cons.prems(2) by (auto split: worker_pc.splits prod.splits sum.splits if_splits)
    then show ?thesis using e(3) by simp
  qed (use Cons.prems in simp)
  then show ?case using Cons.IH [OF only_freezes_turn [OF Cons.prems(1)]] by simp
qed simp

lemma one_range_unfreeze:
  assumes "valid_request a (length bs)" "only_freezes a bs (fst ms)" "smem (snd ms) \<in> {M, mem_store M a bs}"
    and e: "entry_of (fst ms) i = Some e"
  shows "smem (snd (snd (unfreeze ops sched i ms))) \<in> {M, mem_store M a bs}"
proof -
  let ?ms = "(put_entry (fst ms) i (e\<lparr>fe_cancel := True\<rparr>), snd ms)"
  have "only_freezes a bs (fst ?ms)" using only_freezes_put [OF assms(2) e, of "e\<lparr>fe_cancel := True\<rparr>"] by simp
  from one_range_turns [OF assms(1) this, of M "sched @ replicate 4 i"] assms(3)
  have "smem (snd (stop_worker ops sched i e ms)) \<in> {M, mem_store M a bs}"
    by (auto simp: stop_worker_def join_worker_def split: prod.split option.split)
  then show ?thesis by (auto intro: unfreeze_eq [OF e, of ops sched])
qed

end

lemma ammo_frozen_bytes: "fe_request e = effective_request (ammo_freeze_request a) \<Longrightarrow> frozen_bytes e = bytes_of_word (999 :: u32)"
  by (simp add: frozen_bytes_def effective_request_def ammo_freeze_request_def u64_to_bytes_def bytes_of_word_def upt_rec Let_def)

context writable_backend
begin

lemma assault_ammo_mem:
  assumes v: "valid_request a 4"
  shows "smem (snd (snd (assault_ammo ops run a (FreezeManager_new True, s)))) \<in> {smem s, store32 (smem s) a 999} \<and>
    none_running (fst (snd (assault_ammo ops run a (FreezeManager_new True, s))))"
proof (rule freeze_cases [of ops "ar_spawn run" "ammo_freeze_request a" "(FreezeManager_new True, s)"])
  fix err s' assume "freeze ops (ar_spawn run) (ammo_freeze_request a) (FreezeManager_new True, s)
      = (Inl err, (fst (FreezeManager_new True, s), s'))"
    "s' = snd (FreezeManager_new True, s) \<or> s' = snd (read_bytes ops (snd (FreezeManager_new True, s))
       (fr_address (ammo_freeze_request a)) (fr_size (effective_request (ammo_freeze_request a))))"
  then show ?thesis by (auto simp: assault_ammo_def none_running_def)
next
  fix err bs s' s'' assume "freeze ops (ar_spawn run) (ammo_freeze_request a) (FreezeManager_new True, s)
      = (Inl err, (put_entry (fst (FreezeManager_new True, s)) (fr_id (ammo_freeze_request a))
          (new_entry (effective_request (ammo_freeze_request a)) bs), s''))"
    "read_bytes ops (snd (FreezeManager_new True, s)) (fr_address (ammo_freeze_request a))
       (fr_size (effective_request (ammo_freeze_request a))) = (Inr bs, s')" "ses_backend s'' = ses_backend s'"
  moreover from this(2) have "smem s' = smem s" using read_bytes_mem by (metis snd_conv)
  ultimately show ?thesis by (auto simp: assault_ammo_def none_running_def new_entry_def)
next
  fix bs s' s'' assume f: "freeze ops (ar_spawn run) (ammo_freeze_request a) (FreezeManager_new True, s)
      = (Inr (), (put_entry (fst (FreezeManager_new True, s)) (fr_id (ammo_freeze_request a))
          (started_entry (effective_request (ammo_freeze_request a)) bs), s''))"
    "read_bytes ops (snd (FreezeManager_new True, s)) (fr_address (ammo_freeze_request a))
       (fr_size (effective_request (ammo_freeze_request a))) = (Inr bs, s')" "ses_backend s'' = ses_backend s'"
  define e where "e = started_entry (effective_request (ammo_freeze_request a)) bs"
  define ms where "ms = run_turns ops (ar_sleep run) (put_entry (FreezeManager_new True) ''ammo_freeze'' e, s'')"
  have er: "fe_request e = effective_request (ammo_freeze_request a)" "fr_id (ammo_freeze_request a) = ''ammo_freeze''"
    by (simp_all add: e_def started_entry_def new_entry_def ammo_freeze_request_def)
  have m0: "smem s'' = smem s" using f(2,3) read_bytes_mem by (metis snd_conv)
  have one: "only_freezes a (bytes_of_word (999 :: u32)) (put_entry (FreezeManager_new True) ''ammo_freeze'' e)"
    using ammo_frozen_bytes [OF er(1)] er(1) by (simp add: only_freezes_def) (simp add: ammo_freeze_request_def)
  have v': "valid_request a (length (bytes_of_word (999 :: u32)))" using v by simp
  have m1: "smem (snd ms) \<in> {smem s, store32 (smem s) a 999}"
    unfolding ms_def by (rule one_range_turns [OF v']) (simp_all add: one m0)
  have one1: "only_freezes a (bytes_of_word (999 :: u32)) (fst ms)"
    using one unfolding ms_def by (intro only_freezes_turns) simp
  obtain e1 where e1: "entry_of (fst ms) ''ammo_freeze'' = Some e1"
    unfolding ms_def by (rule run_turns_entry [of "(put_entry (FreezeManager_new True) ''ammo_freeze'' e, s'')" "''ammo_freeze''" e]) auto
  have others: "j \<noteq> ''ammo_freeze'' \<Longrightarrow> entry_of (fst ms) j = None" for j
    by (simp add: ms_def run_turns_none)
  obtain r s3 where rd: "session_read ops (snd ms) a = (r :: u32 result, s3)" by fastforce
  have s3: "smem s3 = smem (snd ms)" using session_read_keeps [OF rd] .
  have "assault_ammo ops run a (FreezeManager_new True, s) =
      (fst (assault_ammo ops run a (FreezeManager_new True, s)), snd (unfreeze ops (ar_sched run) ''ammo_freeze'' (fst ms, s3)))"
    using f(1) er rd by (simp add: assault_ammo_def e_def ms_def split_beta)
  then have am: "snd (assault_ammo ops run a (FreezeManager_new True, s)) = snd (unfreeze ops (ar_sched run) ''ammo_freeze'' (fst ms, s3))"
    by (metis snd_conv)
  have "smem (snd (snd (unfreeze ops (ar_sched run) ''ammo_freeze'' (fst ms, s3)))) \<in> {smem s, store32 (smem s) a 999}"
    using one_range_unfreeze [OF v', of "(fst ms, s3)" "smem s" "''ammo_freeze''" e1] one1 m1 s3 e1 by simp
  moreover have "none_running (fst (snd (unfreeze ops (ar_sched run) ''ammo_freeze'' (fst ms, s3))))"
    using unfreeze_none_running [of "(fst ms, s3)" "''ammo_freeze''" e1] e1 others by simp
  ultimately show ?thesis by (simp only: am)
qed

lemma write_word_mem: "valid_request a 4 \<Longrightarrow> smem (snd (session_write ops s a (v :: u32))) = store32 (smem s) a v"
  using session_write_ok(2) [where ?'a = 32, of a s v] by simp

lemma assault_jump_mem:
  assumes "valid_request a 4" "\<And>z. pz = Inr z \<Longrightarrow> mem_word (smem s) a = Some z"
  shows "smem (snd (assault_jump ops run a pz s)) = smem s"
  using assms by (simp add: assault_jump_def Let_def write_word_mem word_written_back split: sum.split)

end

lemma field_valid:
  assumes "unat p + 0x158 < 2 ^ 64" "off64 \<le> 0x154" "off32 \<le> 0x154"
  shows "valid_request (assault_field is_64bit p off64 off32) 4"
proof -
  have "valid_request (p + of_nat n) 4" if "n \<le> 0x154" for n
  proof -
    have n: "unat (of_nat n :: u64) = n" by (rule unat_of_nat_u64) (use that in simp)
    have "unat (p + of_nat n) = unat p + n"
      using assms(1) that n by (subst unat_add_lem [THEN iffD1]) auto
    then show ?thesis using assms(1) that by (simp add: valid_request_def)
  qed
  then show ?thesis using assms by (simp add: assault_field_def)
qed

lemma field_apart:
  assumes "a + 4 \<le> b \<or> b + 4 \<le> a" "c + 4 \<le> d \<or> d + 4 \<le> c" "a < 0x200" "b < 0x200" "c < 0x200" "d < 0x200"
  shows "apart (assault_field is_64bit p a c) (assault_field is_64bit p b d)"
  using fields_apart [of a b p] fields_apart [of c d p] assms by (simp add: assault_field_def)

text \<open>The memory after actions 1 and 4; action 2 may also leave its value in the clip.\<close>

definition assault_health :: "bool \<Rightarrow> address \<Rightarrow> mem \<Rightarrow> mem" where
  "assault_health is_64bit p M = store32 (store32 M (assault_field is_64bit p 0x100 0xEC) 100) (assault_field is_64bit p 0x104 0xF0) 100"

context writable_backend
begin

lemma assault_run_mem:
  assumes t: "assault_target run = (txt, b, p)" and p: "unat p + 0x158 < 2 ^ 64"
    and run: "assault_main ops run = (code, out, m, s)"
  shows "code = 0" "none_running m"
    "smem s \<in> {assault_health (ar_is_64bit run) p (mem_of b),
       store32 (assault_health (ar_is_64bit run) p (mem_of b)) (assault_field (ar_is_64bit run) p 0x154 0x140) 999}"
proof -
  let ?f = "assault_field (ar_is_64bit run) p"
  let ?hp = "?f 0x100 0xEC" and ?arm = "?f 0x104 0xF0" and ?z = "?f 0x10 0x30" and ?clip = "?f 0x154 0x140"
  have v: "valid_request ?hp 4" "valid_request ?arm 4" "valid_request ?z 4" "valid_request ?clip 4"
    by (rule field_valid [OF p]; simp)+
  have ap: "apart ?z ?hp" "apart ?z ?arm" "apart ?z ?clip"
    by (rule field_apart; simp)+
  obtain hp s1 where r1: "session_read ops (open_session ops b) ?hp = (hp :: u32 result, s1)" by fastforce
  obtain arm s2 where r2: "session_read ops s1 ?arm = (arm :: u32 result, s2)" by fastforce
  obtain gun s3 where r3: "session_read ops s2 (?f 0x108 0xFC) = (gun :: u32 result, s3)" by fastforce
  obtain px s4 where r4: "session_read ops s3 (?f 0x8 0x2C) = (px :: u32 result, s4)" by fastforce
  obtain py s5 where r5: "session_read ops s4 (?f 0xC 0x28) = (py :: u32 result, s5)" by fastforce
  obtain pz s6 where r6: "session_read ops s5 ?z = (pz :: u32 result, s6)" by fastforce
  note reads = r1 r2 r3 r4 r5 r6
  have m5: "smem s5 = mem_of b" using r1 r2 r3 r4 r5 [THEN session_read_keeps] by (simp add: open_session_def session_read_keeps)
  then have m6: "smem s6 = mem_of b" using session_read_keeps [OF r6] by simp
  have z: "mem_word (mem_of b) ?z = Some zz" if "pz = Inr zz" for zz
    using session_read_ok_iff [where ?'a = 32, of s5 ?z zz] r6 that m5 by simp
  define s7 where "s7 = snd (session_write ops (snd (session_write ops s6 ?hp (100 :: u32))) ?arm (100 :: u32))"
  have m7: "smem s7 = assault_health (ar_is_64bit run) p (mem_of b)"
    by (simp add: s7_def write_word_mem v m6 assault_health_def)
  obtain o1 m1 s8 where am: "assault_ammo ops run ?clip (FreezeManager_new True, s7) = (o1, m1, s8)" by (metis prod.exhaust)
  have s8: "smem s8 \<in> {smem s7, store32 (smem s7) ?clip 999}" "none_running m1"
    using assault_ammo_mem [OF v(4), of run s7] am by simp_all
  obtain o2 s9 where j: "assault_jump ops run ?z pz s8 = (o2, s9)" by fastforce
  have "mem_word (smem s8) ?z = (mem_word (mem_of b) ?z :: u32 option)"
    using s8(1) m7 by (auto simp: assault_health_def word_store_apart ap)
  then have s9: "smem s9 = smem s8" using assault_jump_mem [OF v(3), of pz s8 run] z j by simp
  have main: "(code, m, s) = (0, cancel_all ops (ar_joins run) (m1, s9))"
    using run reads am j by (simp add: assault_main_def t Let_def s7_def)
  then show "code = 0" "none_running m"
    using cancel_all_none_running [OF s8(2), of ops "ar_joins run" s9] by (metis fst_conv snd_conv)+
  show "smem s \<in> {assault_health (ar_is_64bit run) p (mem_of b),
       store32 (assault_health (ar_is_64bit run) p (mem_of b)) ?clip 999}"
    using main cancel_all_none_running(1) [OF s8(2), of ops "ar_joins run" s9] s8(1) s9 m7 by (metis snd_conv)
qed

end

section \<open>Properties\<close>


text \<open>No game runs: the simulated one of the 64-bit layout; the worker writes once during the sleep.\<close>

definition assault_sandbox :: "assault_sim assault_run" where
  "assault_sandbox = \<lparr>ar_is_64bit = True, ar_attached = ([], None, 0), ar_simulated = SimulatedAssaultCubeBackend_new,
     ar_spawn = None, ar_sleep = [''ammo_freeze'', ''ammo_freeze'', ''ammo_freeze''], ar_sched = [], ar_joins = (\<lambda>i. []),
     ar_show = (\<lambda>f. ''4.50''), ar_add10 = (\<lambda>f. 0x41680000)\<rparr>"


end
