(* ===== verification/Lifecycle.thy ===== *)
theory Lifecycle
  imports Example_Trainer Legacy_Demos Named_Pipe
begin

text \<open>
  The ends of objects and the small parts between the components: destructors that give back what
  the constructor took from the operating system, the Darwin functions of the other systems, the
  factories of the named pipe, the default sink of the log, and the value types of the headers.
\<close>

section \<open>Destructors\<close>

text \<open>\<open>close\<close> is \<open>CloseHandle\<close>, \<open>deallocate\<close> is \<open>mach_port_deallocate\<close> on the own task.\<close>

definition WindowsBackend_delete :: "(handle \<Rightarrow> 'o \<Rightarrow> 'o) \<Rightarrow> 'o windows_backend \<Rightarrow> 'o windows_backend" where
  "WindowsBackend_delete close b =
     (if wb_handle b \<noteq> 0 then b\<lparr>wb_os := close (wb_handle b) (wb_os b), wb_handle := 0\<rparr> else b)"

definition is_connected :: "'o windows_backend \<Rightarrow> bool" where
  "is_connected b \<longleftrightarrow> wb_handle b \<noteq> 0"

definition DarwinBackend_delete :: "(port \<Rightarrow> 'o \<Rightarrow> 'o) \<Rightarrow> 'o darwin_backend \<Rightarrow> 'o darwin_backend" where
  "DarwinBackend_delete deallocate b =
     (if db_task_port b \<noteq> 0 then b\<lparr>db_os := deallocate (db_task_port b) (db_os b), db_task_port := 0\<rparr> else b)"

text \<open>The object closes its handle but keeps it; the global pointer to the object (\<open>True\<close>: set) is reset.\<close>

definition GTLibc_delete :: "(game_handle \<Rightarrow> 'o \<Rightarrow> 'o) \<Rightarrow> 'o gtlibc \<times> bool \<Rightarrow> 'o gtlibc \<times> bool" where
  "GTLibc_delete close gp =
     (let g = fst gp in ((if gt_handle g \<noteq> 0 then g\<lparr>gt_os := close (gt_handle g) (gt_os g)\<rparr> else g), False))"

section \<open>Darwin functions where there is no Darwin\<close>

definition make_darwin_backend_elsewhere :: "darwin_options \<Rightarrow> 'o darwin_backend option" where
  "make_darwin_backend_elsewhere opt = None"

definition find_darwin_process_elsewhere :: "string list \<Rightarrow> u32" where
  "find_darwin_process_elsewhere names = 0"

definition get_darwin_process_path_elsewhere :: "u32 \<Rightarrow> string" where
  "get_darwin_process_path_elsewhere pid = []"

definition get_darwin_module_base_elsewhere :: "u32 \<Rightarrow> string \<Rightarrow> address" where
  "get_darwin_module_base_elsewhere pid module_name = 0"

section \<open>Factories of the named pipe\<close>

record pipe_options =
  po_pipe_name :: string
  po_max_instances :: u32
  po_buffer_size :: u32

definition default_pipe_options :: pipe_options where
  "default_pipe_options = \<lparr>po_pipe_name = ''gtlibcpp.agent'', po_max_instances = 1, po_buffer_size = 64 * 1024\<rparr>"

definition make_named_pipe_server :: "'o \<Rightarrow> pipe_options \<Rightarrow> 'o pipe_server" where
  "make_named_pipe_server os opt = pipe_server_new os (po_pipe_name opt)"

definition make_named_pipe_client :: "'o \<Rightarrow> string \<Rightarrow> 'o pipe_client" where
  "make_named_pipe_client os pipe_name =
     pipe_client_new os ([CHR 0x5C, CHR 0x5C, CHR ''.'', CHR 0x5C] @ ''pipe'' @ [CHR 0x5C] @ pipe_name)"

section \<open>The default sink of the log\<close>

text \<open>\<open>%s\<close> prints a text up to its first NUL.\<close>

definition c_text :: "string \<Rightarrow> string" where
  "c_text s = takeWhile (\<lambda>c. c \<noteq> CHR 0x00) s"

definition level_name :: "log_level \<Rightarrow> string" where
  "level_name l = [''DEBUG'', ''INFO'', ''WARN'', ''ERROR''] ! log_level_num l"

definition default_sink :: "log_event \<Rightarrow> printed" where
  "default_sink ev =
     Err (line (''ts='' @ show_int (le_timestamp_ms ev) @ '' level='' @ level_name (lc_level ev) @
       '' op='' @ c_text (lc_operation ev) @ '' code='' @ error_code_to_string (lc_code ev) @
       '' msg='' @ c_text (lc_message ev) @ '' addr=0x'' @ hex_text (unat (lc_address ev)) @
       '' bytes='' @ show_nat (unat (lc_bytes ev))))"

text \<open>What a call of the log prints itself: nothing where a sink is installed.\<close>

definition log_printed :: "('k, 'u) logger \<Rightarrow> int \<Rightarrow> log_call \<Rightarrow> printed option" where
  "log_printed l now c =
     (case logger_log l now c of Some (Default_sink, _, ev) \<Rightarrow> Some (default_sink ev) | _ \<Rightarrow> None)"

section \<open>Value types\<close>

record expected_value =
  ev_kind :: string
  ev_value :: string

definition ExpectedValue_new :: expected_value where
  "ExpectedValue_new = \<lparr>ev_kind = ''hex'', ev_value = []\<rparr>"

definition ExpectedValue_empty :: "expected_value \<Rightarrow> bool" where
  "ExpectedValue_empty v \<longleftrightarrow> ev_value v = []"

text \<open>\<open>Result::expect\<close>: \<open>Inl\<close> is \<open>std::abort\<close> after the message.\<close>

definition result_expect :: "string option \<Rightarrow> 'a result \<Rightarrow> printed + 'a" where
  "result_expect msg r =
     (case r of
        Inr v \<Rightarrow> Inr v
      | Inl e \<Rightarrow> Inl (Err (line (''gtlibcpp::Result::expect: '' @ (case msg of Some m \<Rightarrow> c_text m | None \<Rightarrow> ''(no message)'')))))"

section \<open>Adding to a legacy table\<close>

definition AddCheatEntry :: "legacy_entry \<Rightarrow> legacy_cheat_table \<Rightarrow> legacy_cheat_table" where
  "AddCheatEntry entry t = t\<lparr>lct_entries := lct_entries t @ [entry]\<rparr>"

section \<open>Lemmas\<close>

lemma WindowsBackend_delete_disconnected: "\<not> is_connected (WindowsBackend_delete close b)"
  by (simp add: is_connected_def WindowsBackend_delete_def)

text \<open>Each handle is closed once: a second destruction changes nothing.\<close>

lemma WindowsBackend_delete_twice:
  "WindowsBackend_delete close (WindowsBackend_delete close b) = WindowsBackend_delete close b"
  using WindowsBackend_delete_disconnected [of close b] by (simp add: is_connected_def WindowsBackend_delete_def)

lemma DarwinBackend_delete_twice:
  "DarwinBackend_delete close (DarwinBackend_delete close b) = DarwinBackend_delete close b"
  by (simp add: DarwinBackend_delete_def)

text \<open>After it no read of the backend reaches the process.\<close>

lemma deleted_backend_reads_nothing:
  "\<exists>e. fst (windows_read api (WindowsBackend_delete close b) a n) = Returned (Inl e) \<and> err_code e = EC_not_connected"
  using WindowsBackend_delete_disconnected [of close b]
  by (simp add: is_connected_def windows_read_def make_error_full_def)

text \<open>On a system that is neither, the AssaultCube example plays the simulated 32-bit game.\<close>

lemma assault_elsewhere:
  assumes "ar_attached run = ([], None, ucast (find_darwin_process_elsewhere names))" "\<not> ar_is_64bit run"
  shows "assault_target run = ([Out (line ''[*] AssaultCube is not running; using high-fidelity simulated sandbox.'')],
     ar_simulated run False, 0x500000)"
  using assms by (simp add: assault_target_def)

text \<open>The level names are never read out of range, and a message is one call of \<open>fprintf\<close> iff its level passes.\<close>

lemma level_name_total: "level_name l \<in> {''DEBUG'', ''INFO'', ''WARN'', ''ERROR''}"
  by (cases l) (simp_all add: level_name_def)

lemma log_printed_iff:
  "log_printed l now c \<noteq> None \<longleftrightarrow> lg_sink l = None \<and> log_level_num (lg_min_level l) \<le> log_level_num (lc_level c)"
  by (auto simp: log_printed_def logger_log_def split: option.split)

lemma AddCheatEntry_not_empty: "\<not> IsEmpty (AddCheatEntry entry t)"
  by (simp add: AddCheatEntry_def IsEmpty_def)

end
