(* ===== verification/Spec2Isabelle.thy ===== *)
theory Spec2Isabelle
  imports Session_Properties Aob_Scan Candidate_Scan Freeze_Spec Agent_Properties Agent_Invariant Trainer_Main
    Agent_Roundtrip Trainer_Console Named_Pipe Legacy_Properties Legacy_Display Legacy_Demos Example_Tools Example_Trainer Lifecycle
begin

text \<open>
  A verification library of gtlibcpp, a C++ library that reads and writes the memory of games, the
  agent service and the trainer built on it, and GTLibc, the older library it ships.

  The program and its theories, from the bottom up:

  \<^item> \<open>Prelude\<close>, \<open>Byte_Memory\<close>, \<open>Number_Text\<close>: machine integers, characters and the hint
    collections; memory as a partial map from 64-bit addresses to bytes, little-endian integers
    in it; \<open>std::stoll\<close> and printing of numbers.
  \<^item> \<open>Core_Types\<close>: \<open>include/gtlibcpp/result.hpp\<close>, \<open>types.hpp\<close>, \<open>log.hpp\<close>. A \<open>Result<T>\<close> is a sum with the
    error on the left; an exception that leaves a method is a value of \<open>outcome\<close>.
  \<^item> \<open>Backend\<close>: \<open>backend.hpp\<close>. A backend is a record of its methods over a state \<open>'b\<close>; the locales
    \<open>memory_backend\<close> and \<open>writable_backend\<close> say what the clients rely on. \<open>Sim_Backend\<close> (the simulated
    game of \<open>tools/gt_trainer_cli.cpp\<close>) interprets them; \<open>Native_Backends\<close>
    (\<open>src/windows_backend.cpp\<close>, \<open>src/darwin_backend.cpp\<close>) proves the backends of the operating systems
    lawful over system calls that do what their documentation says.
  \<^item> \<open>Memory_Session\<close>, \<open>Session_Properties\<close>: \<open>memory_session.hpp\<close>, every operation of the session: typed and
    raw access, batches, verified writes, pointer chains, strings. \<open>Aob_Scan\<close> and \<open>Candidate_Scan\<close>
    (\<open>aob_scan.hpp\<close>, \<open>candidate_scan.hpp\<close>) search memory through it.
  \<^item> \<open>Freeze\<close>: \<open>src/freeze.cpp\<close>. The worker threads are steps of a program counter over the shared
    session; \<open>freeze_reach\<close> is every interleaving of manager calls, worker steps and other clients.
    \<open>Freeze_Spec\<close> is its specification, a transition system of cells that are registered, rewritten,
    stopped and put back; the locale \<open>forward_simulation\<close> carries runs and invariants over, and is
    instantiated for every lawful backend.
  \<^item> \<open>Policy\<close>: \<open>src/policy.cpp\<close>, authorisation of mutations: kill switch, manifests, tokens, rate limits, audit.
  \<^item> \<open>Xml_Reader\<close>, \<open>Cheat_Table\<close>: \<open>src/parser.cpp\<close>, the XML reader and the fail-closed conversion of Cheat
    Engine tables. \<open>Json\<close>: the JSON codec of \<open>src/agent.cpp\<close>.
  \<^item> \<open>Inproc_Transport\<close>, \<open>Named_Pipe\<close>: \<open>src/inproc_transport.cpp\<close>, \<open>src/named_pipe_transport.cpp\<close>. The
    locale \<open>transport\<close> is \<open>IAgentTransport\<close>, interpreted on both ends of the in-process pair.
  \<^item> \<open>Agent\<close>, \<open>Agent_Server\<close>, \<open>Agent_History\<close>, \<open>Agent_Properties\<close>: \<open>src/agent.cpp\<close>, each handler over session,
    freeze manager and policy, the dispatcher and the server loop over a transport; histories are
    lists of requests and worker steps. \<open>Agent_Invariant\<close> is the type of its state, kept by every history;
    \<open>Agent_Roundtrip\<close> follows a mutation from the text of an \<open>apply\<close> to the text of a \<open>verify\<close>.
  \<^item> \<open>Trainer\<close>, \<open>Trainer_Properties\<close>, \<open>Trainer_Main\<close>: \<open>tools/gt_trainer_cli.cpp\<close>, from the command line to
    the exit code, over the cheat-table parser, a session and a freeze manager; \<open>Trainer_Console\<close> is its
    terminal and what it prints. \<open>Discovery\<close>
    (\<open>windows_discovery.hpp\<close>, \<open>src/darwin_backend.cpp\<close>) finds processes, modules and regions.
  \<^item> \<open>Example_Tools\<close>: \<open>tools/gtctl.cpp\<close> and the examples that read, write and restore a value;
    \<open>Example_Trainer\<close>: \<open>examples/assaultcube_trainer.cpp\<close> with its own simulated game, on which the
    backend locales are interpreted. \<open>Lifecycle\<close>: destructors, factories, the default sink of the
    log, the functions other systems get in place of the Darwin ones.
  \<^item> \<open>Legacy_Memory\<close>, \<open>Legacy_Parser\<close>, \<open>Legacy_Cheats\<close>, \<open>Legacy_Display\<close>, \<open>Legacy_Properties\<close>: \<open>libs/gtlibc\<close>
    (\<open>GTLibc.cpp\<close>, \<open>GTLibc.tpp\<close>, \<open>CEParser.cpp\<close>): typed access and 32-bit pointers, the regular-expression
    parser of tables, the cheat actions with their freezing threads, the trainer loop, the texts
    it prints. \<open>Legacy_Demos\<close>: \<open>demos/IGITrainer.cpp\<close> and \<open>demos/GenericTrainer.cpp\<close>.

  What the lemmas show. Session: reads and writes are exact on a lawful memory, chains are the
  pointer walk, a verified write is in memory when it succeeds. Scans: the chunked signature scan
  is the reference scan; what the value scans find and keep. Freeze: a type invariant of every
  reachable state, restoring undoes freezing under every schedule, stopped workers write no
  more, every run implements the specification, and each byte of memory is the initial, the frozen
  or the original one. Policy and agent: a request is authorised exactly under the stated conditions, an
  approval is good for one write, what the kill switch stops and what is not gated at all, every
  request is answered and in order, the state stays well formed and the audit only grows, what an
  approval is not bound to. Parsers: round trips, termination, fail-closed tables.
  Trainer: its chains, hotkeys, self-test and the state it leaves; the whole program returns and
  leaves no freeze behind, and leaves the terminal as it was. Examples: reading, writing and
  restoring leaves memory as it was unless the exit code says otherwise; what the AssaultCube
  example leaves behind. GTLibc: what pointer writes and \<open>Set Value\<close> write, one live thread per
  address, what its table parser accepts and where it does not end. Several properties state
  a behaviour the code has and its documents do not: those are named in the findings of the manifest.

  Bounds and fuel. \<open>std::size_t\<close>, \<open>DWORD\<close> and addresses are words of their width, so sums wrap. The
  recursive readers of XML and JSON take fuel, twice the length of the input and a little more; it
  is proved to suffice for every input (every element or value consumes a character), so \<open>None\<close>
  never occurs. GTLibc's parser of nested entries is a \<open>partial_function\<close>, whose \<open>None\<close> is a recursion
  that does not end; the other loops are total functions with a measure, or recurse over the list
  of what their environment does (keys, requests, schedules).

  Parameters: operating-system calls (processes, pipes, memory, keyboard, file contents), SHA-256,
  conversions and arithmetic of floating point, clock readings and the scheduler's choices. The
  laws a theorem needs of them are its hypotheses, met by a concrete instance in its witness.

  Not modelled: mutexes (an operation that holds one throughout is one step), the lines the trainer
  prints while it attaches and acts, the text of the legacy log (its entries are the names of the
  methods), message boxes, the waits between iterations. The drivers under \<open>tests/\<close> have no model.
\<close>

end
